theory Spec2Isabelle
  imports Main "HOL-Library.AList"
begin

section \<open>JavaScript values\<close>

text \<open>
  The handlers are TypeScript over untyped request bodies and database rows, so the
  values they test with \<^verbatim>\<open>!x\<close>, default with \<^verbatim>\<open>x || d\<close> and return as JSON are
  modelled by one datatype of JavaScript values. Numbers are integers here (the
  quantities, identifiers and amounts of the examples); \<open>JNaN\<close> is the one non-integer
  number the code can produce (through \<^verbatim>\<open>Number(...)\<close>). An object is the list of its own
  properties in insertion order, with distinct keys. \<open>JBuiltin\<close> is an object or a
  function of the runtime, by name: what a property read finds on the prototype chain
  (\<^verbatim>\<open>Object\<close> for \<^verbatim>\<open>({}).constructor\<close>, \<^verbatim>\<open>Object.prototype.valueOf\<close> for \<^verbatim>\<open>({}).valueOf\<close>).
\<close>

datatype js =
    JUndefined
  | JNull
  | JBool bool
  | JNum int
  | JNaN
  | JStr string
  | JArr "js list"
  | JObj "(string \<times> js) list"
  | JBuiltin string

text \<open>
  \<^verbatim>\<open>!v\<close>: the falsy values are undefined, null, false, 0, NaN and the empty string;
  every object and function is truthy.
\<close>

fun falsy :: "js \<Rightarrow> bool" where
  "falsy JUndefined = True"
| "falsy JNull = True"
| "falsy (JBool b) = (b = False)"
| "falsy (JNum n) = (n = 0)"
| "falsy JNaN = True"
| "falsy (JStr s) = (s = [])"
| "falsy (JArr xs) = False"
| "falsy (JObj kvs) = False"
| "falsy (JBuiltin b) = False"

definition truthy :: "js \<Rightarrow> bool" where
  "truthy v = (if falsy v then False else True)"

text \<open>\<^verbatim>\<open>a || b\<close>\<close>

definition js_or :: "js \<Rightarrow> js \<Rightarrow> js" where
  "js_or a b = (if falsy a then b else a)"

text \<open>\<^verbatim>\<open>typeof v === 'number'\<close>\<close>

fun is_number :: "js \<Rightarrow> bool" where
  "is_number (JNum n) = True"
| "is_number JNaN = True"
| "is_number v = False"

text \<open>
  \<^verbatim>\<open>o.k\<close> for a fixed name \<open>k\<close> that no prototype of the runtime defines (the column
  names \<^verbatim>\<open>quantity\<close>, \<^verbatim>\<open>price\<close>, \<^verbatim>\<open>subtotal\<close>, ... of a row): reading a property of
  undefined or null throws a TypeError (\<open>None\<close>); an object yields its own property, and
  undefined when it has none. The read with a key taken from the request,
  \<^verbatim>\<open>variants[item.color]\<close>, is \<open>read_member\<close> below, which follows the prototype chain.
\<close>

fun get_prop :: "js \<Rightarrow> string \<Rightarrow> js option" where
  "get_prop JUndefined k = None"
| "get_prop JNull k = None"
| "get_prop (JObj kvs) k = Some (case map_of kvs k of None \<Rightarrow> JUndefined | Some v \<Rightarrow> v)"
| "get_prop v k = Some JUndefined"

text \<open>\<^verbatim>\<open>o?.[k]\<close>: undefined instead of the TypeError.\<close>

definition opt_prop :: "js \<Rightarrow> string \<Rightarrow> js" where
  "opt_prop v k = (case get_prop v k of None \<Rightarrow> JUndefined | Some r \<Rightarrow> r)"

text \<open>\<^verbatim>\<open>{...o, k: v}\<close> keeps the position of a key \<open>o\<close> already has and appends a new one.\<close>

definition spread_set :: "string \<Rightarrow> js \<Rightarrow> (string \<times> js) list \<Rightarrow> (string \<times> js) list" where
  "spread_set k v kvs = AList.update k v kvs"

text \<open>Template literals render a number in decimal.\<close>

definition digit :: "nat \<Rightarrow> char" where
  "digit n = ''0123456789'' ! n"

function nat_to_string :: "nat \<Rightarrow> string" where
  "nat_to_string n = (if n < 10 then [digit n] else nat_to_string (n div 10) @ [digit (n mod 10)])"
  by pat_completeness auto
termination
  by (relation "measure (\<lambda>n. n)") auto

declare nat_to_string.simps [simp del]

definition int_to_string :: "int \<Rightarrow> string" where
  "int_to_string i = (if i < 0 then CHR ''-'' # nat_to_string (nat (- i)) else nat_to_string (nat i))"

section \<open>Database rows, responses and the environment\<close>

record decoded =
  userId :: string
  email :: string

record user =
  uid :: string
  user_email :: string

record 'b request =
  authorization :: "string option"
  searchParams_id :: "string option"
  json_body :: "'b option"

text \<open>
  \<open>json_body = None\<close>: \<^verbatim>\<open>request.json()\<close> rejects (the body is not JSON).
\<close>

datatype response = Response (status: nat) (body: js)

definition error_body :: "string \<Rightarrow> js" where
  "error_body msg = JObj [(''error'', JStr msg)]"

definition unauthorized :: response where
  "unauthorized = Response 401 (error_body ''Unauthorized'')"

definition internal_server_error :: response where
  "internal_server_error = Response 500 (error_body ''Internal server error'')"

record product_row =
  p_id :: nat
  p_name :: js
  p_brand :: js
  p_image_url :: js
  p_variants :: "string option"
  p_stock_quantity :: int

record order_row =
  o_id :: nat
  o_user_id :: "string option"
  o_order_number :: string
  o_status :: js
  o_payment_status :: js
  o_payment_method :: js
  o_payment_screenshot :: js
  o_subtotal :: js
  o_tax_amount :: js
  o_shipping_amount :: js
  o_discount_amount :: js
  o_total_amount :: js
  o_shipping_address :: "string option"
  o_billing_address :: js
  o_notes :: js
  o_tracking_number :: js
  o_created_at :: nat
  o_updated_at :: nat

record order_item_row =
  oi_id :: nat
  oi_order_id :: nat
  oi_product_id :: nat
  oi_quantity :: int
  oi_size :: "string option"
  oi_color :: "string option"
  oi_price :: int

record address_row =
  a_id :: nat
  a_user_id :: string
  a_first_name :: js
  a_last_name :: js
  a_address_line_1 :: js
  a_address_line_2 :: js
  a_city :: js
  a_state :: js
  a_postal_code :: js
  a_country :: js
  a_phone :: js
  a_is_default :: bool
  a_created_at :: nat

text \<open>
  One entry of the request's \<^verbatim>\<open>items\<close> array, with the fields the handlers read: the
  identifier and quantity are numbers, the name, colour and size strings.
\<close>

record item =
  i_product_id :: nat
  i_product_name :: string
  i_color :: string
  i_size :: string
  i_quantity :: int
  i_price :: int

text \<open>One call of the stock-adjustment endpoint and its reply.\<close>

record stock_call =
  sc_product_id :: nat
  sc_authorization :: string
  sc_color :: string
  sc_size :: string
  sc_quantity :: int

text \<open>
  \<open>reply_message\<close> is \<^verbatim>\<open>(await stockResponse.json()).message\<close>: \<open>None\<close> when reading it
  throws (the body is not JSON, or is null), \<open>Some JUndefined\<close> when the body has no
  message.
\<close>

record stock_reply =
  reply_ok :: bool
  reply_message :: "js option"

text \<open>
  What the handlers use and this repository's two files do not define: the token
  library, the JSON codec of the runtime, the database's coercions and driver, the
  stock-adjustment endpoint and the clock.
  \<^item> \<open>jwt_verify\<close>: \<^verbatim>\<open>jwt.verify(token, JWT_SECRET)\<close>, \<open>None\<close> when it throws;
  \<^item> \<open>JSON_parse\<close>: \<open>None\<close> when it throws a SyntaxError;
  \<^item> \<open>to_number\<close>: ToNumber of a string, array, object or function, \<open>None\<close> for NaN;
  \<^item> \<open>object_to_string\<close>: ToString of an array, object or function;
  \<^item> \<open>number_to_string\<close>: ToString of an integer outside the safe range (from
    \<^verbatim>\<open>2 ** 53\<close> on the digits are the shortest that read back as the same double, and
    from \<^verbatim>\<open>1e21\<close> on the form is the exponent form \<^verbatim>\<open>1e+21\<close>);
  \<^item> \<open>runtime_get\<close>: \<^verbatim>\<open>v[k]\<close> where \<open>k\<close> is no own property of an object \<open>v\<close> that
    was parsed from JSON, or \<open>v\<close> is no such object: the property \<open>v\<close> inherits through
    the prototype chain (\<^verbatim>\<open>constructor\<close>, \<^verbatim>\<open>toString\<close>, \<^verbatim>\<open>valueOf\<close>, \<^verbatim>\<open>__proto__\<close>, ... of
    \<^verbatim>\<open>Object.prototype\<close>), the index and length properties and the methods of a string or
    an array, the properties of a number, a boolean or a built-in; undefined when there
    is no such property, \<open>None\<close> when the read throws (the \<^verbatim>\<open>caller\<close> and \<^verbatim>\<open>arguments\<close>
    accessors of a built-in function);
  \<^item> \<open>sql_key\<close>: the integer a bound parameter equals when MySQL compares it with an
    integer key column, if any;
  \<^item> \<open>db_decimal\<close>, \<open>db_int\<close>: what a SELECT returns for a DECIMAL and for an INT
    column that holds the inserted value (the driver may hand numbers back as strings);
  \<^item> \<open>stock_PUT\<close>: the stock-adjustment endpoint, which owns the writes to products;
  \<^item> \<open>order_defaults\<close>: the column defaults of a new orders row.
\<close>

record env =
  jwt_verify :: "string \<Rightarrow> decoded option"
  JSON_parse :: "string \<Rightarrow> js option"
  JSON_stringify :: "js \<Rightarrow> string"
  to_number :: "js \<Rightarrow> int option"
  object_to_string :: "js \<Rightarrow> string"
  number_to_string :: "int \<Rightarrow> string"
  runtime_get :: "js \<Rightarrow> string \<Rightarrow> js option"
  sql_key :: "js \<Rightarrow> nat option"
  db_decimal :: "js \<Rightarrow> js"
  db_int :: "js \<Rightarrow> js"
  stock_PUT :: "stock_call \<Rightarrow> product_row list \<Rightarrow> stock_reply \<times> product_row list"
  order_defaults :: order_row
  now :: nat

text \<open>
  The effects a request leaves behind, in order: an item that passed the stock check,
  and a call of the stock-adjustment endpoint.
\<close>

datatype event = StockValidated item | StockAdjust stock_call

record db =
  products :: "product_row list"
  orders :: "order_row list"
  order_items :: "order_item_row list"
  addresses :: "address_row list"
  next_order_id :: nat
  next_item_id :: nat
  next_address_id :: nat
  events :: "event list"

section \<open>Token verifier\<close>

text \<open>
  \<^verbatim>\<open>getUserFromToken\<close>, the same in both files up to logging: no header, an empty
  header, a header without the prefix and a token that \<^verbatim>\<open>jwt.verify\<close> rejects all give
  null; the try/catch turns the throw into null.
\<close>

definition getUserFromToken :: "env \<Rightarrow> 'b request \<Rightarrow> user option" where
  "getUserFromToken env request =
     (case authorization request of
        None \<Rightarrow> None
      | Some authHeader \<Rightarrow>
          if authHeader = [] then None
          else if take 7 authHeader = ''Bearer '' then
            (case jwt_verify env (drop 7 authHeader) of
               None \<Rightarrow> None
             | Some d \<Rightarrow> Some \<lparr>uid = userId d, user_email = email d\<rparr>)
          else None)"

section \<open>Addresses (src/app/api/orders/route.ts, second module)\<close>

record address_body =
  body_id :: js
  address_line_1 :: js
  address_line_2 :: js
  city :: js
  state :: js
  postal_code :: js
  country :: js
  first_name :: js
  last_name :: js
  phone :: js
  is_default :: js

definition address_js :: "address_row \<Rightarrow> js" where
  "address_js a = JObj
     [(''id'', JNum (int (a_id a))),
      (''user_id'', JStr (a_user_id a)),
      (''first_name'', a_first_name a),
      (''last_name'', a_last_name a),
      (''address_line_1'', a_address_line_1 a),
      (''address_line_2'', a_address_line_2 a),
      (''city'', a_city a),
      (''state'', a_state a),
      (''postal_code'', a_postal_code a),
      (''country'', a_country a),
      (''phone'', a_phone a),
      (''is_default'', JNum (if a_is_default a then 1 else 0)),
      (''created_at'', JNum (int (a_created_at a)))]"

text \<open>\<^verbatim>\<open>rows[0]\<close> of a result set: undefined when the set is empty.\<close>

definition first_row :: "js list \<Rightarrow> js" where
  "first_row rows = (case rows of [] \<Rightarrow> JUndefined | r # _ \<Rightarrow> r)"

text \<open>
  \<^verbatim>\<open>if (!address_line_1 || !city || !first_name || !last_name)\<close>
\<close>

definition missing_required :: "address_body \<Rightarrow> bool" where
  "missing_required b =
     (falsy (address_line_1 b) \<or> falsy (city b) \<or> falsy (first_name b) \<or> falsy (last_name b))"

definition required_fields_error :: response where
  "required_fields_error =
     Response 400 (error_body ''Address line 1, city, first name, and last name are required'')"

text \<open>\<^verbatim>\<open>UPDATE addresses SET is_default = 0 WHERE user_id = ?\<close>\<close>

definition clear_defaults :: "string \<Rightarrow> address_row list \<Rightarrow> address_row list" where
  "clear_defaults u rows =
     map (\<lambda>a. if a_user_id a = u then a\<lparr>a_is_default := False\<rparr> else a) rows"

text \<open>\<^verbatim>\<open>UPDATE addresses SET is_default = 0 WHERE user_id = ? AND id != ?\<close>\<close>

definition clear_other_defaults :: "env \<Rightarrow> string \<Rightarrow> js \<Rightarrow> address_row list \<Rightarrow> address_row list" where
  "clear_other_defaults env u idv rows =
     map (\<lambda>a. if a_user_id a = u \<and> sql_key env idv \<noteq> Some (a_id a)
               then a\<lparr>a_is_default := False\<rparr> else a) rows"

text \<open>The row the INSERT of POST and the UPDATE of PUT write from the request body.\<close>

definition write_address :: "address_body \<Rightarrow> address_row \<Rightarrow> address_row" where
  "write_address b a =
     a\<lparr>a_first_name := first_name b,
       a_last_name := last_name b,
       a_address_line_1 := address_line_1 b,
       a_address_line_2 := js_or (address_line_2 b) (JStr []),
       a_city := city b,
       a_state := js_or (state b) (JStr []),
       a_postal_code := js_or (postal_code b) (JStr []),
       a_country := js_or (country b) (JStr ''Philippines''),
       a_phone := js_or (phone b) (JStr []),
       a_is_default := truthy (is_default b)\<rparr>"

definition blank_address :: "nat \<Rightarrow> string \<Rightarrow> nat \<Rightarrow> address_row" where
  "blank_address i u t =
     \<lparr>a_id = i, a_user_id = u, a_first_name = JNull, a_last_name = JNull,
      a_address_line_1 = JNull, a_address_line_2 = JNull, a_city = JNull, a_state = JNull,
      a_postal_code = JNull, a_country = JNull, a_phone = JNull, a_is_default = False,
      a_created_at = t\<rparr>"

text \<open>GET: the caller's addresses, default first, then newest first.\<close>

definition addresses_GET :: "env \<Rightarrow> 'b request \<Rightarrow> db \<Rightarrow> response \<times> db" where
  "addresses_GET env request s =
     (case getUserFromToken env request of
        None \<Rightarrow> (unauthorized, s)
      | Some user \<Rightarrow>
          (Response 200 (JArr (map address_js
             (sort_key (\<lambda>a. if a_is_default a then (0::nat) else 1)
               (sort_key (\<lambda>a. - int (a_created_at a))
                 (filter (\<lambda>a. a_user_id a = uid user) (addresses s)))))), s))"

text \<open>POST: create an address.\<close>

definition addresses_POST :: "env \<Rightarrow> address_body request \<Rightarrow> db \<Rightarrow> response \<times> db" where
  "addresses_POST env request s =
     (case getUserFromToken env request of
        None \<Rightarrow> (unauthorized, s)
      | Some user \<Rightarrow>
          (case json_body request of
             None \<Rightarrow> (internal_server_error, s)
           | Some b \<Rightarrow>
               if missing_required b then (required_fields_error, s)
               else
                 let cleared = (if truthy (is_default b)
                                then clear_defaults (uid user) (addresses s) else addresses s);
                     insertId = next_address_id s;
                     row = write_address b (blank_address insertId (uid user) (now env));
                     s' = s\<lparr>addresses := cleared @ [row], next_address_id := Suc insertId\<rparr>
                 in (Response 201
                       (first_row (map address_js (filter (\<lambda>a. a_id a = insertId) (addresses s')))),
                     s')))"

text \<open>PUT: update an address of the caller.\<close>

definition owned_address :: "env \<Rightarrow> string \<Rightarrow> js \<Rightarrow> address_row \<Rightarrow> bool" where
  "owned_address env u idv a = (sql_key env idv = Some (a_id a) \<and> a_user_id a = u)"

definition addresses_PUT :: "env \<Rightarrow> address_body request \<Rightarrow> db \<Rightarrow> response \<times> db" where
  "addresses_PUT env request s =
     (case getUserFromToken env request of
        None \<Rightarrow> (unauthorized, s)
      | Some user \<Rightarrow>
          (case json_body request of
             None \<Rightarrow> (internal_server_error, s)
           | Some b \<Rightarrow>
               if falsy (body_id b) then (Response 400 (error_body ''Address ID is required''), s)
               else if missing_required b then (required_fields_error, s)
               else if filter (owned_address env (uid user) (body_id b)) (addresses s) = []
               then (Response 404 (error_body ''Address not found''), s)
               else
                 let cleared = (if truthy (is_default b)
                                then clear_other_defaults env (uid user) (body_id b) (addresses s)
                                else addresses s);
                     affectedRows = length (filter (owned_address env (uid user) (body_id b)) cleared);
                     s' = s\<lparr>addresses :=
                            map (\<lambda>a. if owned_address env (uid user) (body_id b) a
                                      then write_address b a else a) cleared\<rparr>
                 in if affectedRows = 0
                    then (Response 404 (error_body ''Address not found or unauthorized''), s')
                    else (Response 200
                            (first_row (map address_js
                               (filter (owned_address env (uid user) (body_id b)) (addresses s')))),
                          s')))"

text \<open>DELETE: remove an address of the caller.\<close>

definition addresses_DELETE :: "env \<Rightarrow> 'b request \<Rightarrow> db \<Rightarrow> response \<times> db" where
  "addresses_DELETE env request s =
     (case getUserFromToken env request of
        None \<Rightarrow> (unauthorized, s)
      | Some user \<Rightarrow>
          (case searchParams_id request of
             None \<Rightarrow> (Response 400 (error_body ''Address ID is required''), s)
           | Some addressId \<Rightarrow>
               if addressId = [] then (Response 400 (error_body ''Address ID is required''), s)
               else
                 let affectedRows =
                       length (filter (owned_address env (uid user) (JStr addressId)) (addresses s));
                     s' = s\<lparr>addresses :=
                            filter (\<lambda>a. \<not> owned_address env (uid user) (JStr addressId) a)
                              (addresses s)\<rparr>
                 in if affectedRows = 0
                    then (Response 404 (error_body ''Address not found or unauthorized''), s')
                    else (Response 200 (JObj [(''message'', JStr ''Address deleted successfully'')]),
                          s')))"

text \<open>The number of addresses of a user that are flagged as default.\<close>

definition default_count :: "string \<Rightarrow> db \<Rightarrow> nat" where
  "default_count u s = length (filter (\<lambda>a. a_user_id a = u \<and> a_is_default a) (addresses s))"

text \<open>
  The state of the addresses table that the handlers maintain: the ids are unique and
  below the next id to be assigned, and no user has more than one default address.
\<close>

definition address_invariant :: "db \<Rightarrow> bool" where
  "address_invariant s =
     (distinct (map a_id (addresses s)) \<and>
      list_all (\<lambda>a. a_id a < next_address_id s) (addresses s) \<and>
      list_all (\<lambda>a. default_count (a_user_id a) s \<le> 1) (addresses s))"

section \<open>Orders (src/unnamed/part_000 and src/app/api/orders/route.ts)\<close>

subsection \<open>What the handlers share\<close>

record order_body =
  user_id :: "string option"
  items :: "item list option"
  total :: js
  customer_email :: js
  shipping_address :: js
  payment_method :: js
  payment_screenshot :: js
  body_status :: js

text \<open>
  \<open>items = None\<close>: the field is absent, falsy or not an array. \<open>user_id\<close> is read by
  route.ts only, \<open>payment_screenshot\<close> by part_000 only.
\<close>

record status_body =
  new_status :: js
  tracking_number :: js

text \<open>\<^verbatim>\<open>Number(v)\<close>\<close>

fun Number :: "env \<Rightarrow> js \<Rightarrow> js" where
  "Number env (JNum n) = JNum n"
| "Number env JNaN = JNaN"
| "Number env JUndefined = JNaN"
| "Number env JNull = JNum 0"
| "Number env (JBool b) = JNum (if b then 1 else 0)"
| "Number env v = (case to_number env v of None \<Rightarrow> JNaN | Some n \<Rightarrow> JNum n)"

text \<open>
  \<^verbatim>\<open>`${v}`\<close>: a safe integer is rendered by its decimal digits, a larger one as the
  runtime renders it.
\<close>

fun String :: "env \<Rightarrow> js \<Rightarrow> string" where
  "String env (JNum n) =
     (if \<bar>n\<bar> < 2 ^ 53 then int_to_string n else number_to_string env n)"
| "String env (JStr s) = s"
| "String env JNaN = ''NaN''"
| "String env JUndefined = ''undefined''"
| "String env JNull = ''null''"
| "String env (JBool b) = (if b then ''true'' else ''false'')"
| "String env v = object_to_string env v"

text \<open>
  \<^verbatim>\<open>a < q\<close> with a number on the right: the left operand is converted to a number, and
  a comparison with NaN is false.
\<close>

definition js_lt_num :: "env \<Rightarrow> js \<Rightarrow> int \<Rightarrow> bool" where
  "js_lt_num env a q = (case Number env a of JNum n \<Rightarrow> n < q | _ \<Rightarrow> False)"

text \<open>
  \<^verbatim>\<open>try { variants = product.variants ? JSON.parse(product.variants) : {} }
  catch (e) { variants = {} }\<close>
\<close>

definition variants_of :: "env \<Rightarrow> product_row \<Rightarrow> js" where
  "variants_of env product =
     (case p_variants product of
        None \<Rightarrow> JObj []
      | Some text \<Rightarrow>
          if text = [] then JObj []
          else (case JSON_parse env text of None \<Rightarrow> JObj [] | Some v \<Rightarrow> v))"

text \<open>
  \<^verbatim>\<open>v[k]\<close> with a computed key: reading a property of undefined or null throws a
  TypeError (\<open>None\<close>); an object yields its own property \<open>k\<close> when it has one; every
  other read follows the prototype chain and is the runtime's.
\<close>

fun read_member :: "env \<Rightarrow> js \<Rightarrow> string \<Rightarrow> js option" where
  "read_member env JUndefined k = None"
| "read_member env JNull k = None"
| "read_member env (JObj kvs) k =
     (case map_of kvs k of None \<Rightarrow> runtime_get env (JObj kvs) k | Some v \<Rightarrow> Some v)"
| "read_member env v k = runtime_get env v k"

text \<open>\<^verbatim>\<open>v?.[k]\<close>: undefined when \<open>v\<close> is undefined or null, \<^verbatim>\<open>v[k]\<close> otherwise.\<close>

definition optional_member :: "env \<Rightarrow> js \<Rightarrow> string \<Rightarrow> js option" where
  "optional_member env v k =
     (if v = JUndefined \<or> v = JNull then Some JUndefined else read_member env v k)"

text \<open>
  \<^verbatim>\<open>variants[item.color]?.[item.size] || 0\<close>; \<open>None\<close> when a property read throws (the
  stored text is the JSON null, or the read ends in an accessor that throws).
\<close>

definition availableStock :: "env \<Rightarrow> product_row \<Rightarrow> item \<Rightarrow> js option" where
  "availableStock env product item =
     (case read_member env (variants_of env product) (i_color item) of
        None \<Rightarrow> None
      | Some byColor \<Rightarrow>
          (case optional_member env byColor (i_size item) of
             None \<Rightarrow> None
           | Some bySize \<Rightarrow> Some (js_or bySize (JNum 0))))"

text \<open>How a loop body ends: by a throw, by returning a response, or by going on.\<close>

datatype 'a step = Thrown | Returned response | Continue 'a

definition insufficient_stock :: "env \<Rightarrow> item \<Rightarrow> js \<Rightarrow> response" where
  "insufficient_stock env item available =
     Response 400 (JObj
       [(''error'', JStr ''Insufficient stock''),
        (''message'', JStr (''Only '' @ String env available @ '' items available for '' @
            i_product_name item @ '' ('' @ i_color item @ '', '' @ i_size item @ '')'')),
        (''product'', JStr (i_product_name item)),
        (''color'', JStr (i_color item)),
        (''size'', JStr (i_size item)),
        (''availableStock'', available),
        (''requestedQuantity'', JNum (i_quantity item))])"

definition product_not_found :: "item \<Rightarrow> response" where
  "product_not_found item =
     Response 400 (error_body (''Product not found: '' @ i_product_name item))"

text \<open>The stock check of one item: the body of the first loop.\<close>

definition check_item :: "env \<Rightarrow> db \<Rightarrow> item \<Rightarrow> unit step" where
  "check_item env s item =
     (case filter (\<lambda>p. p_id p = i_product_id item) (products s) of
        [] \<Rightarrow> Returned (product_not_found item)
      | product # _ \<Rightarrow>
          (case availableStock env product item of
             None \<Rightarrow> Thrown
           | Some available \<Rightarrow>
               if js_lt_num env available (i_quantity item)
               then Returned (insufficient_stock env item available)
               else Continue ()))"

text \<open>\<^verbatim>\<open>for (const item of items)\<close>, first loop: validate stock for all items.\<close>

fun validate_stock :: "env \<Rightarrow> item list \<Rightarrow> db \<Rightarrow> unit step \<times> db" where
  "validate_stock env [] s = (Continue (), s)"
| "validate_stock env (item # rest) s =
     (case check_item env s item of
        Thrown \<Rightarrow> (Thrown, s)
      | Returned r \<Rightarrow> (Returned r, s)
      | Continue u \<Rightarrow> validate_stock env rest (s\<lparr>events := events s @ [StockValidated item]\<rparr>))"

text \<open>The call that reduces the stock of one item.\<close>

definition forwarded_authorization :: "'b request \<Rightarrow> string" where
  "forwarded_authorization request =
     (case authorization request of None \<Rightarrow> [] | Some h \<Rightarrow> h)"

definition call_for :: "string \<Rightarrow> item \<Rightarrow> stock_call" where
  "call_for auth item =
     \<lparr>sc_product_id = i_product_id item, sc_authorization = auth,
      sc_color = i_color item, sc_size = i_size item, sc_quantity = i_quantity item\<rparr>"

definition stock_update_failed :: "item \<Rightarrow> js \<Rightarrow> response" where
  "stock_update_failed item message =
     Response 400 (JObj
       [(''error'', JStr ''Stock update failed''),
        (''message'', js_or message (JStr (''Failed to update stock for '' @ i_product_name item))),
        (''product'', JStr (i_product_name item))])"

text \<open>\<^verbatim>\<open>for (const item of items)\<close>, second loop: reduce stock for all items.\<close>

fun reduce_stock :: "env \<Rightarrow> string \<Rightarrow> item list \<Rightarrow> db \<Rightarrow> unit step \<times> db" where
  "reduce_stock env auth [] s = (Continue (), s)"
| "reduce_stock env auth (item # rest) s =
     (case stock_PUT env (call_for auth item) (products s) of
        (reply, products') \<Rightarrow>
          (let s' = s\<lparr>products := products', events := events s @ [StockAdjust (call_for auth item)]\<rparr>
           in if reply_ok reply then reduce_stock env auth rest s'
              else (case reply_message reply of
                      None \<Rightarrow> (Thrown, s')
                    | Some message \<Rightarrow> (Returned (stock_update_failed item message), s'))))"

text \<open>\<^verbatim>\<open>item.size || null\<close>\<close>

definition or_null :: "string \<Rightarrow> string option" where
  "or_null x = (if x = [] then None else Some x)"

text \<open>\<^verbatim>\<open>for (const item of items)\<close>, third loop: insert the order items.\<close>

fun insert_items :: "nat \<Rightarrow> item list \<Rightarrow> db \<Rightarrow> db" where
  "insert_items orderId [] s = s"
| "insert_items orderId (item # rest) s =
     insert_items orderId rest
       (s\<lparr>order_items := order_items s @
             [\<lparr>oi_id = next_item_id s, oi_order_id = orderId,
               oi_product_id = i_product_id item, oi_quantity = i_quantity item,
               oi_size = or_null (i_size item), oi_color = or_null (i_color item),
               oi_price = i_price item\<rparr>],
          next_item_id := Suc (next_item_id s)\<rparr>)"

text \<open>Rows as the driver returns them for \<^verbatim>\<open>SELECT *\<close>.\<close>

definition text_js :: "string option \<Rightarrow> js" where
  "text_js x = (case x of None \<Rightarrow> JNull | Some t \<Rightarrow> JStr t)"

definition order_fields :: "env \<Rightarrow> order_row \<Rightarrow> (string \<times> js) list" where
  "order_fields env order =
     [(''id'', JNum (int (o_id order))),
      (''user_id'', text_js (o_user_id order)),
      (''order_number'', JStr (o_order_number order)),
      (''status'', o_status order),
      (''payment_status'', o_payment_status order),
      (''payment_method'', o_payment_method order),
      (''payment_screenshot'', o_payment_screenshot order),
      (''subtotal'', db_decimal env (o_subtotal order)),
      (''tax_amount'', db_decimal env (o_tax_amount order)),
      (''shipping_amount'', db_decimal env (o_shipping_amount order)),
      (''discount_amount'', db_decimal env (o_discount_amount order)),
      (''total_amount'', db_decimal env (o_total_amount order)),
      (''shipping_address'', text_js (o_shipping_address order)),
      (''billing_address'', o_billing_address order),
      (''notes'', o_notes order),
      (''tracking_number'', o_tracking_number order),
      (''created_at'', JNum (int (o_created_at order))),
      (''updated_at'', JNum (int (o_updated_at order)))]"

definition order_item_fields :: "env \<Rightarrow> order_item_row \<Rightarrow> (string \<times> js) list" where
  "order_item_fields env r =
     [(''id'', JNum (int (oi_id r))),
      (''order_id'', JNum (int (oi_order_id r))),
      (''product_id'', JNum (int (oi_product_id r))),
      (''quantity'', db_int env (JNum (oi_quantity r))),
      (''size'', text_js (oi_size r)),
      (''color'', text_js (oi_color r)),
      (''price'', db_decimal env (JNum (oi_price r)))]"

text \<open>
  \<^verbatim>\<open>order.shipping_address ? JSON.parse(order.shipping_address) : null\<close>; \<open>None\<close>
  when the parse throws.
\<close>

definition parse_shipping :: "env \<Rightarrow> string option \<Rightarrow> js option" where
  "parse_shipping env stored =
     (case stored of
        None \<Rightarrow> Some JNull
      | Some t \<Rightarrow> if t = [] then Some JNull else JSON_parse env t)"

text \<open>Fetch the created order with its items and answer 201.\<close>

definition fetch_created :: "env \<Rightarrow> nat \<Rightarrow> db \<Rightarrow> response" where
  "fetch_created env orderId s =
     (case filter (\<lambda>row. o_id row = orderId) (orders s) of
        [] \<Rightarrow> internal_server_error
      | order # _ \<Rightarrow>
          (case parse_shipping env (o_shipping_address order) of
             None \<Rightarrow> internal_server_error
           | Some address \<Rightarrow>
               Response 201 (JObj
                 (spread_set ''items''
                    (JArr (map (\<lambda>r. JObj (order_item_fields env r))
                       (filter (\<lambda>r. oi_order_id r = orderId) (order_items s))))
                    (spread_set ''shipping_address'' address (order_fields env order))))))"

text \<open>
  From the stock validation to the response: the part of POST that the two files share.
  \<open>row\<close> holds the columns of the INSERT; the database assigns the id.
\<close>

definition place_order :: "env \<Rightarrow> string \<Rightarrow> order_row \<Rightarrow> item list \<Rightarrow> db \<Rightarrow> response \<times> db" where
  "place_order env auth row its s =
     (case validate_stock env its s of
        (Thrown, s1) \<Rightarrow> (internal_server_error, s1)
      | (Returned r, s1) \<Rightarrow> (r, s1)
      | (Continue u, s1) \<Rightarrow>
          (case reduce_stock env auth its s1 of
             (Thrown, s2) \<Rightarrow> (internal_server_error, s2)
           | (Returned r, s2) \<Rightarrow> (r, s2)
           | (Continue u, s2) \<Rightarrow>
               (let orderId = next_order_id s2;
                    s3 = s2\<lparr>orders := orders s2 @ [row\<lparr>o_id := orderId\<rparr>],
                             next_order_id := Suc orderId\<rparr>;
                    s4 = insert_items orderId its s3
                in (fetch_created env orderId s4, s4))))"

text \<open>\<^verbatim>\<open>status = 'pending'\<close> in the destructuring: the default of an undefined field.\<close>

definition destructured_status :: "order_body \<Rightarrow> js" where
  "destructured_status b = (if body_status b = JUndefined then JStr ''pending'' else body_status b)"

text \<open>The columns both INSERT statements set.\<close>

definition order_columns :: "env \<Rightarrow> string option \<Rightarrow> order_body \<Rightarrow> order_row" where
  "order_columns env owner b =
     (order_defaults env)
       \<lparr>o_user_id := owner,
        o_order_number := ''GK'' @ nat_to_string (now env),
        o_status := js_or (destructured_status b) (JStr ''pending''),
        o_payment_method := js_or (payment_method b) JNull,
        o_total_amount := js_or (total b) (JNum 0),
        o_shipping_address := Some (JSON_stringify env (js_or (shipping_address b) (JObj [])))\<rparr>"

definition items_required :: response where
  "items_required = Response 400 (error_body ''Order items are required'')"

definition total_and_email_required :: response where
  "total_and_email_required =
     Response 400 (error_body ''Total amount and customer email are required'')"

subsection \<open>src/unnamed/part_000\<close>

text \<open>POST: create an order for the caller of the token.\<close>

definition orders_POST :: "env \<Rightarrow> order_body request \<Rightarrow> db \<Rightarrow> response \<times> db" where
  "orders_POST env request s =
     (case getUserFromToken env request of
        None \<Rightarrow> (unauthorized, s)
      | Some user \<Rightarrow>
          (case json_body request of
             None \<Rightarrow> (internal_server_error, s)
           | Some b \<Rightarrow>
               (case items b of
                  None \<Rightarrow> (items_required, s)
                | Some its \<Rightarrow>
                    if its = [] then (items_required, s)
                    else if falsy (total b) \<or> falsy (customer_email b)
                    then (total_and_email_required, s)
                    else place_order env (forwarded_authorization request)
                           ((order_columns env (Some (uid user)) b)
                              \<lparr>o_payment_screenshot := js_or (payment_screenshot b) JNull\<rparr>)
                           its s)))"

text \<open>GET: the caller's orders, newest first, each with its items.\<close>

definition joined_item_fields :: "env \<Rightarrow> order_item_row \<Rightarrow> product_row \<Rightarrow> (string \<times> js) list" where
  "joined_item_fields env r p =
     [(''id'', JNum (int (oi_id r))),
      (''quantity'', db_int env (JNum (oi_quantity r))),
      (''price'', db_decimal env (JNum (oi_price r))),
      (''size'', text_js (oi_size r)),
      (''color'', text_js (oi_color r)),
      (''name'', p_name p),
      (''brand'', p_brand p),
      (''image_url'', p_image_url p)]"

definition processed_item :: "env \<Rightarrow> (string \<times> js) list \<Rightarrow> js" where
  "processed_item env item =
     JObj (spread_set ''price'' (Number env (opt_prop (JObj item) ''price''))
            (spread_set ''quantity'' (Number env (opt_prop (JObj item) ''quantity'')) item))"

definition listed_fields :: "env \<Rightarrow> order_row \<Rightarrow> (string \<times> js) list" where
  "listed_fields env order =
     [(''id'', JNum (int (o_id order))),
      (''order_number'', JStr (o_order_number order)),
      (''status'', o_status order),
      (''payment_status'', o_payment_status order),
      (''payment_method'', o_payment_method order),
      (''subtotal'', db_decimal env (o_subtotal order)),
      (''tax_amount'', db_decimal env (o_tax_amount order)),
      (''shipping_amount'', db_decimal env (o_shipping_amount order)),
      (''discount_amount'', db_decimal env (o_discount_amount order)),
      (''total'', db_decimal env (o_total_amount order)),
      (''shipping_address'', text_js (o_shipping_address order)),
      (''billing_address'', o_billing_address order),
      (''notes'', o_notes order),
      (''created_at'', JNum (int (o_created_at order))),
      (''updated_at'', JNum (int (o_updated_at order)))]"

definition number_field :: "env \<Rightarrow> string \<Rightarrow> (string \<times> js) list \<Rightarrow> (string \<times> js) list" where
  "number_field env k kvs = spread_set k (Number env (opt_prop (JObj kvs) k)) kvs"

definition order_with_items :: "env \<Rightarrow> db \<Rightarrow> order_row \<Rightarrow> js option" where
  "order_with_items env s order =
     (case parse_shipping env (o_shipping_address order) of
        None \<Rightarrow> None
      | Some address \<Rightarrow>
          Some (JObj
            (spread_set ''items''
               (JArr (map (processed_item env)
                  (concat (map (\<lambda>r. map (joined_item_fields env r)
                                        (filter (\<lambda>p. p_id p = oi_product_id r) (products s)))
                     (filter (\<lambda>r. oi_order_id r = o_id order) (order_items s))))))
               (spread_set ''shipping_address'' address
                  (number_field env ''total''
                     (number_field env ''discount_amount''
                        (number_field env ''shipping_amount''
                           (number_field env ''tax_amount''
                              (number_field env ''subtotal'' (listed_fields env order))))))))))"

definition orders_of :: "string \<Rightarrow> db \<Rightarrow> order_row list" where
  "orders_of u s =
     sort_key (\<lambda>row. - int (o_created_at row)) (filter (\<lambda>row. o_user_id row = Some u) (orders s))"

definition orders_GET :: "env \<Rightarrow> 'b request \<Rightarrow> db \<Rightarrow> response \<times> db" where
  "orders_GET env request s =
     (case getUserFromToken env request of
        None \<Rightarrow> (unauthorized, s)
      | Some user \<Rightarrow>
          (case those (map (order_with_items env s) (orders_of (uid user) s)) of
             None \<Rightarrow> (internal_server_error, s)
           | Some ordersWithItems \<Rightarrow> (Response 200 (JArr ordersWithItems), s)))"

text \<open>
  PUT: update the status of an order of the caller (the same in both files). The orders
  table has no \<^verbatim>\<open>items\<close> column, so \<^verbatim>\<open>order.items ? JSON.parse(order.items) : []\<close> is
  the empty array.
\<close>

definition owned_order :: "env \<Rightarrow> string \<Rightarrow> string \<Rightarrow> order_row \<Rightarrow> bool" where
  "owned_order env u i order = (sql_key env (JStr i) = Some (o_id order) \<and> o_user_id order = Some u)"

definition set_status :: "env \<Rightarrow> status_body \<Rightarrow> order_row \<Rightarrow> order_row" where
  "set_status env b order =
     order\<lparr>o_status := new_status b,
           o_tracking_number := js_or (tracking_number b) JNull,
           o_updated_at := now env\<rparr>"

definition orders_PUT :: "env \<Rightarrow> status_body request \<Rightarrow> db \<Rightarrow> response \<times> db" where
  "orders_PUT env request s =
     (case getUserFromToken env request of
        None \<Rightarrow> (unauthorized, s)
      | Some user \<Rightarrow>
          (case searchParams_id request of
             None \<Rightarrow> (Response 400 (error_body ''Order ID is required''), s)
           | Some i \<Rightarrow>
               if i = [] then (Response 400 (error_body ''Order ID is required''), s)
               else
                 (case json_body request of
                    None \<Rightarrow> (internal_server_error, s)
                  | Some b \<Rightarrow>
                      if falsy (new_status b)
                      then (Response 400 (error_body ''Status is required''), s)
                      else
                        (let affectedRows = length (filter (owned_order env (uid user) i) (orders s));
                             s' = s\<lparr>orders := map (\<lambda>order. if owned_order env (uid user) i order
                                                       then set_status env b order else order)
                                                  (orders s)\<rparr>
                         in if affectedRows = 0
                            then (Response 404 (error_body ''Order not found or unauthorized''), s')
                            else
                              (case filter (owned_order env (uid user) i) (orders s') of
                                 [] \<Rightarrow> (Response 404 (error_body ''Order not found''), s')
                               | order # _ \<Rightarrow>
                                   (case parse_shipping env (o_shipping_address order) of
                                      None \<Rightarrow> (internal_server_error, s')
                                    | Some address \<Rightarrow>
                                        (Response 200 (JObj
                                           (spread_set ''items'' (JArr [])
                                              (spread_set ''shipping_address'' address
                                                 (order_fields env order)))),
                                         s')))))))"

subsection \<open>src/app/api/orders/route.ts\<close>

text \<open>
  POST: no token is read; the owner of the order is the \<^verbatim>\<open>user_id\<close> of the body
  (\<^verbatim>\<open>user_id || null\<close>), and no payment screenshot is stored.
\<close>

definition orders_POST_route_ts :: "env \<Rightarrow> order_body request \<Rightarrow> db \<Rightarrow> response \<times> db" where
  "orders_POST_route_ts env request s =
     (case json_body request of
        None \<Rightarrow> (internal_server_error, s)
      | Some b \<Rightarrow>
          (case items b of
             None \<Rightarrow> (items_required, s)
           | Some its \<Rightarrow>
               if its = [] then (items_required, s)
               else if falsy (total b) \<or> falsy (customer_email b)
               then (total_and_email_required, s)
               else place_order env (forwarded_authorization request)
                      (order_columns env (case user_id b of None \<Rightarrow> None | Some u \<Rightarrow> or_null u) b)
                      its s))"

text \<open>GET: the caller's orders as stored, newest first.\<close>

definition orders_GET_route_ts :: "env \<Rightarrow> 'b request \<Rightarrow> db \<Rightarrow> response \<times> db" where
  "orders_GET_route_ts env request s =
     (case getUserFromToken env request of
        None \<Rightarrow> (unauthorized, s)
      | Some user \<Rightarrow>
          (Response 200 (JArr (map (\<lambda>order. JObj (order_fields env order)) (orders_of (uid user) s))), s))"

section \<open>A concrete environment and database for the examples\<close>

text \<open>
  The token library accepts two tokens; the JSON codec knows the texts of the examples
  and rejects every other text; the amounts of the examples convert from text to number,
  and no other string, object or function does; MySQL compares a number parameter with a
  key by value; the driver returns a DECIMAL column as the decimal text of the number and
  an INT column as a number; the stock endpoint takes the quantity off the product's stock
  quantity, and refuses with a message when the product has fewer units.

  The property reads that go past the own properties: an object inherits the properties
  of \<^verbatim>\<open>Object.prototype\<close>, which are \<^verbatim>\<open>constructor\<close> (the function \<^verbatim>\<open>Object\<close>),
  \<^verbatim>\<open>__proto__\<close> (the prototype itself) and ten methods, and any other name reads as
  undefined. Of the built-ins, the examples read the function \<^verbatim>\<open>Object\<close>, whose
  \<^verbatim>\<open>name\<close> is the string "Object" and whose \<^verbatim>\<open>length\<close> is 1; the other reads of
  built-ins, strings, arrays and numbers are left out here and give undefined. The one
  integer outside the safe range is \<^verbatim>\<open>1e21\<close>.
\<close>

definition object_prototype_methods :: "string list" where
  "object_prototype_methods =
     [''hasOwnProperty'', ''isPrototypeOf'', ''propertyIsEnumerable'', ''toLocaleString'',
      ''toString'', ''valueOf'', ''__defineGetter__'', ''__defineSetter__'',
      ''__lookupGetter__'', ''__lookupSetter__'']"

definition example_runtime_get :: "js \<Rightarrow> string \<Rightarrow> js option" where
  "example_runtime_get v k =
     (case v of
        JObj kvs \<Rightarrow>
          if k = ''constructor'' then Some (JBuiltin ''Object'')
          else if k = ''__proto__'' then Some (JBuiltin ''Object.prototype'')
          else if List.member object_prototype_methods k
          then Some (JBuiltin (''Object.prototype.'' @ k))
          else Some JUndefined
      | JBuiltin b \<Rightarrow>
          if b = ''Object'' \<and> k = ''name'' then Some (JStr ''Object'')
          else if b = ''Object'' \<and> k = ''length'' then Some (JNum 1)
          else Some JUndefined
      | _ \<Rightarrow> Some JUndefined)"

definition example_defaults :: order_row where
  "example_defaults =
     \<lparr>o_id = 0, o_user_id = None, o_order_number = [], o_status = JStr ''pending'',
      o_payment_status = JStr ''pending'', o_payment_method = JNull,
      o_payment_screenshot = JNull, o_subtotal = JNum 0, o_tax_amount = JNum 0,
      o_shipping_amount = JNum 0, o_discount_amount = JNum 0, o_total_amount = JNum 0,
      o_shipping_address = None, o_billing_address = JNull, o_notes = JNull,
      o_tracking_number = JNull, o_created_at = 1700000000000, o_updated_at = 1700000000000\<rparr>"

definition example_env :: env where
  \<open>example_env =
     \<lparr>jwt_verify = (\<lambda>token.
         if token = ''alice-token'' then Some \<lparr>userId = ''alice'', email = ''a@b.com''\<rparr>
         else if token = ''bob-token'' then Some \<lparr>userId = ''bob'', email = ''b@b.com''\<rparr>
         else None),
      JSON_parse = (\<lambda>t.
         if t = ''{"red":{"M":5}}'' then Some (JObj [(''red'', JObj [(''M'', JNum 5)])])
         else if t = ''{"city":"Manila"}'' then Some (JObj [(''city'', JStr ''Manila'')])
         else if t = ''{}'' then Some (JObj [])
         else None),
      JSON_stringify = (\<lambda>v.
         if v = JObj [(''city'', JStr ''Manila'')] then ''{"city":"Manila"}'' else ''{}''),
      to_number = (\<lambda>v.
         if v = JStr ''1000.00'' then Some 1000 else if v = JStr ''500.00'' then Some 500
         else if v = JStr ''0.00'' then Some 0 else None),
      object_to_string = (\<lambda>v. ''[object Object]''),
      number_to_string = (\<lambda>n. ''1e+21''),
      runtime_get = example_runtime_get,
      sql_key = (\<lambda>v. case v of
           JNum n \<Rightarrow> if 0 \<le> n then Some (nat n) else None
         | JStr t \<Rightarrow> if t = ''1'' then Some 1 else if t = ''2'' then Some 2
                     else if t = ''3'' then Some 3 else None
         | _ \<Rightarrow> None),
      db_decimal = (\<lambda>v. case v of JNum n \<Rightarrow> JStr (int_to_string n @ ''.00'') | _ \<Rightarrow> v),
      db_int = (\<lambda>v. v),
      stock_PUT = (\<lambda>c ps.
         if list_ex (\<lambda>p. p_id p = sc_product_id c \<and> sc_quantity c \<le> p_stock_quantity p) ps
         then (\<lparr>reply_ok = True, reply_message = None\<rparr>,
               map (\<lambda>p. if p_id p = sc_product_id c
                         then p\<lparr>p_stock_quantity := p_stock_quantity p - sc_quantity c\<rparr> else p) ps)
         else (\<lparr>reply_ok = False, reply_message = Some (JStr ''Insufficient stock'')\<rparr>, ps)),
      order_defaults = example_defaults,
      now = 1700000000000\<rparr>\<close>

definition example_address :: "nat \<Rightarrow> string \<Rightarrow> bool \<Rightarrow> address_row" where
  "example_address i u d = (blank_address i u 0)\<lparr>a_is_default := d\<rparr>"

text \<open>Two users; the first has two addresses flagged as default.\<close>

definition example_addresses :: db where
  "example_addresses =
     \<lparr>products = [], orders = [], order_items = [],
      addresses = [example_address 1 ''alice'' True, example_address 2 ''alice'' True,
                   example_address 3 ''bob'' True],
      next_order_id = 1, next_item_id = 1, next_address_id = 4, events = []\<rparr>"

definition example_address_body :: address_body where
  "example_address_body =
     \<lparr>body_id = JNum 2, address_line_1 = JStr ''1 Rizal St'', address_line_2 = JUndefined,
      city = JStr ''Manila'', state = JUndefined, postal_code = JUndefined,
      country = JUndefined, first_name = JStr ''Ana'', last_name = JStr ''Cruz'',
      phone = JUndefined, is_default = JBool True\<rparr>"

definition example_address_request :: "address_body request" where
  "example_address_request =
     \<lparr>authorization = Some ''Bearer alice-token'', searchParams_id = None,
      json_body = Some example_address_body\<rparr>"

text \<open>The first user with one default address, and an update that passes no flag.\<close>

definition example_addresses_one_default :: db where
  "example_addresses_one_default =
     \<lparr>products = [], orders = [], order_items = [],
      addresses = [example_address 1 ''alice'' False, example_address 2 ''alice'' True,
                   example_address 3 ''bob'' True],
      next_order_id = 1, next_item_id = 1, next_address_id = 4, events = []\<rparr>"

definition example_address_request_no_flag :: "address_body request" where
  "example_address_request_no_flag =
     \<lparr>authorization = Some ''Bearer alice-token'', searchParams_id = None,
      json_body = Some (example_address_body\<lparr>is_default := JUndefined\<rparr>)\<rparr>"

text \<open>A shop with one product (five units of red/M), and the order of the specification's example.\<close>

definition example_item :: item where
  "example_item =
     \<lparr>i_product_id = 1, i_product_name = ''Runner'', i_color = ''red'', i_size = ''M'',
      i_quantity = 2, i_price = 500\<rparr>"

definition example_order_body :: order_body where
  "example_order_body =
     \<lparr>user_id = None, items = Some [example_item], total = JNum 1000,
      customer_email = JStr ''a@b.com'',
      shipping_address = JObj [(''city'', JStr ''Manila'')],
      payment_method = JStr ''gcash'', payment_screenshot = JUndefined,
      body_status = JUndefined\<rparr>"

definition example_order_request :: "order_body \<Rightarrow> order_body request" where
  "example_order_request b =
     \<lparr>authorization = Some ''Bearer alice-token'', searchParams_id = None, json_body = Some b\<rparr>"

definition example_product :: product_row where
  \<open>example_product =
     \<lparr>p_id = 1, p_name = JStr ''Runner'', p_brand = JStr ''GKicks'', p_image_url = JNull,
      p_variants = Some ''{"red":{"M":5}}'', p_stock_quantity = 5\<rparr>\<close>

definition example_shop :: db where
  "example_shop =
     \<lparr>products = [example_product], orders = [], order_items = [], addresses = [],
      next_order_id = 1, next_item_id = 1, next_address_id = 1, events = []\<rparr>"

text \<open>The same shop after the first user has placed an order, and a status update of it.\<close>

definition example_order :: order_row where
  \<open>example_order =
     example_defaults
       \<lparr>o_id := 1, o_user_id := Some ''alice'', o_order_number := ''GK1699999999999'',
        o_total_amount := JNum 1000, o_shipping_address := Some ''{"city":"Manila"}''\<rparr>\<close>

definition example_orders :: db where
  "example_orders =
     \<lparr>products = [example_product], orders = [example_order],
      order_items = [\<lparr>oi_id = 1, oi_order_id = 1, oi_product_id = 1, oi_quantity = 2,
                       oi_size = Some ''M'', oi_color = Some ''red'', oi_price = 500\<rparr>],
      addresses = [], next_order_id = 2, next_item_id = 2, next_address_id = 1, events = []\<rparr>"

definition example_status_request :: "string \<Rightarrow> status_body request" where
  "example_status_request token =
     \<lparr>authorization = Some (''Bearer '' @ token), searchParams_id = Some ''1'',
      json_body = Some \<lparr>new_status = JStr ''shipped'', tracking_number = JUndefined\<rparr>\<rparr>"

text \<open>
  An order of a given quantity, an item whose colour and size are names of properties
  that objects inherit, and the shop with a product whose stored variants are cut short.
\<close>

definition example_order_of :: "int \<Rightarrow> order_body" where
  "example_order_of q = example_order_body\<lparr>items := Some [example_item\<lparr>i_quantity := q\<rparr>]\<rparr>"

definition example_item_inherited :: item where
  "example_item_inherited = example_item\<lparr>i_color := ''constructor'', i_size := ''name''\<rparr>"

definition example_shop_corrupt :: db where
  \<open>example_shop_corrupt =
     example_shop\<lparr>products := [example_product\<lparr>p_variants := Some ''{"red":''\<rparr>]\<rparr>\<close>

text \<open>
  The products table after a sequence of calls of the stock-adjustment endpoint, and the
  replies to them, each call made on the table the previous one left.
\<close>

fun after_calls :: "env \<Rightarrow> stock_call list \<Rightarrow> product_row list \<Rightarrow> product_row list" where
  "after_calls env [] ps = ps"
| "after_calls env (c # cs) ps = after_calls env cs (snd (stock_PUT env c ps))"

fun stock_replies :: "env \<Rightarrow> stock_call list \<Rightarrow> product_row list \<Rightarrow> stock_reply list" where
  "stock_replies env [] ps = []"
| "stock_replies env (c # cs) ps =
     fst (stock_PUT env c ps) # stock_replies env cs (snd (stock_PUT env c ps))"

text \<open>
  An order of two items of the same product, and two stock endpoints that refuse every
  call: one with a body that is not JSON, one with a body without a message.
\<close>

definition example_env_unreadable_reply :: env where
  "example_env_unreadable_reply =
     example_env\<lparr>stock_PUT := (\<lambda>c ps. (\<lparr>reply_ok = False, reply_message = None\<rparr>, ps))\<rparr>"

definition example_env_silent_reply :: env where
  "example_env_silent_reply =
     example_env\<lparr>stock_PUT := (\<lambda>c ps. (\<lparr>reply_ok = False, reply_message = Some JUndefined\<rparr>, ps))\<rparr>"

definition example_order_two_items :: order_body where
  "example_order_two_items =
     example_order_body\<lparr>items := Some [example_item\<lparr>i_quantity := 2\<rparr>,
                                         example_item\<lparr>i_quantity := 4\<rparr>]\<rparr>"

text \<open>The rows the third loop inserts for an order, numbered from a given id.\<close>

fun new_item_rows :: "nat \<Rightarrow> nat \<Rightarrow> item list \<Rightarrow> order_item_row list" where
  "new_item_rows orderId k [] = []"
| "new_item_rows orderId k (item # rest) =
     \<lparr>oi_id = k, oi_order_id = orderId,
      oi_product_id = i_product_id item, oi_quantity = i_quantity item,
      oi_size = or_null (i_size item), oi_color = or_null (i_color item),
      oi_price = i_price item\<rparr> # new_item_rows orderId (Suc k) rest"

text \<open>The database after a POST that went through both loops.\<close>

definition order_placed :: "env \<Rightarrow> string \<Rightarrow> order_row \<Rightarrow> item list \<Rightarrow> db \<Rightarrow> db" where
  "order_placed env auth row its s =
     s\<lparr>products := after_calls env (map (call_for auth) its) (products s),
       events := events s @ map StockValidated its @ map (\<lambda>it. StockAdjust (call_for auth it)) its,
       orders := orders s @ [row\<lparr>o_id := next_order_id s\<rparr>],
       next_order_id := Suc (next_order_id s),
       order_items := order_items s @ new_item_rows (next_order_id s) (next_item_id s) its,
       next_item_id := next_item_id s + length its\<rparr>"

text \<open>A request without any Authorization header that names the first user as the owner.\<close>

definition example_request_without_token :: "order_body request" where
  "example_request_without_token =
     \<lparr>authorization = None, searchParams_id = None,
      json_body = Some (example_order_body\<lparr>user_id := Some ''alice''\<rparr>)\<rparr>"

text \<open>
  A header that carries no valid bearer credential: absent, without the prefix
  \<^verbatim>\<open>Bearer \<close> (the empty header included), or with a token that verification rejects.
\<close>

definition rejected_credential :: "env \<Rightarrow> string option \<Rightarrow> bool" where
  "rejected_credential env header =
     (case header of
        None \<Rightarrow> True
      | Some h \<Rightarrow> if take 7 h = ''Bearer '' then jwt_verify env (drop 7 h) = None else True)"

text \<open>The first user asks to delete address 3, which is the second user's.\<close>

definition example_delete_request :: "address_body request" where
  "example_delete_request =
     \<lparr>authorization = Some ''Bearer alice-token'', searchParams_id = Some ''3'', json_body = None\<rparr>"

section \<open>Properties\<close>

subsection \<open>Auxiliary facts\<close>

lemma statuses [simp]:
  "status unauthorized = 401"
  "status internal_server_error = 500"
  "status required_fields_error = 400"
  "status items_required = 400"
  "status total_and_email_required = 400"
  by (simp_all add: unauthorized_def internal_server_error_def required_fields_error_def
        items_required_def total_and_email_required_def)

lemma write_address_sel [simp]:
  "a_id (write_address b a) = a_id a"
  "a_user_id (write_address b a) = a_user_id a"
  "a_is_default (write_address b a) = truthy (is_default b)"
  "a_created_at (write_address b a) = a_created_at a"
  by (simp_all add: write_address_def)

lemma owned_address_write [simp]:
  "owned_address env u idv (write_address b a) = owned_address env u idv a"
  by (simp add: owned_address_def)

lemma owned_address_flag [simp]:
  "owned_address env u idv (a\<lparr>a_is_default := d\<rparr>) = owned_address env u idv a"
  by (simp add: owned_address_def)

lemma cleared_no_default:
  "filter (\<lambda>a. a_user_id a = u \<and> a_is_default a) (clear_defaults u rows) = []"
  by (induction rows) (simp_all add: clear_defaults_def)

lemma default_count_update:
  "truthy (is_default b) \<Longrightarrow>
   length (filter (\<lambda>a. a_user_id a = u \<and> a_is_default a)
      (map (\<lambda>a. if owned_address env u idv a then write_address b a else a)
         (clear_other_defaults env u idv rows)))
   = length (filter (owned_address env u idv) rows)"
proof (induction rows)
  case Nil
  then show ?case by (simp add: clear_other_defaults_def)
next
  case (Cons a rows)
  have step: "clear_other_defaults env u idv (a # rows) =
      (if a_user_id a = u \<and> sql_key env idv \<noteq> Some (a_id a)
       then a\<lparr>a_is_default := False\<rparr> else a) # clear_other_defaults env u idv rows"
    by (simp add: clear_other_defaults_def)
  show ?case
  proof (cases "owned_address env u idv a")
    case True
    then have "a_user_id a = u" "sql_key env idv = Some (a_id a)"
      by (simp_all add: owned_address_def)
    with True Cons show ?thesis by (simp add: step del: filter_map)
  next
    case False
    then have "a_user_id a = u \<Longrightarrow> sql_key env idv \<noteq> Some (a_id a)"
      by (simp add: owned_address_def)
    with False Cons show ?thesis by (simp add: step del: filter_map)
  qed
qed

text \<open>The key column is unique, so at most one row is the caller's row of a given id.\<close>

lemma owned_le_one:
  "distinct (map a_id rows) \<Longrightarrow> length (filter (owned_address env u idv) rows) \<le> 1"
proof (induction rows)
  case Nil
  then show ?case by simp
next
  case (Cons a rows)
  show ?case
  proof (cases "owned_address env u idv a")
    case True
    then have "sql_key env idv = Some (a_id a)" by (simp add: owned_address_def)
    moreover from Cons.prems have "a_id a \<notin> a_id ` set rows" by simp
    ultimately have "filter (owned_address env u idv) rows = []"
      by (auto simp: filter_empty_conv owned_address_def)
    with True show ?thesis by simp
  next
    case False
    with Cons show ?thesis by simp
  qed
qed

text \<open>What a POST that answers 201 has written.\<close>

lemma addresses_POST_created:
  assumes "getUserFromToken env request = Some user"
      and "json_body request = Some b"
      and "status (fst (addresses_POST env request s)) = 201"
  shows "snd (addresses_POST env request s) =
      s\<lparr>addresses := (if truthy (is_default b) then clear_defaults (uid user) (addresses s)
                       else addresses s) @
            [write_address b (blank_address (next_address_id s) (uid user) (now env))],
        next_address_id := Suc (next_address_id s)\<rparr>"
proof (cases "missing_required b")
  case True
  with assms show ?thesis by (simp add: addresses_POST_def)
next
  case False
  with assms(1,2) show ?thesis by (simp add: addresses_POST_def Let_def)
qed

text \<open>What a PUT that answers 200 has passed and written.\<close>

lemma addresses_PUT_updated:
  assumes "getUserFromToken env request = Some user"
      and "json_body request = Some b"
      and "status (fst (addresses_PUT env request s)) = 200"
  shows "filter (owned_address env (uid user) (body_id b)) (addresses s) \<noteq> [] \<and>
    snd (addresses_PUT env request s) =
      s\<lparr>addresses := map (\<lambda>a. if owned_address env (uid user) (body_id b) a
                                then write_address b a else a)
           (if truthy (is_default b)
            then clear_other_defaults env (uid user) (body_id b) (addresses s)
            else addresses s)\<rparr>"
proof -
  have 1: "\<not> falsy (body_id b)"
    using assms by (cases "falsy (body_id b)") (simp_all add: addresses_PUT_def)
  have 2: "\<not> missing_required b"
    using assms 1 by (cases "missing_required b") (simp_all add: addresses_PUT_def)
  have 3: "filter (owned_address env (uid user) (body_id b)) (addresses s) \<noteq> []"
    using assms 1 2
    by (cases "filter (owned_address env (uid user) (body_id b)) (addresses s) = []")
       (simp_all add: addresses_PUT_def)
  show ?thesis using assms(1,2) 1 2 3
    by (simp add: addresses_PUT_def Let_def)
qed

subsection \<open>Addresses: the single default\<close>

text \<open>
  C4. After a successful Create (201) with a truthy \<^verbatim>\<open>is_default\<close>, and after a
  successful Update (200) with a truthy \<^verbatim>\<open>is_default\<close>, exactly one address of the
  caller is flagged as default, however many were flagged before. Create clears the flag
  on all the caller's rows and inserts the new row flagged; Update clears it on the
  caller's other rows and flags the updated row. For Update the key column \<^verbatim>\<open>id\<close> is
  unique, as a primary key is.
\<close>

theorem single_default_after_create_or_update:
  assumes "getUserFromToken env request = Some user"
      and "json_body request = Some b"
      and "truthy (is_default b)"
  shows "(status (fst (addresses_POST env request s)) = 201 \<longrightarrow>
            default_count (uid user) (snd (addresses_POST env request s)) = 1) \<and>
         (distinct (map a_id (addresses s)) \<longrightarrow>
          status (fst (addresses_PUT env request s)) = 200 \<longrightarrow>
            default_count (uid user) (snd (addresses_PUT env request s)) = 1)"
proof (intro conjI impI)
  assume "status (fst (addresses_POST env request s)) = 201"
  from addresses_POST_created[OF assms(1,2) this] assms(3)
  show "default_count (uid user) (snd (addresses_POST env request s)) = 1"
    by (simp add: default_count_def cleared_no_default write_address_def blank_address_def)
next
  assume d: "distinct (map a_id (addresses s))"
    and ok: "status (fst (addresses_PUT env request s)) = 200"
  let ?own = "owned_address env (uid user) (body_id b)"
  note upd = addresses_PUT_updated[OF assms(1,2) ok]
  from upd have "length (filter ?own (addresses s)) \<ge> 1"
    by (cases "filter ?own (addresses s)") auto
  with owned_le_one[OF d, of env "uid user" "body_id b"]
  have one: "length (filter ?own (addresses s)) = 1" by simp
  from upd assms(3) have "default_count (uid user) (snd (addresses_PUT env request s)) =
      length (filter (\<lambda>a. a_user_id a = uid user \<and> a_is_default a)
        (map (\<lambda>a. if ?own a then write_address b a else a)
           (clear_other_defaults env (uid user) (body_id b) (addresses s))))"
    by (simp add: default_count_def del: filter_map)
  also have "\<dots> = length (filter ?own (addresses s))"
    by (rule default_count_update[OF assms(3)])
  finally show "default_count (uid user) (snd (addresses_PUT env request s)) = 1"
    using one by simp
qed

text \<open>
  The first user has two defaults; after her Create, and after her Update of address 2,
  she has one.
\<close>

theorem single_default_after_create_or_update_witness:
  "getUserFromToken example_env example_address_request
     = Some \<lparr>uid = ''alice'', user_email = ''a@b.com''\<rparr> \<and>
   json_body example_address_request = Some example_address_body \<and>
   truthy (is_default example_address_body) \<and>
   default_count ''alice'' example_addresses = 2 \<and>
   status (fst (addresses_POST example_env example_address_request example_addresses)) = 201 \<and>
   default_count ''alice''
     (snd (addresses_POST example_env example_address_request example_addresses)) = 1 \<and>
   distinct (map a_id (addresses example_addresses)) \<and>
   status (fst (addresses_PUT example_env example_address_request example_addresses)) = 200 \<and>
   default_count ''alice''
     (snd (addresses_PUT example_env example_address_request example_addresses)) = 1"
proof -
  have u: "getUserFromToken example_env example_address_request
      = Some \<lparr>uid = ''alice'', user_email = ''a@b.com''\<rparr>"
    by (simp add: getUserFromToken_def example_env_def example_address_request_def)
  have b: "json_body example_address_request = Some example_address_body"
    by (simp add: example_address_request_def)
  have t: "truthy (is_default example_address_body)"
    by (simp add: example_address_body_def truthy_def)
  have n: "default_count ''alice'' example_addresses = 2"
    by (simp add: default_count_def example_addresses_def example_address_def blank_address_def)
  have c: "status (fst (addresses_POST example_env example_address_request example_addresses)) = 201"
    by (simp add: addresses_POST_def u b example_address_body_def missing_required_def Let_def)
  have d: "distinct (map a_id (addresses example_addresses))"
    by (simp add: example_addresses_def example_address_def blank_address_def)
  have k: "sql_key example_env (JNum 2) = Some 2"
    by (simp add: example_env_def)
  have p: "status (fst (addresses_PUT example_env example_address_request example_addresses)) = 200"
    by (simp add: addresses_PUT_def u b k
        example_address_body_def missing_required_def Let_def example_addresses_def
        example_address_def blank_address_def owned_address_def clear_other_defaults_def)
  from single_default_after_create_or_update[OF u b t, of example_addresses] c d p u b t n
  show ?thesis by simp
qed

subsection \<open>Addresses: an update overwrites the flag\<close>

lemma updated_rows_flag:
  "a \<in> set (map (\<lambda>a. if owned_address env u idv a then write_address b a else a) rows) \<Longrightarrow>
   owned_address env u idv a \<Longrightarrow> a_is_default a = truthy (is_default b)"
  by (induction rows) (auto split: if_splits)

lemma no_default_left:
  "\<forall>a\<in>set rows. a_user_id a = u \<and> a_is_default a \<longrightarrow> owned_address env u idv a \<Longrightarrow>
   falsy (is_default b) \<Longrightarrow>
   filter (\<lambda>a. a_user_id a = u \<and> a_is_default a)
     (map (\<lambda>a. if owned_address env u idv a then write_address b a else a) rows) = []"
  by (induction rows) (auto simp: truthy_def)

lemma filter_map_same:
  "(\<And>a. P (g a) = P a) \<Longrightarrow> filter P (map g xs) = map g (filter P xs)"
  by (induction xs) simp_all

lemma owned_row_kept:
  assumes "filter (owned_address env u idv) rows \<noteq> []"
  shows "filter (owned_address env u idv)
     (map (\<lambda>a. if owned_address env u idv a then write_address b a else a)
        (if t then clear_other_defaults env u idv rows else rows)) \<noteq> []"
proof -
  let ?own = "owned_address env u idv"
  let ?g = "\<lambda>a. if ?own a then write_address b a else a"
  let ?h = "\<lambda>a. if a_user_id a = u \<and> sql_key env idv \<noteq> Some (a_id a)
               then a\<lparr>a_is_default := False\<rparr> else a"
  have g: "filter ?own (map ?g xs) = map ?g (filter ?own xs)" for xs
    by (rule filter_map_same) simp
  have h: "filter ?own (map ?h xs) = map ?h (filter ?own xs)" for xs
    by (rule filter_map_same) simp
  have "filter ?own (clear_other_defaults env u idv rows) \<noteq> []"
    using assms unfolding clear_other_defaults_def h by simp
  with assms show ?thesis unfolding g by simp
qed

text \<open>
  C10. A successful Update (200) writes the truthiness of the supplied \<^verbatim>\<open>is_default\<close>
  into the updated row, which exists: with \<^verbatim>\<open>is_default\<close> absent or falsy the row's
  flag becomes 0. So when the caller's only default address is the updated one (every
  flagged row of the caller is the row of the given id), the caller has no default
  address afterwards.
\<close>

theorem update_overwrites_default_flag:
  assumes "getUserFromToken env request = Some user"
      and "json_body request = Some b"
      and "status (fst (addresses_PUT env request s)) = 200"
  shows "filter (owned_address env (uid user) (body_id b))
            (addresses (snd (addresses_PUT env request s))) \<noteq> [] \<and>
         (\<forall>a\<in>set (addresses (snd (addresses_PUT env request s))).
            owned_address env (uid user) (body_id b) a \<longrightarrow>
            a_is_default a = truthy (is_default b)) \<and>
         (falsy (is_default b) \<longrightarrow>
          (\<forall>a\<in>set (addresses s). a_user_id a = uid user \<and> a_is_default a \<longrightarrow>
              owned_address env (uid user) (body_id b) a) \<longrightarrow>
          default_count (uid user) (snd (addresses_PUT env request s)) = 0)"
proof (intro conjI impI ballI)
  from addresses_PUT_updated[OF assms]
  show "filter (owned_address env (uid user) (body_id b))
            (addresses (snd (addresses_PUT env request s))) \<noteq> []"
    using owned_row_kept[of env "uid user" "body_id b" "addresses s" b "truthy (is_default b)"]
    by (simp del: filter_map)
next
  fix a
  assume "a \<in> set (addresses (snd (addresses_PUT env request s)))"
    and "owned_address env (uid user) (body_id b) a"
  with addresses_PUT_updated[OF assms] show "a_is_default a = truthy (is_default b)"
    using updated_rows_flag[of a env "uid user" "body_id b" b] by simp
next
  assume f: "falsy (is_default b)"
    and only: "\<forall>a\<in>set (addresses s). a_user_id a = uid user \<and> a_is_default a \<longrightarrow>
              owned_address env (uid user) (body_id b) a"
  from f have "\<not> truthy (is_default b)" by (simp add: truthy_def)
  with addresses_PUT_updated[OF assms]
  have "addresses (snd (addresses_PUT env request s)) =
      map (\<lambda>a. if owned_address env (uid user) (body_id b) a then write_address b a else a)
        (addresses s)"
    by simp
  then show "default_count (uid user) (snd (addresses_PUT env request s)) = 0"
    using no_default_left[OF only f] by (simp add: default_count_def del: filter_map)
qed

text \<open>
  The first user's default is address 2; she updates it without \<^verbatim>\<open>is_default\<close> and is
  left with no default.
\<close>

theorem update_overwrites_default_flag_witness:
  "getUserFromToken example_env example_address_request_no_flag
     = Some \<lparr>uid = ''alice'', user_email = ''a@b.com''\<rparr> \<and>
   json_body example_address_request_no_flag
     = Some (example_address_body\<lparr>is_default := JUndefined\<rparr>) \<and>
   status (fst (addresses_PUT example_env example_address_request_no_flag
                  example_addresses_one_default)) = 200 \<and>
   falsy (is_default (example_address_body\<lparr>is_default := JUndefined\<rparr>)) \<and>
   default_count ''alice'' example_addresses_one_default = 1 \<and>
   default_count ''alice''
     (snd (addresses_PUT example_env example_address_request_no_flag
             example_addresses_one_default)) = 0"
proof -
  let ?b = "example_address_body\<lparr>is_default := JUndefined\<rparr>"
  have u: "getUserFromToken example_env example_address_request_no_flag
      = Some \<lparr>uid = ''alice'', user_email = ''a@b.com''\<rparr>"
    by (simp add: getUserFromToken_def example_env_def example_address_request_no_flag_def)
  have b: "json_body example_address_request_no_flag = Some ?b"
    by (simp add: example_address_request_no_flag_def)
  have k: "sql_key example_env (JNum 2) = Some 2"
    by (simp add: example_env_def)
  have p: "status (fst (addresses_PUT example_env example_address_request_no_flag
                  example_addresses_one_default)) = 200"
    by (simp add: addresses_PUT_def u b k truthy_def
        example_address_body_def missing_required_def Let_def example_addresses_one_default_def
        example_address_def blank_address_def owned_address_def)
  have f: "falsy (is_default ?b)" by simp
  have n: "default_count ''alice'' example_addresses_one_default = 1"
    by (simp add: default_count_def example_addresses_one_default_def example_address_def
        blank_address_def)
  have only: "\<forall>a\<in>set (addresses example_addresses_one_default).
      a_user_id a = uid \<lparr>uid = ''alice'', user_email = ''a@b.com''\<rparr> \<and> a_is_default a \<longrightarrow>
      owned_address example_env (uid \<lparr>uid = ''alice'', user_email = ''a@b.com''\<rparr>) (body_id ?b) a"
    by (simp add: example_addresses_one_default_def example_address_def blank_address_def
        owned_address_def k example_address_body_def)
  from update_overwrites_default_flag[OF u b p] f only u b p n
  show ?thesis by simp
qed

subsection \<open>Orders: a falsy total\<close>

text \<open>
  C9. A POST whose \<^verbatim>\<open>total\<close> is falsy (0, the empty string, null, or absent) creates
  nothing, in route.ts and in part_000: the database is left as it was. In route.ts the
  answer is 400, in part_000 400 or 401. When \<^verbatim>\<open>items\<close> is a non-empty array (and, in
  part_000, the token is accepted), the answer is the 400 with the message that total
  amount and customer email are required: presence is tested by truthiness.
\<close>

theorem falsy_total_is_rejected:
  assumes "json_body request = Some b"
      and "falsy (total b)"
  shows "snd (orders_POST_route_ts env request s) = s \<and>
         status (fst (orders_POST_route_ts env request s)) = 400 \<and>
         snd (orders_POST env request s) = s \<and>
         status (fst (orders_POST env request s)) \<in> {400, 401} \<and>
         (items b = Some its \<and> its \<noteq> [] \<longrightarrow>
            orders_POST_route_ts env request s =
              (Response 400 (error_body ''Total amount and customer email are required''), s) \<and>
            (getUserFromToken env request = Some user \<longrightarrow>
             orders_POST env request s =
               (Response 400 (error_body ''Total amount and customer email are required''), s)))"
proof -
  have route: "snd (orders_POST_route_ts env request s) = s \<and>
         status (fst (orders_POST_route_ts env request s)) = 400"
  proof (cases "items b")
    case None
    with assms show ?thesis by (simp add: orders_POST_route_ts_def)
  next
    case (Some xs)
    with assms show ?thesis by (cases "xs = []") (simp_all add: orders_POST_route_ts_def)
  qed
  have part: "snd (orders_POST env request s) = s \<and>
         status (fst (orders_POST env request s)) \<in> {400, 401}"
  proof (cases "getUserFromToken env request")
    case None
    then show ?thesis by (simp add: orders_POST_def)
  next
    case u: (Some u)
    show ?thesis
    proof (cases "items b")
      case None
      with assms u show ?thesis by (simp add: orders_POST_def)
    next
      case (Some xs)
      with assms u show ?thesis by (cases "xs = []") (simp_all add: orders_POST_def)
    qed
  qed
  have exact: "orders_POST_route_ts env request s =
              (Response 400 (error_body ''Total amount and customer email are required''), s) \<and>
            (getUserFromToken env request = Some user \<longrightarrow>
             orders_POST env request s =
               (Response 400 (error_body ''Total amount and customer email are required''), s))"
    if "items b = Some its \<and> its \<noteq> []"
    using that assms
    by (simp add: orders_POST_route_ts_def orders_POST_def total_and_email_required_def)
  from route part exact show ?thesis by blast
qed

text \<open>A total of 0.\<close>

theorem falsy_total_is_rejected_witness:
  "json_body (example_order_request (example_order_body\<lparr>total := JNum 0\<rparr>))
     = Some (example_order_body\<lparr>total := JNum 0\<rparr>) \<and>
   items (example_order_body\<lparr>total := JNum 0\<rparr>) = Some [example_item] \<and>
   [example_item] \<noteq> [] \<and>
   falsy (total (example_order_body\<lparr>total := JNum 0\<rparr>)) \<and>
   getUserFromToken example_env (example_order_request (example_order_body\<lparr>total := JNum 0\<rparr>))
     = Some \<lparr>uid = ''alice'', user_email = ''a@b.com''\<rparr> \<and>
   orders_POST_route_ts example_env
       (example_order_request (example_order_body\<lparr>total := JNum 0\<rparr>)) example_shop
     = (Response 400 (error_body ''Total amount and customer email are required''), example_shop) \<and>
   orders_POST example_env
       (example_order_request (example_order_body\<lparr>total := JNum 0\<rparr>)) example_shop
     = (Response 400 (error_body ''Total amount and customer email are required''), example_shop)"
proof -
  let ?b = "example_order_body\<lparr>total := JNum 0\<rparr>"
  have b: "json_body (example_order_request ?b) = Some ?b"
    by (simp add: example_order_request_def)
  have i: "items ?b = Some [example_item]"
    by (simp add: example_order_body_def)
  have n: "[example_item] \<noteq> []" by simp
  have f: "falsy (total ?b)" by simp
  have u: "getUserFromToken example_env (example_order_request ?b)
      = Some \<lparr>uid = ''alice'', user_email = ''a@b.com''\<rparr>"
    by (simp add: getUserFromToken_def example_env_def example_order_request_def)
  from falsy_total_is_rejected[OF b f, where env = example_env and s = example_shop
      and its = "[example_item]"
      and user = "\<lparr>uid = ''alice'', user_email = ''a@b.com''\<rparr>"] b i n f u
  show ?thesis by simp
qed

subsection \<open>Orders: the status update\<close>

lemma map_unowned:
  "filter P xs = [] \<Longrightarrow> map (\<lambda>x. if P x then f x else x) xs = xs"
  by (induction xs) (auto split: if_splits)

text \<open>
  C7. A PUT that passes the token, id and status checks rewrites exactly the rows whose
  id is the given one and whose owner is the caller, and in them only the status, the
  tracking number and the update time. When no row of that id belongs to the caller, in
  particular when the order is another user's, the answer is 404 "Order not found or
  unauthorized" and the database, so the stored status, is unchanged.
\<close>

theorem status_update_is_scoped_to_owner:
  assumes "getUserFromToken env request = Some user"
      and "searchParams_id request = Some i"
      and "i \<noteq> []"
      and "json_body request = Some b"
      and "\<not> falsy (new_status b)"
  shows "snd (orders_PUT env request s) =
           s\<lparr>orders := map (\<lambda>row. if sql_key env (JStr i) = Some (o_id row) \<and>
                                      o_user_id row = Some (uid user)
                                   then row\<lparr>o_status := new_status b,
                                            o_tracking_number := js_or (tracking_number b) JNull,
                                            o_updated_at := now env\<rparr>
                                   else row) (orders s)\<rparr> \<and>
         ((\<forall>row\<in>set (orders s). sql_key env (JStr i) = Some (o_id row) \<longrightarrow>
               o_user_id row \<noteq> Some (uid user)) \<longrightarrow>
          orders_PUT env request s =
            (Response 404 (error_body ''Order not found or unauthorized''), s))"
proof -
  let ?own = "owned_order env (uid user) i"
  have own: "?own = (\<lambda>row. sql_key env (JStr i) = Some (o_id row) \<and> o_user_id row = Some (uid user))"
    by (rule ext) (simp add: owned_order_def)
  have upd: "snd (orders_PUT env request s) =
      s\<lparr>orders := map (\<lambda>row. if ?own row then set_status env b row else row) (orders s)\<rparr>"
  proof (cases "filter ?own (orders s) = []")
    case True
    with assms show ?thesis by (simp add: orders_PUT_def Let_def)
  next
    case False
    let ?s' = "s\<lparr>orders := map (\<lambda>row. if ?own row then set_status env b row else row) (orders s)\<rparr>"
    show ?thesis
    proof (cases "filter ?own (orders ?s')")
      case Nil
      with False assms show ?thesis by (simp add: orders_PUT_def Let_def)
    next
      case (Cons row rows)
      with False assms show ?thesis
        by (cases "parse_shipping env (o_shipping_address row)")
           (simp_all add: orders_PUT_def Let_def)
    qed
  qed
  have first: "snd (orders_PUT env request s) =
           s\<lparr>orders := map (\<lambda>row. if sql_key env (JStr i) = Some (o_id row) \<and>
                                      o_user_id row = Some (uid user)
                                   then row\<lparr>o_status := new_status b,
                                            o_tracking_number := js_or (tracking_number b) JNull,
                                            o_updated_at := now env\<rparr>
                                   else row) (orders s)\<rparr>"
    using upd unfolding own set_status_def .
  have second: "orders_PUT env request s =
            (Response 404 (error_body ''Order not found or unauthorized''), s)"
    if none: "\<forall>row\<in>set (orders s). sql_key env (JStr i) = Some (o_id row) \<longrightarrow>
               o_user_id row \<noteq> Some (uid user)"
  proof -
    from none have e: "filter ?own (orders s) = []"
      by (auto simp: filter_empty_conv owned_order_def)
    then have "map (\<lambda>row. if ?own row then set_status env b row else row) (orders s) = orders s"
      by (rule map_unowned)
    with e assms show ?thesis by (simp add: orders_PUT_def Let_def)
  qed
  from first second show ?thesis by blast
qed

text \<open>
  The second user tries to update the first user's order and gets 404; the owner's own
  update sets the status.
\<close>

theorem status_update_is_scoped_to_owner_witness:
  "getUserFromToken example_env (example_status_request ''bob-token'')
     = Some \<lparr>uid = ''bob'', user_email = ''b@b.com''\<rparr> \<and>
   searchParams_id (example_status_request ''bob-token'') = Some ''1'' \<and>
   ''1'' \<noteq> [] \<and>
   json_body (example_status_request ''bob-token'')
     = Some \<lparr>new_status = JStr ''shipped'', tracking_number = JUndefined\<rparr> \<and>
   \<not> falsy (new_status \<lparr>new_status = JStr ''shipped'', tracking_number = JUndefined\<rparr>) \<and>
   map o_user_id (orders example_orders) = [Some ''alice''] \<and>
   orders_PUT example_env (example_status_request ''bob-token'') example_orders
     = (Response 404 (error_body ''Order not found or unauthorized''), example_orders) \<and>
   status (fst (orders_PUT example_env (example_status_request ''alice-token'') example_orders)) = 200 \<and>
   map o_status (orders (snd (orders_PUT example_env (example_status_request ''alice-token'')
                                 example_orders))) = [JStr ''shipped'']"
proof -
  let ?b = "\<lparr>new_status = JStr ''shipped'', tracking_number = JUndefined\<rparr>"
  let ?bob = "\<lparr>uid = ''bob'', user_email = ''b@b.com''\<rparr>"
  let ?alice = "\<lparr>uid = ''alice'', user_email = ''a@b.com''\<rparr>"
  have u: "getUserFromToken example_env (example_status_request ''bob-token'') = Some ?bob"
    by (simp add: getUserFromToken_def example_env_def example_status_request_def)
  have ua: "getUserFromToken example_env (example_status_request ''alice-token'') = Some ?alice"
    by (simp add: getUserFromToken_def example_env_def example_status_request_def)
  have q: "searchParams_id (example_status_request t) = Some ''1''" for t
    by (simp add: example_status_request_def)
  have n: "''1'' \<noteq> []" by simp
  have b: "json_body (example_status_request t) = Some ?b" for t
    by (simp add: example_status_request_def)
  have f: "\<not> falsy (new_status ?b)" by simp
  have k: "sql_key example_env (JStr ''1'') = Some 1"
    by (simp add: example_env_def)
  have p: "JSON_parse example_env (the (o_shipping_address example_order))
      = Some (JObj [(''city'', JStr ''Manila'')])"
    by (simp add: example_env_def example_order_def)
  have o: "map o_user_id (orders example_orders) = [Some ''alice'']"
    by (simp add: example_orders_def example_order_def)
  have none: "\<forall>row\<in>set (orders example_orders).
      sql_key example_env (JStr ''1'') = Some (o_id row) \<longrightarrow> o_user_id row \<noteq> Some (uid ?bob)"
    by (simp add: example_orders_def example_order_def)
  have ok: "status (fst (orders_PUT example_env (example_status_request ''alice-token'') example_orders)) = 200"
    using p
    by (simp add: orders_PUT_def ua q b k Let_def owned_order_def example_orders_def
        example_order_def parse_shipping_def set_status_def)
  note r1 = status_update_is_scoped_to_owner[OF u q n b f, of example_orders]
  note r2 = status_update_is_scoped_to_owner[OF ua q n b f, of example_orders]
  have st: "map o_status (orders (snd (orders_PUT example_env (example_status_request ''alice-token'')
                                 example_orders))) = [JStr ''shipped'']"
    using r2 by (simp add: example_orders_def example_order_def k)
  from r1 none u q n b f o ok st show ?thesis by simp
qed

subsection \<open>Orders: the stock validation loop\<close>

lemma check_item_events [simp]:
  "check_item env (s\<lparr>events := e\<rparr>) item = check_item env s item"
  by (simp add: check_item_def)

lemma db_events_same [simp]: "s\<lparr>events := events s\<rparr> = s"
  by simp

lemma validate_stock_effect:
  "\<exists>k. snd (validate_stock env its s) = s\<lparr>events := events s @ map StockValidated (take k its)\<rparr>"
proof (induction its arbitrary: s)
  case Nil
  show ?case by simp
next
  case (Cons item rest)
  show ?case
  proof (cases "check_item env s item")
    case Thrown
    then have "snd (validate_stock env (item # rest) s) =
        s\<lparr>events := events s @ map StockValidated (take 0 (item # rest))\<rparr>" by simp
    then show ?thesis by blast
  next
    case (Returned r)
    then have "snd (validate_stock env (item # rest) s) =
        s\<lparr>events := events s @ map StockValidated (take 0 (item # rest))\<rparr>" by simp
    then show ?thesis by blast
  next
    case (Continue u)
    from Cons[of "s\<lparr>events := events s @ [StockValidated item]\<rparr>"]
    obtain k where "snd (validate_stock env rest (s\<lparr>events := events s @ [StockValidated item]\<rparr>)) =
        s\<lparr>events := events s @ [StockValidated item]\<rparr>
         \<lparr>events := events (s\<lparr>events := events s @ [StockValidated item]\<rparr>) @
            map StockValidated (take k rest)\<rparr>" by blast
    with Continue have "snd (validate_stock env (item # rest) s) =
        s\<lparr>events := events s @ map StockValidated (take (Suc k) (item # rest))\<rparr>" by simp
    then show ?thesis by blast
  qed
qed


lemma validate_stock_returned:
  "fst (validate_stock env its s) = Returned r \<Longrightarrow> \<exists>it\<in>set its. check_item env s it = Returned r"
proof (induction its arbitrary: s)
  case Nil
  then show ?case by simp
next
  case (Cons x rest)
  show ?case
  proof (cases "check_item env s x")
    case (Continue u)
    with Cons.prems have "fst (validate_stock env rest (s\<lparr>events := events s @ [StockValidated x]\<rparr>)) = Returned r"
      by simp
    from Cons.IH[OF this] show ?thesis by simp
  next
    case Thrown
    with Cons.prems show ?thesis by simp
  next
    case (Returned r')
    with Cons.prems show ?thesis by simp
  qed
qed


lemma validate_stock_passed:
  "\<forall>it\<in>set passed. check_item env s it = Continue () \<Longrightarrow>
   validate_stock env (passed @ rest) s =
     validate_stock env rest (s\<lparr>events := events s @ map StockValidated passed\<rparr>)"
proof (induction passed arbitrary: s)
  case Nil
  show ?case by simp
next
  case (Cons x passed)
  from Cons.prems have x: "check_item env s x = Continue ()" by simp
  from Cons.prems have "\<forall>it\<in>set passed. check_item env (s\<lparr>events := events s @ [StockValidated x]\<rparr>) it = Continue ()"
    by simp
  from Cons.IH[OF this] x show ?case by simp
qed

lemma check_item_status:
  "check_item env s it = Returned r \<Longrightarrow> status r = 400"
  by (auto simp: check_item_def product_not_found_def insufficient_stock_def
      split: list.splits option.splits if_splits)

lemma place_order_rejected:
  "fst (validate_stock env its s) \<noteq> Continue () \<Longrightarrow>
   place_order env auth row its s =
     (case fst (validate_stock env its s) of
        Thrown \<Rightarrow> internal_server_error | Returned r \<Rightarrow> r | Continue u \<Rightarrow> internal_server_error,
      snd (validate_stock env its s))"
  by (cases "validate_stock env its s"; cases "fst (validate_stock env its s)")
     (simp_all add: place_order_def)


lemma example_user:
  "getUserFromToken example_env (example_order_request b)
     = Some \<lparr>uid = ''alice'', user_email = ''a@b.com''\<rparr>"
  by (simp add: getUserFromToken_def example_env_def example_order_request_def)


text \<open>A POST of part_000 that returns before the stock validation changes nothing.\<close>

lemma orders_POST_early:
  assumes "getUserFromToken env request = None \<or> json_body request = None \<or>
           (\<exists>b. json_body request = Some b \<and>
                (items b = None \<or> items b = Some [] \<or> falsy (total b) \<or> falsy (customer_email b)))"
  shows "snd (orders_POST env request s) = s \<and>
         status (fst (orders_POST env request s)) \<in> {400, 401, 500}"
proof (cases "getUserFromToken env request")
  case None
  then show ?thesis by (simp add: orders_POST_def)
next
  case (Some user)
  show ?thesis
  proof (cases "json_body request")
    case None
    with Some show ?thesis by (simp add: orders_POST_def)
  next
    case b: (Some b)
    show ?thesis
    proof (cases "items b")
      case None
      with Some b show ?thesis by (simp add: orders_POST_def)
    next
      case its: (Some its)
      show ?thesis
      proof (cases "its = []")
        case True
        with Some b its show ?thesis by (simp add: orders_POST_def)
      next
        case False
        with assms Some b its have "falsy (total b) \<or> falsy (customer_email b)" by auto
        with Some b its False show ?thesis by (simp add: orders_POST_def)
      qed
    qed
  qed
qed





text \<open>
  Where the runtime defines no property of the name, the read with a computed key is the
  read of the own property.
\<close>

lemma read_member_get_prop:
  "runtime_get env (JObj kvs) k = Some JUndefined \<Longrightarrow>
   read_member env (JObj kvs) k = get_prop (JObj kvs) k"
  by (cases "map_of kvs k") simp_all

text \<open>The variants of a product whose stored text does not parse are the empty object.\<close>

lemma variants_of_unparsable:
  "p_variants product = Some t \<Longrightarrow> JSON_parse env t = None \<Longrightarrow>
   variants_of env product = JObj []"
  by (simp add: variants_of_def)

lemma example_corrupt_variants:
  \<open>variants_of example_env (example_product\<lparr>p_variants := Some ''{"red":''\<rparr>) = JObj []\<close>
  by (simp add: variants_of_def example_env_def)

lemma example_runtime:
  "runtime_get example_env = example_runtime_get"
  "to_number example_env (JStr ''Object'') = None"
  "to_number example_env (JBuiltin b) = None"
  by (simp_all add: example_env_def)

text \<open>
  When the stored variants text of an item's product does not parse, the variants are the
  empty object and the request does not fail on the parse. For a colour that names no
  property that the empty object inherits, the available stock is 0, and the item passes
  the check exactly when its requested quantity is at most 0 (otherwise the answer is the
  400 "Insufficient stock" with 0 available). In any variants object, a colour that is
  neither an own nor an inherited property, and a size that is neither in the object
  stored for the colour, give the available stock 0.
\<close>

theorem unparsable_variants_without_inherited_name:
  assumes "p_variants product = Some t"
      and "JSON_parse env t = None"
      and "runtime_get env (JObj []) (i_color item) = Some JUndefined"
  shows "variants_of env product = JObj [] \<and>
         availableStock env product item = Some (JNum 0) \<and>
         (\<forall>s others. filter (\<lambda>p. p_id p = i_product_id item) (products s) = product # others \<longrightarrow>
            check_item env s item =
              (if 0 < i_quantity item then Returned (insufficient_stock env item (JNum 0))
               else Continue ())) \<and>
         (\<forall>q kvs sizes. variants_of env q = JObj kvs \<and>
            (map_of kvs (i_color item) = None \<and>
               runtime_get env (JObj kvs) (i_color item) = Some JUndefined \<or>
             map_of kvs (i_color item) = Some (JObj sizes) \<and>
               map_of sizes (i_size item) = None \<and>
               runtime_get env (JObj sizes) (i_size item) = Some JUndefined) \<longrightarrow>
            availableStock env q item = Some (JNum 0))"
proof -
  have v: "variants_of env product = JObj []"
    using assms(1,2) by (rule variants_of_unparsable)
  have g: "availableStock env q item = Some (JNum 0)"
    if "variants_of env q = JObj kvs \<and>
        (map_of kvs (i_color item) = None \<and>
           runtime_get env (JObj kvs) (i_color item) = Some JUndefined \<or>
         map_of kvs (i_color item) = Some (JObj sizes) \<and>
           map_of sizes (i_size item) = None \<and>
           runtime_get env (JObj sizes) (i_size item) = Some JUndefined)"
    for q kvs sizes
    using that by (auto simp: availableStock_def optional_member_def js_or_def)
  have a: "availableStock env product item = Some (JNum 0)"
    by (simp add: availableStock_def v assms(3) optional_member_def js_or_def)
  have c: "check_item env s item =
      (if 0 < i_quantity item then Returned (insufficient_stock env item (JNum 0)) else Continue ())"
    if "filter (\<lambda>p. p_id p = i_product_id item) (products s) = product # others" for s others
    using that by (simp add: check_item_def a js_lt_num_def)
  from v a c g show ?thesis by blast
qed

text \<open>A variants text cut short: an order of one unit of red/M is refused, a quantity of 0 passes.\<close>

theorem unparsable_variants_without_inherited_name_witness:
  \<open>p_variants (example_product\<lparr>p_variants := Some ''{"red":''\<rparr>) = Some ''{"red":'' \<and>
   JSON_parse example_env ''{"red":'' = None \<and>
   runtime_get example_env (JObj []) (i_color example_item) = Some JUndefined \<and>
   availableStock example_env (example_product\<lparr>p_variants := Some ''{"red":''\<rparr>) example_item
     = Some (JNum 0) \<and>
   fst (orders_POST example_env (example_order_request (example_order_of 1)) example_shop_corrupt)
     = insufficient_stock example_env (example_item\<lparr>i_quantity := 1\<rparr>) (JNum 0) \<and>
   check_item example_env example_shop_corrupt (example_item\<lparr>i_quantity := 0\<rparr>) = Continue ()\<close>
proof -
  let ?p = \<open>example_product\<lparr>p_variants := Some ''{"red":''\<rparr>\<close>
  have v: \<open>p_variants ?p = Some ''{"red":''\<close> by simp
  have j: \<open>JSON_parse example_env ''{"red":'' = None\<close>
    by (simp add: example_env_def)
  have n: "runtime_get example_env (JObj []) (i_color (example_item\<lparr>i_quantity := q\<rparr>))
      = Some JUndefined" for q
    by (simp add: example_runtime example_runtime_get_def object_prototype_methods_def
        example_item_def)
  have n': "runtime_get example_env (JObj []) (i_color example_item) = Some JUndefined"
    by (simp add: example_runtime example_runtime_get_def object_prototype_methods_def
        example_item_def)
  note r = unparsable_variants_without_inherited_name[OF v j]
  have f: "filter (\<lambda>p. p_id p = i_product_id (example_item\<lparr>i_quantity := q\<rparr>))
      (products example_shop_corrupt) = ?p # []" for q
    by (simp add: example_shop_corrupt_def example_product_def example_item_def)
  have c1: "check_item example_env example_shop_corrupt (example_item\<lparr>i_quantity := 1\<rparr>)
      = Returned (insufficient_stock example_env (example_item\<lparr>i_quantity := 1\<rparr>) (JNum 0))"
    using r[OF n[of 1]] f[of 1] by simp
  have c0: "check_item example_env example_shop_corrupt (example_item\<lparr>i_quantity := 0\<rparr>)
      = Continue ()"
    using r[OF n[of 0]] f[of 0] by simp
  have b: "json_body (example_order_request (example_order_of 1)) = Some (example_order_of 1)"
    by (simp add: example_order_request_def)
  have i: "items (example_order_of 1) = Some [example_item\<lparr>i_quantity := 1\<rparr>]"
    by (simp add: example_order_of_def)
  have t: "\<not> falsy (total (example_order_of 1))" "\<not> falsy (customer_email (example_order_of 1))"
    by (simp_all add: example_order_of_def example_order_body_def)
  have p: "fst (orders_POST example_env (example_order_request (example_order_of 1)) example_shop_corrupt)
     = insufficient_stock example_env (example_item\<lparr>i_quantity := 1\<rparr>) (JNum 0)"
    using t by (simp add: orders_POST_def example_user b i place_order_def c1)
  from r[OF n'] v j n' p c0 show ?thesis by simp
qed

subsection \<open>Orders: the stock reduction loop\<close>

lemma after_calls_append [simp]:
  "after_calls env (cs @ ds) ps = after_calls env ds (after_calls env cs ps)"
  by (induction cs arbitrary: ps) simp_all

lemma db_same_fields [simp]:
  "s\<lparr>products := products s, events := events s\<rparr> = s"
  by simp

lemma reduce_stock_effect:
  "\<exists>k\<le>length its.
     snd (reduce_stock env auth its s) =
       s\<lparr>products := after_calls env (map (call_for auth) (take k its)) (products s),
         events := events s @ map (\<lambda>it. StockAdjust (call_for auth it)) (take k its)\<rparr> \<and>
     (fst (reduce_stock env auth its s) = Continue () \<longrightarrow> k = length its)"
proof (induction its arbitrary: s)
  case Nil
  show ?case by simp
next
  case (Cons item rest)
  obtain reply ps where put: "stock_PUT env (call_for auth item) (products s) = (reply, ps)"
    by (cases "stock_PUT env (call_for auth item) (products s)")
  let ?s' = "s\<lparr>products := ps, events := events s @ [StockAdjust (call_for auth item)]\<rparr>"
  show ?case
  proof (cases "reply_ok reply")
    case True
    from Cons[of ?s'] obtain k where k: "k \<le> length rest"
      "snd (reduce_stock env auth rest ?s') =
         ?s'\<lparr>products := after_calls env (map (call_for auth) (take k rest)) (products ?s'),
             events := events ?s' @ map (\<lambda>it. StockAdjust (call_for auth it)) (take k rest)\<rparr>"
      "fst (reduce_stock env auth rest ?s') = Continue () \<longrightarrow> k = length rest"
      by blast
    have "Suc k \<le> length (item # rest)" using k(1) by simp
    moreover have "snd (reduce_stock env auth (item # rest) s) =
       s\<lparr>products := after_calls env (map (call_for auth) (take (Suc k) (item # rest))) (products s),
         events := events s @ map (\<lambda>it. StockAdjust (call_for auth it)) (take (Suc k) (item # rest))\<rparr>"
      using put True k(2) by (simp add: Let_def)
    moreover have "fst (reduce_stock env auth (item # rest) s) = Continue () \<longrightarrow>
        Suc k = length (item # rest)"
      using put True k(3) by (simp add: Let_def)
    ultimately show ?thesis by blast
  next
    case False
    have "Suc 0 \<le> length (item # rest)" by simp
    moreover have "snd (reduce_stock env auth (item # rest) s) =
       s\<lparr>products := after_calls env (map (call_for auth) (take (Suc 0) (item # rest))) (products s),
         events := events s @ map (\<lambda>it. StockAdjust (call_for auth it)) (take (Suc 0) (item # rest))\<rparr>"
      using put False by (cases "reply_message reply") (simp_all add: Let_def)
    moreover have "fst (reduce_stock env auth (item # rest) s) \<noteq> Continue ()"
      using put False by (cases "reply_message reply") (simp_all add: Let_def)
    ultimately show ?thesis by blast
  qed
qed

lemma reduce_stock_fails:
  assumes "list_all reply_ok (stock_replies env (map (call_for auth) served) (products s))"
      and "stock_PUT env (call_for auth item)
             (after_calls env (map (call_for auth) served) (products s)) = (reply, ps)"
      and "\<not> reply_ok reply"
  shows "reduce_stock env auth (served @ item # rest) s =
           (case reply_message reply of
              None \<Rightarrow> Thrown
            | Some message \<Rightarrow> Returned (stock_update_failed item message),
            s\<lparr>products := ps,
              events := events s @ map (\<lambda>it. StockAdjust (call_for auth it)) (served @ [item])\<rparr>)"
  using assms
proof (induction served arbitrary: s)
  case Nil
  then show ?case by (cases "reply_message reply") (simp_all add: Let_def)
next
  case (Cons x xs)
  obtain r1 p1 where put: "stock_PUT env (call_for auth x) (products s) = (r1, p1)"
    by (cases "stock_PUT env (call_for auth x) (products s)")
  let ?s' = "s\<lparr>products := p1, events := events s @ [StockAdjust (call_for auth x)]\<rparr>"
  from Cons.prems(1) put have ok: "reply_ok r1"
    and oks: "list_all reply_ok (stock_replies env (map (call_for auth) xs) (products ?s'))"
    by simp_all
  from Cons.prems(2) put
  have "stock_PUT env (call_for auth item)
          (after_calls env (map (call_for auth) xs) (products ?s')) = (reply, ps)"
    by simp
  from Cons.IH[OF oks this Cons.prems(3)] put ok show ?case by (simp add: Let_def)
qed

lemma validate_stock_continue:
  "fst (validate_stock env its s) = Continue () \<Longrightarrow> \<forall>it\<in>set its. check_item env s it = Continue ()"
proof (induction its arbitrary: s)
  case Nil
  show ?case by simp
next
  case (Cons x rest)
  show ?case
  proof (cases "check_item env s x")
    case (Continue u)
    with Cons.prems have "fst (validate_stock env rest (s\<lparr>events := events s @ [StockValidated x]\<rparr>)) = Continue ()"
      by simp
    from Cons.IH[OF this] Continue show ?thesis by simp
  next
    case Thrown
    with Cons.prems show ?thesis by simp
  next
    case (Returned r')
    with Cons.prems show ?thesis by simp
  qed
qed

lemma validate_stock_all:
  "\<forall>it\<in>set its. check_item env s it = Continue () \<Longrightarrow>
   validate_stock env its s = (Continue (), s\<lparr>events := events s @ map StockValidated its\<rparr>)"
  using validate_stock_passed[of its env s "[]"] by simp

lemma insert_items_frame [simp]:
  "events (insert_items orderId its s) = events s"
  "products (insert_items orderId its s) = products s"
  "orders (insert_items orderId its s) = orders s"
  by (induction its arbitrary: s) simp_all

text \<open>After a validation that passed, the response and state hang on the second loop.\<close>

lemma place_order_validated:
  assumes "\<forall>it\<in>set its. check_item env s it = Continue ()"
  shows "place_order env auth row its s =
     (case reduce_stock env auth its (s\<lparr>events := events s @ map StockValidated its\<rparr>) of
        (Thrown, s2) \<Rightarrow> (internal_server_error, s2)
      | (Returned r, s2) \<Rightarrow> (r, s2)
      | (Continue u, s2) \<Rightarrow>
          (let orderId = next_order_id s2;
               s3 = s2\<lparr>orders := orders s2 @ [row\<lparr>o_id := orderId\<rparr>],
                        next_order_id := Suc orderId\<rparr>;
               s4 = insert_items orderId its s3
           in (fetch_created env orderId s4, s4)))"
  by (simp add: place_order_def validate_stock_all[OF assms])

lemma place_order_events:
  "\<exists>new. events (snd (place_order env auth row its s)) = events s @ new \<and>
     ((\<exists>j. new = map StockValidated (take j its)) \<or>
      (\<forall>it\<in>set its. check_item env s it = Continue ()) \<and>
      (\<exists>k. new = map StockValidated its @ map (\<lambda>it. StockAdjust (call_for auth it)) (take k its)))"
proof (cases "fst (validate_stock env its s) = Continue ()")
  case False
  from validate_stock_effect[of env its s] obtain j where
    "snd (validate_stock env its s) = s\<lparr>events := events s @ map StockValidated (take j its)\<rparr>"
    by blast
  then have "events (snd (place_order env auth row its s)) = events s @ map StockValidated (take j its)"
    by (simp add: place_order_rejected[OF False])
  then show ?thesis by blast
next
  case True
  then have all: "\<forall>it\<in>set its. check_item env s it = Continue ()"
    by (rule validate_stock_continue)
  let ?s1 = "s\<lparr>events := events s @ map StockValidated its\<rparr>"
  from reduce_stock_effect[of its env auth ?s1] obtain k where
    k: "snd (reduce_stock env auth its ?s1) =
       ?s1\<lparr>products := after_calls env (map (call_for auth) (take k its)) (products ?s1),
           events := events ?s1 @ map (\<lambda>it. StockAdjust (call_for auth it)) (take k its)\<rparr>"
    by blast
  have "events (snd (place_order env auth row its s)) =
      events s @ map StockValidated its @ map (\<lambda>it. StockAdjust (call_for auth it)) (take k its)"
  proof (cases "reduce_stock env auth its ?s1")
    case (Pair st s2)
    with k have s2: "events s2 =
        events s @ map StockValidated its @ map (\<lambda>it. StockAdjust (call_for auth it)) (take k its)"
      by simp
    show ?thesis
      by (cases st) (simp_all add: place_order_validated[OF all] Pair Let_def s2)
  qed
  with all show ?thesis by blast
qed

lemma first_call_after_validation:
  assumes "pre @ StockAdjust c # post = map StockValidated xs @ B"
  shows "\<exists>mid. pre = map StockValidated xs @ mid"
proof -
  from assms consider u where "pre = map StockValidated xs @ u"
    | u where "pre @ u = map StockValidated xs" "StockAdjust c # post = u @ B"
    by (auto simp: append_eq_append_conv2)
  then show ?thesis
  proof cases
    case 1
    then show ?thesis by blast
  next
    case 2
    show ?thesis
    proof (cases u)
      case Nil
      with 2 show ?thesis by simp
    next
      case (Cons e es)
      with 2 have "StockAdjust c \<in> set (map StockValidated xs)"
        by (metis append_Cons in_set_conv_decomp list.inject)
      then show ?thesis by auto
    qed
  qed
qed

lemma example_env_variants [simp]:
  "jwt_verify example_env_unreadable_reply = jwt_verify example_env"
  "JSON_parse example_env_unreadable_reply = JSON_parse example_env"
  "to_number example_env_unreadable_reply = to_number example_env"
  "jwt_verify example_env_silent_reply = jwt_verify example_env"
  "JSON_parse example_env_silent_reply = JSON_parse example_env"
  "to_number example_env_silent_reply = to_number example_env"
  "stock_PUT example_env_unreadable_reply c ps = (\<lparr>reply_ok = False, reply_message = None\<rparr>, ps)"
  "stock_PUT example_env_silent_reply c ps = (\<lparr>reply_ok = False, reply_message = Some JUndefined\<rparr>, ps)"
  by (simp_all add: example_env_unreadable_reply_def example_env_silent_reply_def)

lemma example_check_passes:
  assumes "JSON_parse env = JSON_parse example_env" and "q \<le> 5"
  shows "check_item env example_shop (example_item\<lparr>i_quantity := q\<rparr>) = Continue ()"
  using assms
  by (simp add: check_item_def example_shop_def example_product_def example_item_def
      availableStock_def variants_of_def example_env_def optional_member_def js_or_def
      js_lt_num_def)

lemma example_user_any:
  "jwt_verify env = jwt_verify example_env \<Longrightarrow>
   getUserFromToken env (example_order_request b)
     = Some \<lparr>uid = ''alice'', user_email = ''a@b.com''\<rparr>"
  by (simp add: getUserFromToken_def example_env_def example_order_request_def)

lemma example_put_served:
  "stock_PUT example_env (call_for a (example_item\<lparr>i_quantity := 2\<rparr>)) [example_product]
     = (\<lparr>reply_ok = True, reply_message = None\<rparr>, [example_product\<lparr>p_stock_quantity := 3\<rparr>])"
  by (simp add: example_env_def call_for_def example_product_def example_item_def)

lemma example_put_refused:
  "stock_PUT example_env (call_for a (example_item\<lparr>i_quantity := 4\<rparr>))
       [example_product\<lparr>p_stock_quantity := 3\<rparr>]
     = (\<lparr>reply_ok = False, reply_message = Some (JStr ''Insufficient stock'')\<rparr>,
        [example_product\<lparr>p_stock_quantity := 3\<rparr>])"
  by (simp add: example_env_def call_for_def example_product_def example_item_def)

text \<open>The three parts for a request that has passed the token and required-field checks.\<close>

lemma stock_calls_after_checks:
  assumes "getUserFromToken env request = Some user"
      and "json_body request = Some b"
      and "items b = Some its"
      and "its \<noteq> []"
      and "\<not> falsy (total b)"
      and "\<not> falsy (customer_email b)"
  shows "(\<forall>pre c post.
            events (snd (orders_POST env request s)) = events s @ pre @ StockAdjust c # post \<longrightarrow>
            (\<forall>it\<in>set its. check_item env s it = Continue ()) \<and>
            (\<exists>mid. pre = map StockValidated its @ mid)) \<and>
         (\<forall>c. StockAdjust c \<in> set (events (snd (orders_POST env request s))) \<longrightarrow>
            StockAdjust c \<in> set (events s) \<or>
            (\<exists>it\<in>set its. c =
               \<lparr>sc_product_id = i_product_id it,
                sc_authorization = (case authorization request of None \<Rightarrow> [] | Some h \<Rightarrow> h),
                sc_color = i_color it, sc_size = i_size it, sc_quantity = i_quantity it\<rparr>)) \<and>
         (\<forall>served item rest reply ps.
            its = served @ item # rest \<and>
            (\<forall>it\<in>set its. check_item env s it = Continue ()) \<and>
            list_all reply_ok
              (stock_replies env (map (call_for (forwarded_authorization request)) served) (products s)) \<and>
            stock_PUT env (call_for (forwarded_authorization request) item)
              (after_calls env (map (call_for (forwarded_authorization request)) served) (products s))
              = (reply, ps) \<and>
            \<not> reply_ok reply \<longrightarrow>
            orders_POST env request s =
              (case reply_message reply of
                 None \<Rightarrow> internal_server_error
               | Some message \<Rightarrow>
                   Response 400 (JObj
                     [(''error'', JStr ''Stock update failed''),
                      (''message'', if falsy message
                                    then JStr (''Failed to update stock for '' @ i_product_name item)
                                    else message),
                      (''product'', JStr (i_product_name item))]),
               s\<lparr>products := ps,
                 events := events s @ map StockValidated its @
                   map (\<lambda>it. StockAdjust (call_for (forwarded_authorization request) it))
                     (served @ [item])\<rparr>))"
proof -
  let ?row = "(order_columns env (Some (uid user)) b)
                \<lparr>o_payment_screenshot := js_or (payment_screenshot b) JNull\<rparr>"
  let ?auth = "forwarded_authorization request"
  have post: "orders_POST env request s = place_order env ?auth ?row its s"
    using assms by (simp add: orders_POST_def)
  from place_order_events[of env ?auth ?row its s] obtain new where
    ev: "events (snd (orders_POST env request s)) = events s @ new"
    and new: "(\<exists>j. new = map StockValidated (take j its)) \<or>
      (\<forall>it\<in>set its. check_item env s it = Continue ()) \<and>
      (\<exists>k. new = map StockValidated its @ map (\<lambda>it. StockAdjust (call_for ?auth it)) (take k its))"
    unfolding post by blast
  have 1: "(\<forall>it\<in>set its. check_item env s it = Continue ()) \<and>
            (\<exists>mid. pre = map StockValidated its @ mid)"
    if "events (snd (orders_POST env request s)) = events s @ pre @ StockAdjust c # post"
    for pre c post
  proof -
    from that ev have eq: "pre @ StockAdjust c # post = new" by simp
    from new show ?thesis
    proof
      assume "\<exists>j. new = map StockValidated (take j its)"
      then obtain j where "new = map StockValidated (take j its)" by blast
      with eq have "StockAdjust c \<in> set (map StockValidated (take j its))"
        by (metis in_set_conv_decomp)
      then show ?thesis by auto
    next
      assume a: "(\<forall>it\<in>set its. check_item env s it = Continue ()) \<and>
        (\<exists>k. new = map StockValidated its @ map (\<lambda>it. StockAdjust (call_for ?auth it)) (take k its))"
      then obtain k where "pre @ StockAdjust c # post =
          map StockValidated its @ map (\<lambda>it. StockAdjust (call_for ?auth it)) (take k its)"
        using eq by auto
      from first_call_after_validation[OF this] a show ?thesis by blast
    qed
  qed
  have 2: "StockAdjust c \<in> set (events s) \<or>
            (\<exists>it\<in>set its. c =
               \<lparr>sc_product_id = i_product_id it,
                sc_authorization = (case authorization request of None \<Rightarrow> [] | Some h \<Rightarrow> h),
                sc_color = i_color it, sc_size = i_size it, sc_quantity = i_quantity it\<rparr>)"
    if "StockAdjust c \<in> set (events (snd (orders_POST env request s)))" for c
  proof -
    from that ev have "StockAdjust c \<in> set (events s) \<or> StockAdjust c \<in> set new" by auto
    then show ?thesis
    proof
      assume "StockAdjust c \<in> set new"
      with new have "\<exists>k. StockAdjust c \<in> set (map (\<lambda>it. StockAdjust (call_for ?auth it)) (take k its))"
      proof (elim disjE exE conjE)
        fix j assume "new = map StockValidated (take j its)" "StockAdjust c \<in> set new"
        then show ?thesis by auto
      next
        fix k assume "new = map StockValidated its @ map (\<lambda>it. StockAdjust (call_for ?auth it)) (take k its)"
          "StockAdjust c \<in> set new"
        then have "StockAdjust c \<in> set (map (\<lambda>it. StockAdjust (call_for ?auth it)) (take k its))"
          by auto
        then show ?thesis ..
      qed
      then obtain k it where "it \<in> set (take k its)" "c = call_for ?auth it" by auto
      then have "it \<in> set its" "c = \<lparr>sc_product_id = i_product_id it,
                sc_authorization = (case authorization request of None \<Rightarrow> [] | Some h \<Rightarrow> h),
                sc_color = i_color it, sc_size = i_size it, sc_quantity = i_quantity it\<rparr>"
        by (auto dest: in_set_takeD simp: call_for_def forwarded_authorization_def)
      then show ?thesis by blast
    qed simp
  qed
  have 3: "orders_POST env request s =
              (case reply_message reply of
                 None \<Rightarrow> internal_server_error
               | Some message \<Rightarrow>
                   Response 400 (JObj
                     [(''error'', JStr ''Stock update failed''),
                      (''message'', if falsy message
                                    then JStr (''Failed to update stock for '' @ i_product_name item)
                                    else message),
                      (''product'', JStr (i_product_name item))]),
               s\<lparr>products := ps,
                 events := events s @ map StockValidated its @
                   map (\<lambda>it. StockAdjust (call_for ?auth it)) (served @ [item])\<rparr>)"
    if h: "its = served @ item # rest \<and>
            (\<forall>it\<in>set its. check_item env s it = Continue ()) \<and>
            list_all reply_ok (stock_replies env (map (call_for ?auth) served) (products s)) \<and>
            stock_PUT env (call_for ?auth item)
              (after_calls env (map (call_for ?auth) served) (products s)) = (reply, ps) \<and>
            \<not> reply_ok reply"
    for served item rest reply ps
  proof -
    let ?s1 = "s\<lparr>events := events s @ map StockValidated its\<rparr>"
    from h have all: "\<forall>it\<in>set its. check_item env s it = Continue ()" by blast
    from h have "list_all reply_ok (stock_replies env (map (call_for ?auth) served) (products ?s1))"
      and "stock_PUT env (call_for ?auth item)
              (after_calls env (map (call_for ?auth) served) (products ?s1)) = (reply, ps)"
      and "\<not> reply_ok reply"
      by simp_all
    from reduce_stock_fails[OF this, of rest] h
    have "reduce_stock env ?auth its ?s1 =
           (case reply_message reply of
              None \<Rightarrow> Thrown
            | Some message \<Rightarrow> Returned (stock_update_failed item message),
            ?s1\<lparr>products := ps,
              events := events ?s1 @ map (\<lambda>it. StockAdjust (call_for ?auth it)) (served @ [item])\<rparr>)"
      by simp
    then show ?thesis
      by (cases "reply_message reply")
         (simp_all add: post place_order_validated[OF all] stock_update_failed_def js_or_def)
  qed
  from 1 2 3 show ?thesis by blast
qed

text \<open>
  C3, as the code has it. In every execution of POST (part_000) on a body with an items
  array:
  \<^item> every call of the stock-adjustment endpoint comes after the whole validation: when a
    call appears among the effects of the request, every item has passed the stock check,
    and the records of all of them precede the call;
  \<^item> every call carries the product id, colour, size and quantity of an item of the
    request and the request's Authorization header (the empty string when there is none);
  \<^item> once the token and the required fields are accepted: when the items before some item
    were served and the call for that item is answered non-OK, the request ends there,
    with 400 "Stock update failed" whose message is the message of the reply, or "Failed
    to update stock for <product>" when the reply has none or a falsy one, and with 500
    when the reply's body cannot be read as JSON. No order and no order item is inserted,
    and the products are as the calls made so far left them: nothing is rolled back.
\<close>

theorem stock_calls_follow_validation:
  assumes "json_body request = Some b"
      and "items b = Some its"
  shows "(\<forall>pre c post.
            events (snd (orders_POST env request s)) = events s @ pre @ StockAdjust c # post \<longrightarrow>
            (\<forall>it\<in>set its. check_item env s it = Continue ()) \<and>
            (\<exists>mid. pre = map StockValidated its @ mid)) \<and>
         (\<forall>c. StockAdjust c \<in> set (events (snd (orders_POST env request s))) \<longrightarrow>
            StockAdjust c \<in> set (events s) \<or>
            (\<exists>it\<in>set its. c =
               \<lparr>sc_product_id = i_product_id it,
                sc_authorization = (case authorization request of None \<Rightarrow> [] | Some h \<Rightarrow> h),
                sc_color = i_color it, sc_size = i_size it, sc_quantity = i_quantity it\<rparr>)) \<and>
         (getUserFromToken env request = Some user \<and>
          \<not> falsy (total b) \<and> \<not> falsy (customer_email b) \<longrightarrow>
         (\<forall>served item rest reply ps.
            its = served @ item # rest \<and>
            (\<forall>it\<in>set its. check_item env s it = Continue ()) \<and>
            list_all reply_ok
              (stock_replies env (map (call_for (forwarded_authorization request)) served) (products s)) \<and>
            stock_PUT env (call_for (forwarded_authorization request) item)
              (after_calls env (map (call_for (forwarded_authorization request)) served) (products s))
              = (reply, ps) \<and>
            \<not> reply_ok reply \<longrightarrow>
            orders_POST env request s =
              (case reply_message reply of
                 None \<Rightarrow> internal_server_error
               | Some message \<Rightarrow>
                   Response 400 (JObj
                     [(''error'', JStr ''Stock update failed''),
                      (''message'', if falsy message
                                    then JStr (''Failed to update stock for '' @ i_product_name item)
                                    else message),
                      (''product'', JStr (i_product_name item))]),
               s\<lparr>products := ps,
                 events := events s @ map StockValidated its @
                   map (\<lambda>it. StockAdjust (call_for (forwarded_authorization request) it))
                     (served @ [item])\<rparr>)))"
proof (cases "\<exists>u. getUserFromToken env request = Some u \<and> its \<noteq> [] \<and>
                \<not> falsy (total b) \<and> \<not> falsy (customer_email b)")
  case True
  then obtain u where u: "getUserFromToken env request = Some u" "its \<noteq> []"
    "\<not> falsy (total b)" "\<not> falsy (customer_email b)" by blast
  note r = stock_calls_after_checks[OF u(1) assms u(2-4), of s]
  from r show ?thesis by blast
next
  case False
  have early: "getUserFromToken env request = None \<or> json_body request = None \<or>
           (\<exists>b. json_body request = Some b \<and>
                (items b = None \<or> items b = Some [] \<or> falsy (total b) \<or> falsy (customer_email b)))"
    using False assms by (cases "getUserFromToken env request") auto
  from orders_POST_early[OF this, of s] have same: "snd (orders_POST env request s) = s" by blast
  have no_split: "its \<noteq> served @ item # rest" if "its = []" for served item rest
    using that by simp
  from False have "getUserFromToken env request = Some user \<and>
          \<not> falsy (total b) \<and> \<not> falsy (customer_email b) \<Longrightarrow> its = []"
    by blast
  with same show ?thesis by auto
qed

text \<open>
  As the claim states it, a non-OK reply always ends in a 400 that carries the
  collaborator's message. A reply whose body is not JSON ends in 500, and a reply without
  a message is answered with the fallback message.
\<close>

theorem failed_stock_call_counterexample:
  "check_item example_env_unreadable_reply example_shop example_item = Continue () \<and>
   reply_ok (fst (stock_PUT example_env_unreadable_reply
                    (call_for ''Bearer alice-token'' example_item) (products example_shop))) = False \<and>
   status (fst (orders_POST example_env_unreadable_reply
                  (example_order_request example_order_body) example_shop)) = 500 \<and>
   reply_message (fst (stock_PUT example_env_silent_reply
                    (call_for ''Bearer alice-token'' example_item) (products example_shop)))
     = Some JUndefined \<and>
   fst (orders_POST example_env_silent_reply
                  (example_order_request example_order_body) example_shop)
     = Response 400 (JObj [(''error'', JStr ''Stock update failed''),
                           (''message'', JStr ''Failed to update stock for Runner''),
                           (''product'', JStr ''Runner'')])"
proof -
  have it: "example_item = example_item\<lparr>i_quantity := 2\<rparr>"
    by (simp add: example_item_def)
  have c1: "check_item example_env_unreadable_reply example_shop example_item = Continue ()"
    by (subst it) (rule example_check_passes, simp_all)
  have c2: "check_item example_env_silent_reply example_shop example_item = Continue ()"
    by (subst it) (rule example_check_passes, simp_all)
  have b: "json_body (example_order_request example_order_body) = Some example_order_body"
    by (simp add: example_order_request_def)
  have f: "items example_order_body = Some [example_item]"
    "\<not> falsy (total example_order_body)" "\<not> falsy (customer_email example_order_body)"
    by (simp_all add: example_order_body_def)
  have a: "forwarded_authorization (example_order_request example_order_body) = ''Bearer alice-token''"
    by (simp add: forwarded_authorization_def example_order_request_def)
  have n: "i_product_name example_item = ''Runner''"
    by (simp add: example_item_def)
  have p1: "orders_POST example_env_unreadable_reply (example_order_request example_order_body) example_shop
      = place_order example_env_unreadable_reply ''Bearer alice-token''
          ((order_columns example_env_unreadable_reply (Some ''alice'') example_order_body)
             \<lparr>o_payment_screenshot := js_or (payment_screenshot example_order_body) JNull\<rparr>)
          [example_item] example_shop"
    using f(2,3) by (simp add: orders_POST_def example_user_any b f(1) a)
  have p2: "orders_POST example_env_silent_reply (example_order_request example_order_body) example_shop
      = place_order example_env_silent_reply ''Bearer alice-token''
          ((order_columns example_env_silent_reply (Some ''alice'') example_order_body)
             \<lparr>o_payment_screenshot := js_or (payment_screenshot example_order_body) JNull\<rparr>)
          [example_item] example_shop"
    using f(2,3) by (simp add: orders_POST_def example_user_any b f(1) a)
  have 1: "status (fst (orders_POST example_env_unreadable_reply
                  (example_order_request example_order_body) example_shop)) = 500"
    unfolding p1 using c1 by (subst place_order_validated) (simp_all add: Let_def)
  have 2: "fst (orders_POST example_env_silent_reply
                  (example_order_request example_order_body) example_shop)
     = Response 400 (JObj [(''error'', JStr ''Stock update failed''),
                           (''message'', JStr ''Failed to update stock for Runner''),
                           (''product'', JStr ''Runner'')])"
    unfolding p2 using c2
    by (subst place_order_validated) (simp_all add: Let_def stock_update_failed_def js_or_def n)
  from c1 1 2 show ?thesis by simp
qed

text \<open>
  Two and four units of a product with five: both pass the check, the first call takes
  two, the second is refused. The answer is 400 with the endpoint's message, no order
  exists, and the product is left with three.
\<close>

theorem stock_calls_follow_validation_witness:
  "getUserFromToken example_env (example_order_request example_order_two_items)
     = Some \<lparr>uid = ''alice'', user_email = ''a@b.com''\<rparr> \<and>
   json_body (example_order_request example_order_two_items) = Some example_order_two_items \<and>
   items example_order_two_items
     = Some [example_item\<lparr>i_quantity := 2\<rparr>, example_item\<lparr>i_quantity := 4\<rparr>] \<and>
   \<not> falsy (total example_order_two_items) \<and>
   \<not> falsy (customer_email example_order_two_items) \<and>
   check_item example_env example_shop (example_item\<lparr>i_quantity := 2\<rparr>) = Continue () \<and>
   check_item example_env example_shop (example_item\<lparr>i_quantity := 4\<rparr>) = Continue () \<and>
   orders_POST example_env (example_order_request example_order_two_items) example_shop =
     (Response 400 (JObj [(''error'', JStr ''Stock update failed''),
                          (''message'', JStr ''Insufficient stock''),
                          (''product'', JStr ''Runner'')]),
      example_shop
        \<lparr>products := [example_product\<lparr>p_stock_quantity := 3\<rparr>],
         events := [StockValidated (example_item\<lparr>i_quantity := 2\<rparr>),
                    StockValidated (example_item\<lparr>i_quantity := 4\<rparr>),
                    StockAdjust (call_for ''Bearer alice-token'' (example_item\<lparr>i_quantity := 2\<rparr>)),
                    StockAdjust (call_for ''Bearer alice-token'' (example_item\<lparr>i_quantity := 4\<rparr>))]\<rparr>)"
proof -
  let ?b = example_order_two_items
  let ?i2 = "example_item\<lparr>i_quantity := 2\<rparr>"
  let ?i4 = "example_item\<lparr>i_quantity := 4\<rparr>"
  let ?rq = "example_order_request ?b"
  have u: "getUserFromToken example_env ?rq = Some \<lparr>uid = ''alice'', user_email = ''a@b.com''\<rparr>"
    by (rule example_user_any) simp
  have b: "json_body ?rq = Some ?b"
    by (simp add: example_order_request_def)
  have i: "items ?b = Some [?i2, ?i4]"
    by (simp add: example_order_two_items_def)
  have ne: "[?i2, ?i4] \<noteq> []" by simp
  have t: "\<not> falsy (total ?b)" "\<not> falsy (customer_email ?b)"
    by (simp_all add: example_order_two_items_def example_order_body_def)
  have c2: "check_item example_env example_shop ?i2 = Continue ()"
    by (rule example_check_passes) simp_all
  have c4: "check_item example_env example_shop ?i4 = Continue ()"
    by (rule example_check_passes) simp_all
  have a: "forwarded_authorization ?rq = ''Bearer alice-token''"
    by (simp add: forwarded_authorization_def example_order_request_def)
  have ps: "products example_shop = [example_product]"
    by (simp add: example_shop_def)
  have ev: "events example_shop = []"
    by (simp add: example_shop_def)
  have n: "i_product_name ?i4 = ''Runner''"
    by (simp add: example_item_def)
  have h: "[?i2, ?i4] = [?i2] @ ?i4 # [] \<and>
      (\<forall>it\<in>set [?i2, ?i4]. check_item example_env example_shop it = Continue ()) \<and>
      list_all reply_ok (stock_replies example_env (map (call_for (forwarded_authorization ?rq)) [?i2])
         (products example_shop)) \<and>
      stock_PUT example_env (call_for (forwarded_authorization ?rq) ?i4)
         (after_calls example_env (map (call_for (forwarded_authorization ?rq)) [?i2])
            (products example_shop))
        = (\<lparr>reply_ok = False, reply_message = Some (JStr ''Insufficient stock'')\<rparr>,
           [example_product\<lparr>p_stock_quantity := 3\<rparr>]) \<and>
      \<not> reply_ok \<lparr>reply_ok = False, reply_message = Some (JStr ''Insufficient stock'')\<rparr>"
    by (simp add: c2 c4 a ps example_put_served example_put_refused)
  from stock_calls_follow_validation[OF b i, where env = example_env and s = example_shop
      and user = "\<lparr>uid = ''alice'', user_email = ''a@b.com''\<rparr>"] u t
  have "\<forall>served item rest reply ps.
            [?i2, ?i4] = served @ item # rest \<and>
            (\<forall>it\<in>set [?i2, ?i4]. check_item example_env example_shop it = Continue ()) \<and>
            list_all reply_ok
              (stock_replies example_env (map (call_for (forwarded_authorization ?rq)) served)
                 (products example_shop)) \<and>
            stock_PUT example_env (call_for (forwarded_authorization ?rq) item)
              (after_calls example_env (map (call_for (forwarded_authorization ?rq)) served)
                 (products example_shop))
              = (reply, ps) \<and>
            \<not> reply_ok reply \<longrightarrow>
            orders_POST example_env ?rq example_shop =
              (case reply_message reply of
                 None \<Rightarrow> internal_server_error
               | Some message \<Rightarrow>
                   Response 400 (JObj
                     [(''error'', JStr ''Stock update failed''),
                      (''message'', if falsy message
                                    then JStr (''Failed to update stock for '' @ i_product_name item)
                                    else message),
                      (''product'', JStr (i_product_name item))]),
               example_shop\<lparr>products := ps,
                 events := events example_shop @ map StockValidated [?i2, ?i4] @
                   map (\<lambda>it. StockAdjust (call_for (forwarded_authorization ?rq) it))
                     (served @ [item])\<rparr>)"
    by blast
  from this[rule_format, OF h]
  have r: "orders_POST example_env ?rq example_shop =
     (Response 400 (JObj [(''error'', JStr ''Stock update failed''),
                          (''message'', JStr ''Insufficient stock''),
                          (''product'', JStr ''Runner'')]),
      example_shop
        \<lparr>products := [example_product\<lparr>p_stock_quantity := 3\<rparr>],
         events := [StockValidated ?i2, StockValidated ?i4,
                    StockAdjust (call_for ''Bearer alice-token'' ?i2),
                    StockAdjust (call_for ''Bearer alice-token'' ?i4)]\<rparr>)"
    by (simp add: a ev n)
  from u b i t c2 c4 r show ?thesis by simp
qed

subsection \<open>Orders: a created order\<close>

lemma new_item_rows_length [simp]: "length (new_item_rows n k its) = length its"
  by (induction its arbitrary: k) simp_all

lemma new_item_rows_order [simp]:
  "filter (\<lambda>r. oi_order_id r = n) (new_item_rows n k its) = new_item_rows n k its"
  by (induction its arbitrary: k) simp_all

lemma insert_items_rows:
  "order_items (insert_items n its s) = order_items s @ new_item_rows n (next_item_id s) its"
  by (induction its arbitrary: s) simp_all

lemma insert_items_more [simp]:
  "next_order_id (insert_items n its s) = next_order_id s"
  "addresses (insert_items n its s) = addresses s"
  by (induction its arbitrary: s) simp_all

lemma reduce_stock_all_ok:
  "list_all reply_ok (stock_replies env (map (call_for auth) its) (products s)) \<Longrightarrow>
   reduce_stock env auth its s =
     (Continue (),
      s\<lparr>products := after_calls env (map (call_for auth) its) (products s),
        events := events s @ map (\<lambda>it. StockAdjust (call_for auth it)) its\<rparr>)"
proof (induction its arbitrary: s)
  case Nil
  show ?case by simp
next
  case (Cons item rest)
  obtain reply ps where put: "stock_PUT env (call_for auth item) (products s) = (reply, ps)"
    by (cases "stock_PUT env (call_for auth item) (products s)")
  let ?s' = "s\<lparr>products := ps, events := events s @ [StockAdjust (call_for auth item)]\<rparr>"
  from Cons.prems put have ok: "reply_ok reply"
    and oks: "list_all reply_ok (stock_replies env (map (call_for auth) rest) (products ?s'))"
    by simp_all
  from Cons.IH[OF oks] put ok show ?case by (simp add: Let_def)
qed

lemma reduce_stock_status:
  "fst (reduce_stock env auth its s) = Returned r \<Longrightarrow> status r = 400"
proof (induction its arbitrary: s)
  case Nil
  then show ?case by simp
next
  case (Cons item rest)
  obtain reply ps where put: "stock_PUT env (call_for auth item) (products s) = (reply, ps)"
    by (cases "stock_PUT env (call_for auth item) (products s)")
  show ?case
  proof (cases "reply_ok reply")
    case True
    with Cons.prems put have "fst (reduce_stock env auth rest
        (s\<lparr>products := ps, events := events s @ [StockAdjust (call_for auth item)]\<rparr>)) = Returned r"
      by (simp add: Let_def)
    then show ?thesis by (rule Cons.IH)
  next
    case False
    with Cons.prems put show ?thesis
      by (cases "reply_message reply") (auto simp: Let_def stock_update_failed_def)
  qed
qed

lemma insert_items_result:
  "insert_items n its s =
     s\<lparr>order_items := order_items s @ new_item_rows n (next_item_id s) its,
       next_item_id := next_item_id s + length its\<rparr>"
  by (induction its arbitrary: s) simp_all

lemma place_order_created:
  assumes "status (fst (place_order env auth row its s)) = 201"
  shows "place_order env auth row its s =
           (fetch_created env (next_order_id s) (order_placed env auth row its s),
            order_placed env auth row its s)"
proof (cases "fst (validate_stock env its s) = Continue ()")
  case False
  have "status (fst (place_order env auth row its s)) \<noteq> 201"
  proof (cases "fst (validate_stock env its s)")
    case Thrown
    then show ?thesis by (simp add: place_order_rejected[OF False])
  next
    case (Returned r)
    from validate_stock_returned[OF this] check_item_status have "status r = 400" by blast
    with Returned show ?thesis by (simp add: place_order_rejected[OF False])
  next
    case (Continue u)
    with False show ?thesis by simp
  qed
  with assms show ?thesis by simp
next
  case True
  then have all: "\<forall>it\<in>set its. check_item env s it = Continue ()"
    by (rule validate_stock_continue)
  let ?s1 = "s\<lparr>events := events s @ map StockValidated its\<rparr>"
  obtain st s2 where red: "reduce_stock env auth its ?s1 = (st, s2)"
    by (cases "reduce_stock env auth its ?s1")
  from reduce_stock_effect[of its env auth ?s1] red obtain k where
    k: "s2 = ?s1\<lparr>products := after_calls env (map (call_for auth) (take k its)) (products ?s1),
           events := events ?s1 @ map (\<lambda>it. StockAdjust (call_for auth it)) (take k its)\<rparr>"
    "st = Continue () \<longrightarrow> k = length its"
    by auto
  show ?thesis
  proof (cases st)
    case Thrown
    with assms red show ?thesis by (simp add: place_order_validated[OF all])
  next
    case (Returned r)
    with red reduce_stock_status[of env auth its ?s1 r] have "status r = 400" by simp
    with assms red Returned show ?thesis by (simp add: place_order_validated[OF all])
  next
    case (Continue u)
    with k have "s2 = ?s1\<lparr>products := after_calls env (map (call_for auth) its) (products ?s1),
           events := events ?s1 @ map (\<lambda>it. StockAdjust (call_for auth it)) its\<rparr>"
      by simp
    with red Continue show ?thesis
      by (simp add: place_order_validated[OF all] Let_def insert_items_result order_placed_def)
  qed
qed

lemma opt_prop_spread_set [simp]:
  "opt_prop (JObj (spread_set k v kvs)) k' = (if k' = k then v else opt_prop (JObj kvs) k')"
  by (simp add: opt_prop_def spread_set_def update_conv')

lemma opt_prop_number_field [simp]:
  "opt_prop (JObj (number_field env k kvs)) k' =
     (if k' = k then Number env (opt_prop (JObj kvs) k) else opt_prop (JObj kvs) k')"
  by (simp add: number_field_def)

lemma order_fields_props [simp]:
  "opt_prop (JObj (order_fields env row)) ''id'' = JNum (int (o_id row))"
  "opt_prop (JObj (order_fields env row)) ''shipping_address'' = text_js (o_shipping_address row)"
  "opt_prop (JObj (order_fields env row)) ''total_amount'' = db_decimal env (o_total_amount row)"
  by (simp_all add: order_fields_def opt_prop_def)

lemma listed_fields_props [simp]:
  "opt_prop (JObj (listed_fields env row)) ''id'' = JNum (int (o_id row))"
  "opt_prop (JObj (listed_fields env row)) ''shipping_address'' = text_js (o_shipping_address row)"
  by (simp_all add: listed_fields_def opt_prop_def)

lemma those_map_Some:
  "\<forall>x\<in>set xs. f x \<noteq> None \<Longrightarrow> those (map f xs) = Some (map (\<lambda>x. the (f x)) xs)"
  by (induction xs) auto

lemma order_with_items_props:
  assumes "parse_shipping env (o_shipping_address row) = Some address"
  shows "order_with_items env s row \<noteq> None"
    and "opt_prop (the (order_with_items env s row)) ''id'' = JNum (int (o_id row))"
    and "opt_prop (the (order_with_items env s row)) ''shipping_address'' = address"
  using assms by (simp_all add: order_with_items_def)

lemma fetch_created_placed:
  assumes "\<forall>r\<in>set (orders s). o_id r \<noteq> next_order_id s"
  shows "fetch_created env (next_order_id s) (order_placed env auth row its s) =
     (case parse_shipping env (o_shipping_address row) of
        None \<Rightarrow> internal_server_error
      | Some address \<Rightarrow>
          Response 201 (JObj
            (spread_set ''items''
               (JArr (map (\<lambda>r. JObj (order_item_fields env r))
                  (filter (\<lambda>r. oi_order_id r = next_order_id s) (order_items s) @
                   new_item_rows (next_order_id s) (next_item_id s) its)))
               (spread_set ''shipping_address'' address
                  (order_fields env (row\<lparr>o_id := next_order_id s\<rparr>))))))"
proof -
  from assms have "filter (\<lambda>r. o_id r = next_order_id s) (orders s) = []"
    by (auto simp: filter_empty_conv)
  then show ?thesis
    by (cases "parse_shipping env (o_shipping_address row)")
       (simp_all add: fetch_created_def order_placed_def)
qed

lemma place_order_success:
  assumes "\<forall>it\<in>set its. check_item env s it = Continue ()"
      and "list_all reply_ok (stock_replies env (map (call_for auth) its) (products s))"
  shows "place_order env auth row its s =
           (fetch_created env (next_order_id s) (order_placed env auth row its s),
            order_placed env auth row its s)"
proof -
  let ?s1 = "s\<lparr>events := events s @ map StockValidated its\<rparr>"
  from assms(2) have "list_all reply_ok (stock_replies env (map (call_for auth) its) (products ?s1))"
    by simp
  from reduce_stock_all_ok[OF this] show ?thesis
    by (simp add: place_order_validated[OF assms(1)] Let_def insert_items_result order_placed_def)
qed

lemma example_numbers:
  "int_to_string 1000 = ''1000''" "int_to_string 500 = ''500''" "int_to_string 0 = ''0''"
  by (simp_all add: int_to_string_def nat_to_string.simps digit_def)

lemma example_put_ok:
  "stock_PUT example_env (call_for a example_item) [example_product]
     = (\<lparr>reply_ok = True, reply_message = None\<rparr>, [example_product\<lparr>p_stock_quantity := 3\<rparr>])"
  by (simp add: example_env_def call_for_def example_product_def example_item_def)

lemma example_check:
  "check_item example_env example_shop example_item = Continue ()"
proof -
  have "example_item = example_item\<lparr>i_quantity := 2\<rparr>" by (simp add: example_item_def)
  then show ?thesis using example_check_passes[of example_env 2] by simp
qed

lemma example_shop_fields:
  "products example_shop = [example_product]" "orders example_shop = []"
  "order_items example_shop = []" "next_order_id example_shop = 1"
  "next_item_id example_shop = 1" "events example_shop = []"
  by (simp_all add: example_shop_def)

lemma example_codec:
  \<open>JSON_stringify example_env (JObj [(''city'', JStr ''Manila'')]) = ''{"city":"Manila"}''\<close>
  \<open>JSON_parse example_env ''{"city":"Manila"}'' = Some (JObj [(''city'', JStr ''Manila'')])\<close>
  by (simp_all add: example_env_def)

lemma example_placed:
  assumes "o_shipping_address row = Some (JSON_stringify example_env (JObj [(''city'', JStr ''Manila'')]))"
  shows "place_order example_env a row [example_item] example_shop =
     (Response 201 (JObj
        (spread_set ''items''
           (JArr (map (\<lambda>r. JObj (order_item_fields example_env r))
              (new_item_rows 1 1 [example_item])))
           (spread_set ''shipping_address'' (JObj [(''city'', JStr ''Manila'')])
              (order_fields example_env (row\<lparr>o_id := 1\<rparr>))))),
      order_placed example_env a row [example_item] example_shop)"
proof -
  have fresh: "\<forall>r\<in>set (orders example_shop). o_id r \<noteq> next_order_id example_shop"
    by (simp add: example_shop_fields)
  from assms have p: "parse_shipping example_env (o_shipping_address row)
      = Some (JObj [(''city'', JStr ''Manila'')])"
    by (simp add: parse_shipping_def example_codec)
  have P: "place_order example_env a row [example_item] example_shop =
      (fetch_created example_env (next_order_id example_shop)
         (order_placed example_env a row [example_item] example_shop),
       order_placed example_env a row [example_item] example_shop)"
    by (rule place_order_success) (simp_all add: example_check example_shop_fields example_put_ok)
  have F: "fetch_created example_env (next_order_id example_shop)
         (order_placed example_env a row [example_item] example_shop) =
      Response 201 (JObj
        (spread_set ''items''
           (JArr (map (\<lambda>r. JObj (order_item_fields example_env r))
              (filter (\<lambda>r. oi_order_id r = next_order_id example_shop) (order_items example_shop) @
               new_item_rows (next_order_id example_shop) (next_item_id example_shop) [example_item])))
           (spread_set ''shipping_address'' (JObj [(''city'', JStr ''Manila'')])
              (order_fields example_env (row\<lparr>o_id := next_order_id example_shop\<rparr>)))))"
    unfolding fetch_created_placed[OF fresh] p by simp
  show ?thesis unfolding P F by (simp only: example_shop_fields filter.simps append_Nil)
qed

text \<open>
  C6. When a POST (part_000) whose \<^verbatim>\<open>shipping_address\<close> is an object creates an order
  (201), the \<^verbatim>\<open>shipping_address\<close> of the response is that object, and in a later GET by
  the same caller the entry of the new order carries that object again: the address is
  stored as \<^verbatim>\<open>JSON.stringify\<close> of it and read back with \<^verbatim>\<open>JSON.parse\<close>. What is
  assumed of the JSON codec is its round trip on this object (the text is not empty and
  parses back to the object); of the database that the new id is not in use, and that
  the addresses stored with the caller's earlier orders parse, since GET parses them all.
\<close>

theorem shipping_address_round_trip:
  assumes user: "getUserFromToken env request = Some user"
      and body: "json_body request = Some b"
      and created: "status (fst (orders_POST env request s)) = 201"
      and object: "shipping_address b = JObj kvs"
      and codec: "JSON_stringify env (JObj kvs) \<noteq> [] \<and>
                  JSON_parse env (JSON_stringify env (JObj kvs)) = Some (JObj kvs)"
      and fresh: "\<forall>row\<in>set (orders s). o_id row \<noteq> next_order_id s"
      and later: "getUserFromToken env request' = Some user"
      and stored: "\<forall>row\<in>set (orders s). o_user_id row = Some (uid user) \<longrightarrow>
                     parse_shipping env (o_shipping_address row) \<noteq> None"
  shows "opt_prop (body (fst (orders_POST env request s))) ''shipping_address'' = JObj kvs \<and>
         (\<exists>listing.
            fst (orders_GET env request' (snd (orders_POST env request s)))
              = Response 200 (JArr listing) \<and>
            (\<exists>e\<in>set listing. opt_prop e ''id'' = JNum (int (next_order_id s))) \<and>
            (\<forall>e\<in>set listing. opt_prop e ''id'' = JNum (int (next_order_id s)) \<longrightarrow>
               opt_prop e ''shipping_address'' = JObj kvs))"
proof -
  let ?auth = "forwarded_authorization request"
  let ?row = "(order_columns env (Some (uid user)) b)
                \<lparr>o_payment_screenshot := js_or (payment_screenshot b) JNull\<rparr>"
  let ?n = "next_order_id s"
  let ?new = "?row\<lparr>o_id := ?n\<rparr>"
  obtain its where its: "items b = Some its" "its \<noteq> []" "\<not> falsy (total b)"
      "\<not> falsy (customer_email b)"
  proof (cases "items b")
    case None
    with user body created show ?thesis by (simp add: orders_POST_def)
  next
    case (Some its)
    show ?thesis
    proof (cases "its = []")
      case True
      with Some user body created show ?thesis by (simp add: orders_POST_def)
    next
      case False
      show ?thesis
      proof (cases "falsy (total b) \<or> falsy (customer_email b)")
        case True
        with Some False user body created show ?thesis by (simp add: orders_POST_def)
      next
        case neither: False
        with Some False that show ?thesis by blast
      qed
    qed
  qed
  let ?s' = "order_placed env ?auth ?row its s"
  have post: "orders_POST env request s = place_order env ?auth ?row its s"
    using user body its by (simp add: orders_POST_def)
  with created have placed: "orders_POST env request s = (fetch_created env ?n ?s', ?s')"
    using place_order_created[of env ?auth ?row its s] by simp
  have txt1: "o_shipping_address (order_columns env (Some (uid user)) b)
      = Some (JSON_stringify env (JObj kvs))"
    by (simp add: order_columns_def object js_or_def)
  have parsed0: "parse_shipping env (o_shipping_address (order_columns env (Some (uid user)) b))
      = Some (JObj kvs)"
    using codec by (simp add: txt1 parse_shipping_def)
  then have parsed: "parse_shipping env (o_shipping_address ?new) = Some (JObj kvs)"
    by simp
  have 1: "opt_prop (body (fst (orders_POST env request s))) ''shipping_address'' = JObj kvs"
    by (simp add: placed fetch_created_placed[OF fresh] parsed0)
  have rows: "orders ?s' = orders s @ [?new]"
    by (simp add: order_placed_def)
  have owner: "o_user_id ?new = Some (uid user)"
    by (simp add: order_columns_def)
  have new_id: "o_id ?new = ?n" by simp
  have mine: "set (orders_of (uid user) ?s') =
      {row \<in> set (orders s). o_user_id row = Some (uid user)} \<union> {?new}"
    using owner by (auto simp: orders_of_def rows)
  have ok: "\<forall>row\<in>set (orders_of (uid user) ?s'). order_with_items env ?s' row \<noteq> None"
  proof
    fix row assume "row \<in> set (orders_of (uid user) ?s')"
    with mine stored parsed
    obtain a where "parse_shipping env (o_shipping_address row) = Some a" by auto
    then show "order_with_items env ?s' row \<noteq> None" by (rule order_with_items_props)
  qed
  let ?listing = "map (\<lambda>row. the (order_with_items env ?s' row)) (orders_of (uid user) ?s')"
  have get: "fst (orders_GET env request' (snd (orders_POST env request s)))
      = Response 200 (JArr ?listing)"
    by (simp add: placed orders_GET_def later those_map_Some[OF ok])
  have 2: "\<exists>e\<in>set ?listing. opt_prop e ''id'' = JNum (int ?n)"
  proof -
    from mine have "?new \<in> set (orders_of (uid user) ?s')" by simp
    moreover have "opt_prop (the (order_with_items env ?s' ?new)) ''id'' = JNum (int (o_id ?new))"
      using parsed by (rule order_with_items_props)
    ultimately show ?thesis by (auto simp: image_iff intro!: bexI[of _ ?new])
  qed
  have 3: "\<forall>e\<in>set ?listing. opt_prop e ''id'' = JNum (int ?n) \<longrightarrow>
      opt_prop e ''shipping_address'' = JObj kvs"
  proof (intro ballI impI)
    fix e assume "e \<in> set ?listing" and i: "opt_prop e ''id'' = JNum (int ?n)"
    then obtain row where row: "row \<in> set (orders_of (uid user) ?s')"
      and e: "e = the (order_with_items env ?s' row)" by auto
    from row mine stored parsed
    obtain a where a: "parse_shipping env (o_shipping_address row) = Some a" by auto
    from order_with_items_props(2)[OF a, of ?s'] i e have "o_id row = ?n" by simp
    with row mine fresh have "row = ?new" by auto
    with a parsed have "a = JObj kvs" by simp
    with order_with_items_props(3)[OF a, of ?s'] e
    show "opt_prop e ''shipping_address'' = JObj kvs" by simp
  qed
  from 1 get 2 3 show ?thesis by blast
qed

text \<open>The order of the example is created and listed with its address.\<close>

theorem shipping_address_round_trip_witness:
  "getUserFromToken example_env (example_order_request example_order_body)
     = Some \<lparr>uid = ''alice'', user_email = ''a@b.com''\<rparr> \<and>
   json_body (example_order_request example_order_body) = Some example_order_body \<and>
   status (fst (orders_POST example_env (example_order_request example_order_body) example_shop))
     = 201 \<and>
   shipping_address example_order_body = JObj [(''city'', JStr ''Manila'')] \<and>
   JSON_stringify example_env (JObj [(''city'', JStr ''Manila'')]) \<noteq> [] \<and>
   JSON_parse example_env (JSON_stringify example_env (JObj [(''city'', JStr ''Manila'')]))
     = Some (JObj [(''city'', JStr ''Manila'')]) \<and>
   orders example_shop = [] \<and>
   opt_prop (body (fst (orders_POST example_env (example_order_request example_order_body)
                          example_shop))) ''shipping_address''
     = JObj [(''city'', JStr ''Manila'')] \<and>
   (\<exists>listing.
      fst (orders_GET example_env (example_order_request example_order_body)
             (snd (orders_POST example_env (example_order_request example_order_body)
                     example_shop)))
        = Response 200 (JArr listing) \<and>
      (\<exists>e\<in>set listing. opt_prop e ''id'' = JNum 1 \<and>
          opt_prop e ''shipping_address'' = JObj [(''city'', JStr ''Manila'')]))"
proof -
  let ?rq = "example_order_request example_order_body"
  let ?row = "(order_columns example_env (Some ''alice'') example_order_body)
      \<lparr>o_payment_screenshot := js_or (payment_screenshot example_order_body) JNull\<rparr>"
  have b: "json_body ?rq = Some example_order_body"
    by (simp add: example_order_request_def)
  have f: "items example_order_body = Some [example_item]"
    "\<not> falsy (total example_order_body)" "\<not> falsy (customer_email example_order_body)"
    by (simp_all add: example_order_body_def)
  have post: "orders_POST example_env ?rq example_shop
      = place_order example_env (forwarded_authorization ?rq) ?row [example_item] example_shop"
    using f(2,3) by (simp add: orders_POST_def example_user b f(1))
  have sh: "o_shipping_address ?row
      = Some (JSON_stringify example_env (JObj [(''city'', JStr ''Manila'')]))"
    by (simp add: order_columns_def example_order_body_def js_or_def)
  have c: "status (fst (orders_POST example_env ?rq example_shop)) = 201"
    unfolding post example_placed[OF sh] by simp
  have a: "shipping_address example_order_body = JObj [(''city'', JStr ''Manila'')]"
    by (simp add: example_order_body_def)
  have k: "JSON_stringify example_env (JObj [(''city'', JStr ''Manila'')]) \<noteq> [] \<and>
      JSON_parse example_env (JSON_stringify example_env (JObj [(''city'', JStr ''Manila'')]))
        = Some (JObj [(''city'', JStr ''Manila'')])"
    by (simp add: example_codec)
  have e: "orders example_shop = []" by (simp add: example_shop_fields)
  have fresh: "\<forall>row\<in>set (orders example_shop). o_id row \<noteq> next_order_id example_shop"
    by (simp add: e)
  have stored: "\<forall>row\<in>set (orders example_shop).
      o_user_id row = Some (uid \<lparr>uid = ''alice'', user_email = ''a@b.com''\<rparr>) \<longrightarrow>
      parse_shipping example_env (o_shipping_address row) \<noteq> None"
    by (simp add: e)
  note r = shipping_address_round_trip[OF example_user b c a k fresh example_user stored]
  from r obtain listing where l:
    "fst (orders_GET example_env ?rq (snd (orders_POST example_env ?rq example_shop)))
        = Response 200 (JArr listing)"
    "\<exists>e\<in>set listing. opt_prop e ''id'' = JNum (int (next_order_id example_shop))"
    "\<forall>e\<in>set listing. opt_prop e ''id'' = JNum (int (next_order_id example_shop)) \<longrightarrow>
        opt_prop e ''shipping_address'' = JObj [(''city'', JStr ''Manila'')]"
    by blast
  from l(2,3) have "\<exists>e\<in>set listing. opt_prop e ''id'' = JNum 1 \<and>
      opt_prop e ''shipping_address'' = JObj [(''city'', JStr ''Manila'')]"
    by (auto simp: example_shop_fields)
  with l(1) have g: "\<exists>listing.
      fst (orders_GET example_env ?rq (snd (orders_POST example_env ?rq example_shop)))
        = Response 200 (JArr listing) \<and>
      (\<exists>e\<in>set listing. opt_prop e ''id'' = JNum 1 \<and>
          opt_prop e ''shipping_address'' = JObj [(''city'', JStr ''Manila'')])"
    by blast
  from r have "opt_prop (body (fst (orders_POST example_env ?rq example_shop))) ''shipping_address''
     = JObj [(''city'', JStr ''Manila'')]" by blast
  with example_user[of example_order_body] b c a k e g show ?thesis by blast
qed

text \<open>
  C5, at the order of the example, with a driver that returns a DECIMAL column as text:
  the response is 201 and has one item for the one item of the request, but the rows are
  returned as they were read. \<^verbatim>\<open>total_amount\<close>, \<^verbatim>\<open>subtotal\<close> and the item's
  \<^verbatim>\<open>price\<close> are strings, and there is no \<^verbatim>\<open>total\<close>: POST does not apply the
  \<^verbatim>\<open>Number(...)\<close> that GET applies to the same columns.
\<close>

theorem created_order_is_not_coerced:
  "status (fst (orders_POST example_env (example_order_request example_order_body) example_shop))
     = 201 \<and>
   opt_prop (body (fst (orders_POST example_env (example_order_request example_order_body)
                          example_shop))) ''items''
     = JArr [JObj [(''id'', JNum 1), (''order_id'', JNum 1), (''product_id'', JNum 1),
                   (''quantity'', JNum 2), (''size'', JStr ''M''), (''color'', JStr ''red''),
                   (''price'', JStr ''500.00'')]] \<and>
   opt_prop (body (fst (orders_POST example_env (example_order_request example_order_body)
                          example_shop))) ''total_amount'' = JStr ''1000.00'' \<and>
   opt_prop (body (fst (orders_POST example_env (example_order_request example_order_body)
                          example_shop))) ''subtotal'' = JStr ''0.00'' \<and>
   opt_prop (body (fst (orders_POST example_env (example_order_request example_order_body)
                          example_shop))) ''total'' = JUndefined \<and>
   is_number (opt_prop (body (fst (orders_POST example_env (example_order_request example_order_body)
                          example_shop))) ''total_amount'') = False"
proof -
  let ?row = "(order_columns example_env (Some ''alice'') example_order_body)
      \<lparr>o_payment_screenshot := js_or (payment_screenshot example_order_body) JNull\<rparr>"
  have b: "json_body (example_order_request example_order_body) = Some example_order_body"
    by (simp add: example_order_request_def)
  have f: "items example_order_body = Some [example_item]"
    "\<not> falsy (total example_order_body)" "\<not> falsy (customer_email example_order_body)"
    by (simp_all add: example_order_body_def)
  have post: "orders_POST example_env (example_order_request example_order_body) example_shop
      = place_order example_env
          (forwarded_authorization (example_order_request example_order_body)) ?row
          [example_item] example_shop"
    using f(2,3) by (simp add: orders_POST_def example_user b f(1))
  have dec: "db_decimal example_env (JNum n) = JStr (int_to_string n @ ''.00'')"
    "db_int example_env v = v" for n v
    by (simp_all add: example_env_def)
  have row: "o_total_amount (order_columns example_env (Some ''alice'') example_order_body) = JNum 1000"
    "o_subtotal (order_columns example_env (Some ''alice'') example_order_body) = JNum 0"
    by (simp_all add: order_columns_def example_order_body_def js_or_def example_env_def
        example_defaults_def)
  have sh: "o_shipping_address ?row
      = Some (JSON_stringify example_env (JObj [(''city'', JStr ''Manila'')]))"
    by (simp add: order_columns_def example_order_body_def js_or_def)
  show ?thesis
    unfolding post example_placed[OF sh]
    by (simp add: order_item_fields_def order_fields_def opt_prop_def spread_set_def
          update_conv' dec row text_js_def example_numbers example_item_def or_null_def)
qed

text \<open>
  C2, at a request without an Authorization header: the token verifier gives null and
  the POST of part_000 answers 401, but the POST of route.ts never reads the token; it
  creates the order (201) for the user the body names.
\<close>

theorem unprotected_order_creation:
  "getUserFromToken example_env example_request_without_token = None \<and>
   orders_POST example_env example_request_without_token example_shop
     = (Response 401 (JObj [(''error'', JStr ''Unauthorized'')]), example_shop) \<and>
   status (fst (orders_POST_route_ts example_env example_request_without_token example_shop))
     = 201 \<and>
   map o_user_id (orders (snd (orders_POST_route_ts example_env example_request_without_token
                                 example_shop))) = [Some ''alice'']"
proof -
  let ?b = "example_order_body\<lparr>user_id := Some ''alice''\<rparr>"
  let ?row = "order_columns example_env (Some ''alice'') ?b"
  have u: "getUserFromToken example_env example_request_without_token = None"
    by (simp add: getUserFromToken_def example_request_without_token_def)
  have b: "json_body example_request_without_token = Some ?b"
    by (simp add: example_request_without_token_def)
  have f: "items ?b = Some [example_item]" "\<not> falsy (total ?b)" "\<not> falsy (customer_email ?b)"
    "user_id ?b = Some ''alice''"
    by (simp_all add: example_order_body_def)
  have post: "orders_POST_route_ts example_env example_request_without_token example_shop
      = place_order example_env (forwarded_authorization example_request_without_token) ?row
          [example_item] example_shop"
    using f(2,3) by (simp add: orders_POST_route_ts_def b f(1,4) or_null_def)
  have sh: "o_shipping_address ?row
      = Some (JSON_stringify example_env (JObj [(''city'', JStr ''Manila'')]))"
    by (simp add: order_columns_def example_order_body_def js_or_def)
  have own: "o_user_id ?row = Some ''alice''"
    by (simp add: order_columns_def)
  have 1: "orders_POST example_env example_request_without_token example_shop
     = (Response 401 (JObj [(''error'', JStr ''Unauthorized'')]), example_shop)"
    by (simp add: orders_POST_def u unauthorized_def error_body_def)
  have 2: "status (fst (orders_POST_route_ts example_env example_request_without_token example_shop))
     = 201"
    unfolding post example_placed[OF sh] by simp
  have 3: "map o_user_id (orders (snd (orders_POST_route_ts example_env example_request_without_token
                                 example_shop))) = [Some ''alice'']"
    unfolding post example_placed[OF sh]
    by (simp add: order_placed_def example_shop_fields own)
  from u 1 2 3 show ?thesis by simp
qed

subsection \<open>Orders: names that objects inherit\<close>

text \<open>
  C8, at a product whose stored variants text is cut short, and an item of colour
  "constructor" and size "name" that asks for two units. The text does not parse and the
  variants are the empty object, but the available stock is not 0: the read
  \<^verbatim>\<open>variants["constructor"]\<close> finds the function \<^verbatim>\<open>Object\<close> that every object inherits,
  and \<^verbatim>\<open>?.["name"]\<close> its name, the string "Object". The comparison
  \<^verbatim>\<open>"Object" < 2\<close> is false, so the item passes the check with a quantity above 0, and
  the order is created (201) once the stock endpoint serves the call. With the size
  "length" the available stock is 1.
\<close>

theorem unparsable_variants_read_inherited_names:
  \<open>JSON_parse example_env ''{"red":'' = None \<and>
   variants_of example_env (example_product\<lparr>p_variants := Some ''{"red":''\<rparr>) = JObj [] \<and>
   i_quantity example_item_inherited = 2 \<and>
   availableStock example_env (example_product\<lparr>p_variants := Some ''{"red":''\<rparr>)
     example_item_inherited = Some (JStr ''Object'') \<and>
   availableStock example_env (example_product\<lparr>p_variants := Some ''{"red":''\<rparr>)
     (example_item_inherited\<lparr>i_size := ''length''\<rparr>) = Some (JNum 1) \<and>
   check_item example_env example_shop_corrupt example_item_inherited = Continue () \<and>
   status (fst (orders_POST example_env
                  (example_order_request (example_order_body\<lparr>items := Some [example_item_inherited]\<rparr>))
                  example_shop_corrupt)) = 201 \<and>
   map oi_color (order_items (snd (orders_POST example_env
                  (example_order_request (example_order_body\<lparr>items := Some [example_item_inherited]\<rparr>))
                  example_shop_corrupt))) = [Some ''constructor'']\<close>
proof -
  let ?p = \<open>example_product\<lparr>p_variants := Some ''{"red":''\<rparr>\<close>
  let ?b = "example_order_body\<lparr>items := Some [example_item_inherited]\<rparr>"
  let ?rq = "example_order_request ?b"
  let ?row = "(order_columns example_env (Some ''alice'') ?b)
      \<lparr>o_payment_screenshot := js_or (payment_screenshot ?b) JNull\<rparr>"
  have j: \<open>JSON_parse example_env ''{"red":'' = None\<close>
    by (simp add: example_env_def)
  have q: "i_quantity example_item_inherited = 2"
    by (simp add: example_item_inherited_def example_item_def)
  have a: "availableStock example_env ?p example_item_inherited = Some (JStr ''Object'')"
    by (simp add: availableStock_def example_corrupt_variants example_item_inherited_def
        example_runtime example_runtime_get_def object_prototype_methods_def
        optional_member_def js_or_def)
  have l: "availableStock example_env ?p (example_item_inherited\<lparr>i_size := ''length''\<rparr>)
      = Some (JNum 1)"
    by (simp add: availableStock_def example_corrupt_variants example_item_inherited_def
        example_runtime example_runtime_get_def object_prototype_methods_def
        optional_member_def js_or_def)
  have f: "filter (\<lambda>p. p_id p = i_product_id example_item_inherited) (products example_shop_corrupt)
      = [?p]"
    by (simp add: example_shop_corrupt_def example_product_def example_item_inherited_def
        example_item_def)
  have c: "check_item example_env example_shop_corrupt example_item_inherited = Continue ()"
    by (simp add: check_item_def f a js_lt_num_def example_runtime)
  have ps: "products example_shop_corrupt = [?p]"
    by (simp add: example_shop_corrupt_def)
  have pk: "stock_PUT example_env (call_for h example_item_inherited) [?p]
      = (\<lparr>reply_ok = True, reply_message = None\<rparr>, [?p\<lparr>p_stock_quantity := 3\<rparr>])" for h
    by (simp add: example_env_def call_for_def example_product_def example_item_inherited_def
        example_item_def)
  have put: "list_all reply_ok (stock_replies example_env
      (map (call_for (forwarded_authorization ?rq)) [example_item_inherited])
      (products example_shop_corrupt))"
    by (simp add: ps pk)
  have b: "json_body ?rq = Some ?b"
    by (simp add: example_order_request_def)
  have t: "\<not> falsy (total ?b)" "\<not> falsy (customer_email ?b)"
    by (simp_all add: example_order_body_def)
  have post: "orders_POST example_env ?rq example_shop_corrupt
      = place_order example_env (forwarded_authorization ?rq) ?row
          [example_item_inherited] example_shop_corrupt"
    using t by (simp add: orders_POST_def example_user b)
  have placed: "place_order example_env (forwarded_authorization ?rq) ?row
          [example_item_inherited] example_shop_corrupt
      = (fetch_created example_env (next_order_id example_shop_corrupt)
           (order_placed example_env (forwarded_authorization ?rq) ?row
              [example_item_inherited] example_shop_corrupt),
         order_placed example_env (forwarded_authorization ?rq) ?row
              [example_item_inherited] example_shop_corrupt)"
    by (rule place_order_success[OF _ put]) (simp add: c)
  have fresh: "\<forall>r\<in>set (orders example_shop_corrupt). o_id r \<noteq> next_order_id example_shop_corrupt"
    by (simp add: example_shop_corrupt_def example_shop_def)
  have sh: "parse_shipping example_env (o_shipping_address ?row)
      = Some (JObj [(''city'', JStr ''Manila'')])"
    by (simp add: order_columns_def example_order_body_def js_or_def parse_shipping_def
        example_codec)
  have s1: "status (fst (orders_POST example_env ?rq example_shop_corrupt)) = 201"
    unfolding post placed fst_conv fetch_created_placed[OF fresh] sh by simp
  have s2: "map oi_color (order_items (snd (orders_POST example_env ?rq example_shop_corrupt)))
      = [Some ''constructor'']"
    unfolding post placed snd_conv
    by (simp add: order_placed_def example_shop_corrupt_def example_shop_def
        example_item_inherited_def example_item_def or_null_def)
  from j example_corrupt_variants q a l c s1 s2 show ?thesis by simp
qed

text \<open>
  The same read on variants that parse: for the product with five units of red/M, the
  size "valueOf" is no entry of the mapping, but the read finds the method that objects
  inherit. A function is truthy and converts to NaN, so the comparison with the quantity
  is false and an item of three units passes the check.
\<close>

theorem inherited_size_passes_parsed_variants:
  "availableStock example_env example_product (example_item\<lparr>i_size := ''valueOf'', i_quantity := 3\<rparr>)
     = Some (JBuiltin ''Object.prototype.valueOf'') \<and>
   check_item example_env example_shop (example_item\<lparr>i_size := ''valueOf'', i_quantity := 3\<rparr>)
     = Continue ()"
proof -
  let ?it = "example_item\<lparr>i_size := ''valueOf'', i_quantity := 3\<rparr>"
  have v: "variants_of example_env example_product = JObj [(''red'', JObj [(''M'', JNum 5)])]"
    by (simp add: variants_of_def example_product_def example_env_def)
  have a: "availableStock example_env example_product ?it
      = Some (JBuiltin ''Object.prototype.valueOf'')"
    by (simp add: availableStock_def v example_item_def example_runtime
        example_runtime_get_def object_prototype_methods_def
        optional_member_def js_or_def)
  have f: "filter (\<lambda>p. p_id p = i_product_id example_item) (products example_shop)
      = [example_product]"
    by (simp add: example_shop_def example_product_def example_item_def)
  have c: "check_item example_env example_shop ?it = Continue ()"
    by (simp add: check_item_def f a js_lt_num_def example_runtime)
  from a c show ?thesis by simp
qed

subsection \<open>Further properties of the handlers\<close>

lemma rejected_credential_None:
  "rejected_credential env (authorization request) \<Longrightarrow> getUserFromToken env request = None"
  by (cases "authorization request")
     (auto simp: rejected_credential_def getUserFromToken_def split: if_splits)

text \<open>
  Every handler that reads the token answers a request without a valid bearer credential
  with 401 and \<^verbatim>\<open>{error: "Unauthorized"}\<close>, and leaves the database as it was: the
  three order handlers of part_000, GET and PUT of route.ts, and the four address
  handlers.
\<close>

theorem requests_without_credential_get_401:
  assumes "rejected_credential env header"
  shows "(\<forall>r :: order_body request. authorization r = header \<longrightarrow>
            getUserFromToken env r = None \<and>
            orders_POST env r s = (Response 401 (JObj [(''error'', JStr ''Unauthorized'')]), s) \<and>
            orders_GET env r s = (Response 401 (JObj [(''error'', JStr ''Unauthorized'')]), s) \<and>
            orders_GET_route_ts env r s
              = (Response 401 (JObj [(''error'', JStr ''Unauthorized'')]), s)) \<and>
         (\<forall>r :: status_body request. authorization r = header \<longrightarrow>
            orders_PUT env r s = (Response 401 (JObj [(''error'', JStr ''Unauthorized'')]), s)) \<and>
         (\<forall>r :: address_body request. authorization r = header \<longrightarrow>
            addresses_GET env r s = (Response 401 (JObj [(''error'', JStr ''Unauthorized'')]), s) \<and>
            addresses_POST env r s = (Response 401 (JObj [(''error'', JStr ''Unauthorized'')]), s) \<and>
            addresses_PUT env r s = (Response 401 (JObj [(''error'', JStr ''Unauthorized'')]), s) \<and>
            addresses_DELETE env r s
              = (Response 401 (JObj [(''error'', JStr ''Unauthorized'')]), s))"
proof -
  have n: "getUserFromToken env r = None" if "authorization r = header" for r :: "'b request"
    using assms that rejected_credential_None[of env r] by simp
  show ?thesis
    by (simp add: n orders_POST_def orders_GET_def orders_GET_route_ts_def orders_PUT_def
        addresses_GET_def addresses_POST_def addresses_PUT_def addresses_DELETE_def
        unauthorized_def error_body_def)
qed

text \<open>A forged token, a header without the prefix, and no header.\<close>

theorem requests_without_credential_get_401_witness:
  "rejected_credential example_env (Some ''Bearer forged'') \<and>
   rejected_credential example_env (Some ''alice-token'') \<and>
   rejected_credential example_env None \<and>
   orders_PUT example_env (example_status_request ''forged'') example_orders
     = (Response 401 (JObj [(''error'', JStr ''Unauthorized'')]), example_orders)"
proof -
  have 1: "rejected_credential example_env (Some ''Bearer forged'')"
    "rejected_credential example_env (Some ''alice-token'')"
    "rejected_credential example_env None"
    by (simp_all add: rejected_credential_def example_env_def)
  have a: "authorization (example_status_request ''forged'') = Some ''Bearer forged''"
    by (simp add: example_status_request_def)
  from requests_without_credential_get_401[OF 1(1), of example_orders] a 1
  show ?thesis by simp
qed

lemma keep_unowned:
  "filter P xs = [] \<Longrightarrow> filter (\<lambda>x. \<not> P x) xs = xs"
  by (induction xs) (auto split: if_splits)

text \<open>
  Deleting an address id that is no row of the caller (it does not exist, or belongs to
  another user) is answered with 404, and the addresses are unchanged.
\<close>

theorem deleting_a_missing_address:
  assumes "getUserFromToken env request = Some user"
      and "searchParams_id request = Some i"
      and "i \<noteq> []"
      and "filter (owned_address env (uid user) (JStr i)) (addresses s) = []"
  shows "addresses_DELETE env request s
           = (Response 404 (JObj [(''error'', JStr ''Address not found or unauthorized'')]), s)"
  using assms
  by (simp add: addresses_DELETE_def Let_def keep_unowned error_body_def)

theorem deleting_a_missing_address_witness:
  "getUserFromToken example_env example_delete_request
     = Some \<lparr>uid = ''alice'', user_email = ''a@b.com''\<rparr> \<and>
   searchParams_id example_delete_request = Some ''3'' \<and> ''3'' \<noteq> [] \<and>
   map a_user_id (addresses example_addresses) = [''alice'', ''alice'', ''bob''] \<and>
   addresses_DELETE example_env example_delete_request example_addresses
     = (Response 404 (JObj [(''error'', JStr ''Address not found or unauthorized'')]),
        example_addresses)"
proof -
  have u: "getUserFromToken example_env example_delete_request
     = Some \<lparr>uid = ''alice'', user_email = ''a@b.com''\<rparr>"
    by (simp add: getUserFromToken_def example_env_def example_delete_request_def)
  have q: "searchParams_id example_delete_request = Some ''3''"
    by (simp add: example_delete_request_def)
  have n: "''3'' \<noteq> []" by simp
  have m: "map a_user_id (addresses example_addresses) = [''alice'', ''alice'', ''bob'']"
    by (simp add: example_addresses_def example_address_def blank_address_def)
  have k: "sql_key example_env (JStr ''3'') = Some 3"
    by (simp add: example_env_def)
  have e: "filter (owned_address example_env (uid \<lparr>uid = ''alice'', user_email = ''a@b.com''\<rparr>)
      (JStr ''3'')) (addresses example_addresses) = []"
    by (simp add: owned_address_def k example_addresses_def example_address_def blank_address_def)
  from deleting_a_missing_address[OF u q n e] u q n m show ?thesis by simp
qed

lemma Number_is_number [simp]: "is_number (Number env v)"
  by (cases v) (simp_all split: option.splits)

lemma those_map_member:
  "those (map f xs) = Some ys \<Longrightarrow> y \<in> set ys \<Longrightarrow> \<exists>x\<in>set xs. f x = Some y"
proof (induction xs arbitrary: ys)
  case Nil
  then show ?case by simp
next
  case (Cons x xs)
  then show ?case
    by (cases "f x"; cases "those (map f xs)") auto
qed

lemma processed_item_numbers:
  "is_number (opt_prop (processed_item env item) ''quantity'') \<and>
   is_number (opt_prop (processed_item env item) ''price'')"
  by (simp add: processed_item_def)

lemma listed_fields_amounts:
  "opt_prop (JObj (listed_fields env row)) ''total'' = db_decimal env (o_total_amount row)"
  "opt_prop (JObj (listed_fields env row)) ''subtotal'' = db_decimal env (o_subtotal row)"
  by (simp_all add: listed_fields_def opt_prop_def)

lemma joined_item_fields_amounts:
  "opt_prop (JObj (joined_item_fields env r p)) ''price'' = db_decimal env (JNum (oi_price r))"
  "opt_prop (JObj (joined_item_fields env r p)) ''quantity'' = db_int env (JNum (oi_quantity r))"
  by (simp_all add: joined_item_fields_def opt_prop_def)

lemma processed_item_props:
  "opt_prop (processed_item env item) ''price'' = Number env (opt_prop (JObj item) ''price'')"
  "opt_prop (processed_item env item) ''quantity'' = Number env (opt_prop (JObj item) ''quantity'')"
  by (simp_all add: processed_item_def)

text \<open>
  In every order that GET (part_000) lists, the five amounts are numbers, and so are the
  quantity and the price of every item: GET converts them with \<^verbatim>\<open>Number(...)\<close>
  whatever the driver returned.
\<close>

theorem listed_orders_carry_numbers:
  assumes "fst (orders_GET env request s) = Response 200 (JArr listing)"
      and "e \<in> set listing"
  shows "is_number (opt_prop e ''subtotal'') \<and>
         is_number (opt_prop e ''tax_amount'') \<and>
         is_number (opt_prop e ''shipping_amount'') \<and>
         is_number (opt_prop e ''discount_amount'') \<and>
         is_number (opt_prop e ''total'') \<and>
         (\<exists>xs. opt_prop e ''items'' = JArr xs \<and>
            (\<forall>i\<in>set xs. is_number (opt_prop i ''quantity'') \<and>
                         is_number (opt_prop i ''price'')))"
proof -
  obtain user where user: "getUserFromToken env request = Some user"
    using assms(1) by (cases "getUserFromToken env request") (simp_all add: orders_GET_def unauthorized_def)
  have "those (map (order_with_items env s) (orders_of (uid user) s)) = Some listing"
    using assms(1) user
    by (cases "those (map (order_with_items env s) (orders_of (uid user) s))")
       (simp_all add: orders_GET_def internal_server_error_def)
  from those_map_member[OF this assms(2)]
  obtain row where row: "order_with_items env s row = Some e" by blast
  then obtain address where "parse_shipping env (o_shipping_address row) = Some address"
    by (cases "parse_shipping env (o_shipping_address row)") (simp_all add: order_with_items_def)
  with row show ?thesis
    by (auto simp: order_with_items_def processed_item_numbers)
qed

text \<open>The stored order of the example, read through a driver that returns text.\<close>

theorem listed_orders_carry_numbers_witness:
  "\<exists>e. fst (orders_GET example_env (example_status_request ''alice-token'') example_orders)
          = Response 200 (JArr [e]) \<and>
        e \<in> set [e] \<and>
        opt_prop e ''total'' = JNum 1000 \<and>
        is_number (opt_prop e ''total'') \<and>
        is_number (opt_prop e ''subtotal'') \<and>
        (\<exists>i. opt_prop e ''items'' = JArr [i] \<and> opt_prop i ''price'' = JNum 500 \<and>
             opt_prop i ''quantity'' = JNum 2)"
proof -
  let ?rq = "example_status_request ''alice-token''"
  have u: "getUserFromToken example_env ?rq = Some \<lparr>uid = ''alice'', user_email = ''a@b.com''\<rparr>"
    by (simp add: getUserFromToken_def example_env_def example_status_request_def)
  have mine: "orders_of ''alice'' example_orders = [example_order]"
    by (simp add: orders_of_def example_orders_def example_order_def)
  have p: "parse_shipping example_env (o_shipping_address example_order)
      = Some (JObj [(''city'', JStr ''Manila'')])"
    by (simp add: parse_shipping_def example_order_def example_env_def)
  have dec: "db_decimal example_env (JNum n) = JStr (int_to_string n @ ''.00'')"
    "db_int example_env v = v" for n v
    by (simp_all add: example_env_def)
  have num: "to_number example_env (JStr ''1000.00'') = Some 1000"
    "to_number example_env (JStr ''500.00'') = Some 500"
    "to_number example_env (JStr ''0.00'') = Some 0"
    by (simp_all add: example_env_def)
  have numbers: "int_to_string 1000 = ''1000''" "int_to_string 500 = ''500''" "int_to_string 0 = ''0''"
    by (simp_all add: int_to_string_def nat_to_string.simps digit_def)
  obtain e where e: "order_with_items example_env example_orders example_order = Some e"
    by (simp add: order_with_items_def p)
  then have get: "fst (orders_GET example_env ?rq example_orders) = Response 200 (JArr [e])"
    by (simp add: orders_GET_def u mine)
  have amounts: "o_total_amount example_order = JNum 1000" "o_subtotal example_order = JNum 0"
    "o_id example_order = 1"
    by (simp_all add: example_order_def example_defaults_def)
  from e have total: "opt_prop e ''total'' = JNum 1000"
    by (auto simp: order_with_items_def p listed_fields_amounts dec amounts numbers num)
  have rows: "filter (\<lambda>r. oi_order_id r = Suc 0) (order_items example_orders) =
      [\<lparr>oi_id = 1, oi_order_id = 1, oi_product_id = 1, oi_quantity = 2,
        oi_size = Some ''M'', oi_color = Some ''red'', oi_price = 500\<rparr>]"
    "filter (\<lambda>p. p_id p = Suc 0) (products example_orders) = [example_product]"
    by (simp_all add: example_orders_def example_product_def)
  from e have items: "\<exists>i. opt_prop e ''items'' = JArr [i] \<and> opt_prop i ''price'' = JNum 500 \<and>
             opt_prop i ''quantity'' = JNum 2"
    by (auto simp: order_with_items_def p amounts rows processed_item_props
        joined_item_fields_amounts dec numbers num)
  from listed_orders_carry_numbers[OF get, of e] get total items show ?thesis by auto
qed

text \<open>
  A POST (part_000) that passes the token and required-field checks, all of whose items
  pass the stock check and all of whose stock calls are answered OK, answers 201 with as
  many items as the request has, and inserts one order and one row per item. The stored
  address text has to parse, and the new order id has to be unused in both tables.
\<close>

theorem sufficient_stock_creates_order:
  assumes user: "getUserFromToken env request = Some user"
      and body: "json_body request = Some b"
      and its: "items b = Some its" "its \<noteq> []"
      and required: "\<not> falsy (total b)" "\<not> falsy (customer_email b)"
      and stock: "\<forall>it\<in>set its. check_item env s it = Continue ()"
      and calls: "list_all reply_ok
                    (stock_replies env (map (call_for (forwarded_authorization request)) its)
                       (products s))"
      and codec: "parse_shipping env
                    (Some (JSON_stringify env (js_or (shipping_address b) (JObj [])))) = Some address"
      and fresh: "\<forall>row\<in>set (orders s). o_id row \<noteq> next_order_id s"
      and unused: "\<forall>r\<in>set (order_items s). oi_order_id r \<noteq> next_order_id s"
  shows "status (fst (orders_POST env request s)) = 201 \<and>
         (\<exists>xs. opt_prop (body (fst (orders_POST env request s))) ''items'' = JArr xs \<and>
               length xs = length its) \<and>
         length (orders (snd (orders_POST env request s))) = Suc (length (orders s)) \<and>
         length (order_items (snd (orders_POST env request s)))
           = length (order_items s) + length its"
proof -
  let ?auth = "forwarded_authorization request"
  let ?row = "(order_columns env (Some (uid user)) b)
                \<lparr>o_payment_screenshot := js_or (payment_screenshot b) JNull\<rparr>"
  have post: "orders_POST env request s = place_order env ?auth ?row its s"
    using user body its required by (simp add: orders_POST_def)
  note placed = place_order_success[OF stock calls, of ?row]
  have p: "parse_shipping env (o_shipping_address (order_columns env (Some (uid user)) b))
      = Some address"
    using codec by (simp add: order_columns_def)
  from unused have none: "filter (\<lambda>r. oi_order_id r = next_order_id s) (order_items s) = []"
    by (auto simp: filter_empty_conv)
  have r: "fst (orders_POST env request s) =
      Response 201 (JObj
        (spread_set ''items''
           (JArr (map (\<lambda>r. JObj (order_item_fields env r))
              (new_item_rows (next_order_id s) (next_item_id s) its)))
           (spread_set ''shipping_address'' address
              (order_fields env (?row\<lparr>o_id := next_order_id s\<rparr>)))))"
    by (simp add: post placed fetch_created_placed[OF fresh] p none)
  have s': "snd (orders_POST env request s) = order_placed env ?auth ?row its s"
    by (simp add: post placed)
  show ?thesis
    by (simp add: r s' order_placed_def)
qed

theorem sufficient_stock_creates_order_witness:
  "getUserFromToken example_env (example_order_request example_order_body)
     = Some \<lparr>uid = ''alice'', user_email = ''a@b.com''\<rparr> \<and>
   json_body (example_order_request example_order_body) = Some example_order_body \<and>
   items example_order_body = Some [example_item] \<and>
   check_item example_env example_shop example_item = Continue () \<and>
   orders example_shop = [] \<and> order_items example_shop = [] \<and>
   status (fst (orders_POST example_env (example_order_request example_order_body) example_shop))
     = 201 \<and>
   length (orders (snd (orders_POST example_env (example_order_request example_order_body)
                          example_shop))) = 1 \<and>
   length (order_items (snd (orders_POST example_env (example_order_request example_order_body)
                          example_shop))) = 1"
proof -
  let ?rq = "example_order_request example_order_body"
  have b: "json_body ?rq = Some example_order_body"
    by (simp add: example_order_request_def)
  have f: "items example_order_body = Some [example_item]" "[example_item] \<noteq> []"
    "\<not> falsy (total example_order_body)" "\<not> falsy (customer_email example_order_body)"
    by (simp_all add: example_order_body_def)
  have st: "\<forall>it\<in>set [example_item]. check_item example_env example_shop it = Continue ()"
    by (simp add: example_check)
  have c: "list_all reply_ok
      (stock_replies example_env (map (call_for (forwarded_authorization ?rq)) [example_item])
         (products example_shop))"
    by (simp add: example_shop_fields example_put_ok)
  have k: "parse_shipping example_env
      (Some (JSON_stringify example_env (js_or (shipping_address example_order_body) (JObj []))))
      = Some (JObj [(''city'', JStr ''Manila'')])"
    by (simp add: parse_shipping_def example_order_body_def js_or_def example_codec)
  have fr: "\<forall>row\<in>set (orders example_shop). o_id row \<noteq> next_order_id example_shop"
    "\<forall>r\<in>set (order_items example_shop). oi_order_id r \<noteq> next_order_id example_shop"
    by (simp_all add: example_shop_fields)
  from sufficient_stock_creates_order[OF example_user b f st c k fr] example_user[of example_order_body]
    b f(1) example_check
  show ?thesis by (simp add: example_shop_fields)
qed

text \<open>
  The listing of src/app/api/orders/route.ts answers an authenticated caller with 200 and
  one entry per order of the caller; each entry carries the shipping address as the text
  stored in the column (or null), since this handler returns the rows as read.
\<close>

theorem route_ts_lists_stored_text:
  assumes "getUserFromToken env request = Some user"
  shows "\<exists>listing.
           fst (orders_GET_route_ts env request s) = Response 200 (JArr listing) \<and>
           length listing = length (filter (\<lambda>row. o_user_id row = Some (uid user)) (orders s)) \<and>
           (\<forall>e\<in>set listing. \<exists>row\<in>set (orders s).
               o_user_id row = Some (uid user) \<and>
               opt_prop e ''id'' = JNum (int (o_id row)) \<and>
               opt_prop e ''shipping_address''
                 = (case o_shipping_address row of None \<Rightarrow> JNull | Some t \<Rightarrow> JStr t))"
proof -
  let ?listing = "map (\<lambda>order. JObj (order_fields env order)) (orders_of (uid user) s)"
  have "fst (orders_GET_route_ts env request s) = Response 200 (JArr ?listing)"
    using assms by (simp add: orders_GET_route_ts_def)
  moreover have "length ?listing = length (filter (\<lambda>row. o_user_id row = Some (uid user)) (orders s))"
    by (simp add: orders_of_def)
  moreover have "\<forall>e\<in>set ?listing. \<exists>row\<in>set (orders s).
               o_user_id row = Some (uid user) \<and>
               opt_prop e ''id'' = JNum (int (o_id row)) \<and>
               opt_prop e ''shipping_address''
                 = (case o_shipping_address row of None \<Rightarrow> JNull | Some t \<Rightarrow> JStr t)"
    by (auto simp: orders_of_def text_js_def)
  ultimately show ?thesis by blast
qed

text \<open>The stored order of the example, listed by that handler.\<close>

theorem route_ts_lists_stored_text_witness:
  \<open>getUserFromToken example_env (example_status_request ''alice-token'')
     = Some \<lparr>uid = ''alice'', user_email = ''a@b.com''\<rparr> \<and>
   (\<exists>e. fst (orders_GET_route_ts example_env (example_status_request ''alice-token'') example_orders)
          = Response 200 (JArr [e]) \<and>
        opt_prop e ''shipping_address'' = JStr ''{"city":"Manila"}'')\<close>
proof -
  let ?rq = "example_status_request ''alice-token''"
  have u: "getUserFromToken example_env ?rq = Some \<lparr>uid = ''alice'', user_email = ''a@b.com''\<rparr>"
    by (simp add: getUserFromToken_def example_env_def example_status_request_def)
  have mine: "orders_of ''alice'' example_orders = [example_order]"
    by (simp add: orders_of_def example_orders_def example_order_def)
  have rows: "orders example_orders = [example_order]"
    by (simp add: example_orders_def)
  have sh: \<open>o_shipping_address example_order = Some ''{"city":"Manila"}''\<close>
    by (simp add: example_order_def)
  from route_ts_lists_stored_text[OF u, of example_orders]
  obtain listing where l:
    "fst (orders_GET_route_ts example_env ?rq example_orders) = Response 200 (JArr listing)"
    "length listing = length (filter (\<lambda>row. o_user_id row = Some ''alice'') (orders example_orders))"
    "\<forall>e\<in>set listing. \<exists>row\<in>set (orders example_orders).
               o_user_id row = Some ''alice'' \<and>
               opt_prop e ''id'' = JNum (int (o_id row)) \<and>
               opt_prop e ''shipping_address''
                 = (case o_shipping_address row of None \<Rightarrow> JNull | Some t \<Rightarrow> JStr t)"
    by auto
  from l(2) have "length listing = 1"
    by (simp add: rows example_order_def)
  then obtain e where e: "listing = [e]"
    by (cases listing) auto
  with l(3) have \<open>opt_prop e ''shipping_address'' = JStr ''{"city":"Manila"}''\<close>
    by (simp add: rows sh)
  with l(1) e u show ?thesis by blast
qed

subsection \<open>Addresses: the table stays well formed\<close>

lemma default_count_none:
  "\<forall>a\<in>set (addresses s). a_user_id a \<noteq> u \<Longrightarrow> default_count u s = 0"
  by (auto simp: default_count_def filter_empty_conv)

lemma address_invariant_iff:
  "address_invariant s \<longleftrightarrow>
     distinct (map a_id (addresses s)) \<and>
     (\<forall>a\<in>set (addresses s). a_id a < next_address_id s) \<and>
     (\<forall>u. default_count u s \<le> 1)"
proof -
  have "(\<forall>a\<in>set (addresses s). default_count (a_user_id a) s \<le> 1) \<longleftrightarrow>
        (\<forall>u. default_count u s \<le> 1)"
  proof
    assume h: "\<forall>a\<in>set (addresses s). default_count (a_user_id a) s \<le> 1"
    show "\<forall>u. default_count u s \<le> 1"
    proof
      fix u
      show "default_count u s \<le> 1"
      proof (cases "\<exists>a\<in>set (addresses s). a_user_id a = u")
        case True
        with h show ?thesis by auto
      next
        case False
        then show ?thesis by (simp add: default_count_none)
      qed
    qed
  qed simp
  then show ?thesis by (simp add: address_invariant_def list_all_iff)
qed

lemma clear_defaults_ids [simp]: "map a_id (clear_defaults u rows) = map a_id rows"
  by (induction rows) (simp_all add: clear_defaults_def)

lemma clear_other_defaults_ids [simp]:
  "map a_id (clear_other_defaults env u idv rows) = map a_id rows"
  by (induction rows) (simp_all add: clear_other_defaults_def)

lemma updated_ids [simp]:
  "map a_id (map (\<lambda>a. if owned_address env u idv a then write_address b a else a) rows)
     = map a_id rows"
  by (induction rows) simp_all

lemma clear_defaults_others:
  "u' \<noteq> u \<Longrightarrow>
   filter (\<lambda>a. a_user_id a = u' \<and> a_is_default a) (clear_defaults u rows)
     = filter (\<lambda>a. a_user_id a = u' \<and> a_is_default a) rows"
  by (induction rows) (simp_all add: clear_defaults_def)

lemma clear_other_defaults_others:
  "u' \<noteq> u \<Longrightarrow>
   filter (\<lambda>a. a_user_id a = u' \<and> a_is_default a) (clear_other_defaults env u idv rows)
     = filter (\<lambda>a. a_user_id a = u' \<and> a_is_default a) rows"
  by (induction rows) (simp_all add: clear_other_defaults_def)

lemma updated_others:
  "u' \<noteq> u \<Longrightarrow>
   filter (\<lambda>a. a_user_id a = u' \<and> a_is_default a)
     (map (\<lambda>a. if owned_address env u idv a then write_address b a else a) rows)
     = filter (\<lambda>a. a_user_id a = u' \<and> a_is_default a) rows"
proof (induction rows)
  case Nil
  show ?case by simp
next
  case (Cons a rows)
  show ?case
  proof (cases "owned_address env u idv a")
    case True
    then have "a_user_id a = u" by (simp add: owned_address_def)
    with Cons True show ?thesis by simp
  next
    case False
    with Cons show ?thesis by simp
  qed
qed

lemma updated_unflagged:
  "\<not> truthy (is_default b) \<Longrightarrow>
   length (filter (\<lambda>a. a_user_id a = u' \<and> a_is_default a)
     (map (\<lambda>a. if owned_address env u idv a then write_address b a else a) rows))
   \<le> length (filter (\<lambda>a. a_user_id a = u' \<and> a_is_default a) rows)"
proof (induction rows)
  case Nil
  show ?case by simp
next
  case (Cons a rows)
  then show ?case by (cases "owned_address env u idv a") auto
qed

lemma filter_filter_le:
  "length (filter P (filter Q xs)) \<le> length (filter P xs)"
  by (induction xs) auto

text \<open>The state every path of POST leaves.\<close>

lemma addresses_POST_state:
  "snd (addresses_POST env request s) = s \<or>
   (\<exists>user b. getUserFromToken env request = Some user \<and>
      snd (addresses_POST env request s) =
        s\<lparr>addresses := (if truthy (is_default b) then clear_defaults (uid user) (addresses s)
                         else addresses s) @
              [write_address b (blank_address (next_address_id s) (uid user) (now env))],
          next_address_id := Suc (next_address_id s)\<rparr>)"
proof (cases "getUserFromToken env request")
  case None
  then show ?thesis by (simp add: addresses_POST_def)
next
  case (Some user)
  show ?thesis
  proof (cases "json_body request")
    case None
    with Some show ?thesis by (simp add: addresses_POST_def)
  next
    case b: (Some b)
    show ?thesis
    proof (cases "missing_required b")
      case True
      with Some b show ?thesis by (simp add: addresses_POST_def)
    next
      case False
      with Some b have "snd (addresses_POST env request s) =
        s\<lparr>addresses := (if truthy (is_default b) then clear_defaults (uid user) (addresses s)
                         else addresses s) @
              [write_address b (blank_address (next_address_id s) (uid user) (now env))],
          next_address_id := Suc (next_address_id s)\<rparr>"
        by (simp add: addresses_POST_def Let_def)
      with Some show ?thesis by blast
    qed
  qed
qed

text \<open>The state every path of PUT leaves.\<close>

lemma addresses_PUT_state:
  "snd (addresses_PUT env request s) = s \<or>
   (\<exists>(user::user) (b::address_body). snd (addresses_PUT env request s) =
      s\<lparr>addresses := map (\<lambda>a. if owned_address env (uid user) (body_id b) a
                                then write_address b a else a)
           (if truthy (is_default b)
            then clear_other_defaults env (uid user) (body_id b) (addresses s)
            else addresses s)\<rparr>)"
proof (cases "getUserFromToken env request")
  case None
  then show ?thesis by (simp add: addresses_PUT_def)
next
  case (Some user)
  show ?thesis
  proof (cases "json_body request")
    case None
    with Some show ?thesis by (simp add: addresses_PUT_def)
  next
    case b: (Some b)
    let ?own = "owned_address env (uid user) (body_id b)"
    show ?thesis
    proof (cases "falsy (body_id b) \<or> missing_required b \<or> filter ?own (addresses s) = []")
      case True
      with Some b show ?thesis by (auto simp: addresses_PUT_def)
    next
      case False
      with Some b have "snd (addresses_PUT env request s) =
          s\<lparr>addresses := map (\<lambda>a. if ?own a then write_address b a else a)
           (if truthy (is_default b)
            then clear_other_defaults env (uid user) (body_id b) (addresses s)
            else addresses s)\<rparr>"
        by (simp add: addresses_PUT_def Let_def)
      then show ?thesis by (intro disjI2 exI[of _ user] exI[of _ b])
    qed
  qed
qed

text \<open>The state every path of DELETE leaves.\<close>

lemma addresses_DELETE_state:
  "snd (addresses_DELETE env request s) = s \<or>
   (\<exists>(user::user) i. snd (addresses_DELETE env request s) =
      s\<lparr>addresses := filter (\<lambda>a. \<not> owned_address env (uid user) (JStr i) a) (addresses s)\<rparr>)"
proof (cases "getUserFromToken env request")
  case None
  then show ?thesis by (simp add: addresses_DELETE_def)
next
  case (Some user)
  show ?thesis
  proof (cases "searchParams_id request")
    case None
    with Some show ?thesis by (simp add: addresses_DELETE_def)
  next
    case i: (Some i)
    show ?thesis
    proof (cases "i = []")
      case True
      with Some i show ?thesis by (simp add: addresses_DELETE_def)
    next
      case False
      with Some i have "snd (addresses_DELETE env request s) =
          s\<lparr>addresses := filter (\<lambda>a. \<not> owned_address env (uid user) (JStr i) a) (addresses s)\<rparr>"
        by (simp add: addresses_DELETE_def Let_def)
      then show ?thesis by (intro disjI2 exI[of _ user] exI[of _ i])
    qed
  qed
qed


lemma same_ids_bound:
  assumes "map f xs = map f ys" and "\<forall>a\<in>set ys. f a < (n::nat)"
  shows "\<forall>a\<in>set xs. f a < n"
proof
  fix a assume "a \<in> set xs"
  then have "f a \<in> set (map f xs)" by simp
  with assms(1) have "f a \<in> set (map f ys)" by simp
  then obtain a' where "a' \<in> set ys" "f a = f a'" by auto
  with assms(2) show "f a < n" by simp
qed

text \<open>
  The address handlers keep the table well formed: from a state with unique ids below the
  next id and at most one default address per user, creating, updating and deleting lead to
  such a state again, and listing leaves the state as it was.
\<close>

theorem address_invariant_is_kept:
  assumes "address_invariant s"
  shows "address_invariant (snd (addresses_POST env request s)) \<and>
         address_invariant (snd (addresses_PUT env request s)) \<and>
         address_invariant (snd (addresses_DELETE env request' s)) \<and>
         snd (addresses_GET env request' s) = s"
proof -
  from assms have d: "distinct (map a_id (addresses s))"
    and below: "\<forall>a\<in>set (addresses s). a_id a < next_address_id s"
    and one: "\<And>u. default_count u s \<le> 1"
    by (simp_all add: address_invariant_iff)
  have post: "address_invariant (snd (addresses_POST env request s))"
    using addresses_POST_state[of env request s]
  proof (elim disjE exE conjE)
    assume "snd (addresses_POST env request s) = s"
    with assms show ?thesis by simp
  next
    fix user :: user and b :: address_body
    let ?rows = "if truthy (is_default b) then clear_defaults (uid user) (addresses s)
                 else addresses s"
    let ?row = "write_address b (blank_address (next_address_id s) (uid user) (now env))"
    assume st: "snd (addresses_POST env request s) =
        s\<lparr>addresses := ?rows @ [?row], next_address_id := Suc (next_address_id s)\<rparr>"
    have ids: "map a_id ?rows = map a_id (addresses s)" by simp
    have new: "a_id ?row = next_address_id s" "a_user_id ?row = uid user"
      "a_is_default ?row = truthy (is_default b)"
      "a_user_id (blank_address (next_address_id s) (uid user) (now env)) = uid user"
      by (simp_all add: blank_address_def)
    from below have fresh: "next_address_id s \<notin> a_id ` set (addresses s)" by auto
    have 1: "distinct (map a_id (?rows @ [?row]))"
      using d fresh by (simp add: ids new del: write_address_sel)
    from ids below have "\<forall>a\<in>set ?rows. a_id a < next_address_id s"
      by (rule same_ids_bound)
    then have 2: "\<forall>a\<in>set (?rows @ [?row]). a_id a < Suc (next_address_id s)"
      by (auto simp: blank_address_def less_Suc_eq)
    have 3: "length (filter (\<lambda>a. a_user_id a = u \<and> a_is_default a) (?rows @ [?row])) \<le> 1" for u
    proof (cases "truthy (is_default b)")
      case True
      show ?thesis
      proof (cases "u = uid user")
        case same: True
        with True show ?thesis by (simp add: cleared_no_default new)
      next
        case False
        with True one[of u] show ?thesis
          by (simp add: clear_defaults_others new default_count_def)
      qed
    next
      case False
      with one[of u] show ?thesis by (simp add: new default_count_def)
    qed
    from 1 2 3 show ?thesis
      unfolding address_invariant_iff st by (simp add: default_count_def)
  qed
  have put: "address_invariant (snd (addresses_PUT env request s))"
    using addresses_PUT_state[of env request s]
  proof (elim disjE exE)
    assume "snd (addresses_PUT env request s) = s"
    with assms show ?thesis by simp
  next
    fix user :: user and b :: address_body
    let ?own = "owned_address env (uid user) (body_id b)"
    let ?upd = "\<lambda>a. if ?own a then write_address b a else a"
    let ?rows = "if truthy (is_default b)
                 then clear_other_defaults env (uid user) (body_id b) (addresses s)
                 else addresses s"
    assume st: "snd (addresses_PUT env request s) = s\<lparr>addresses := map ?upd ?rows\<rparr>"
    have "map a_id (map ?upd ?rows) = map a_id ?rows" by (rule updated_ids)
    also have "\<dots> = map a_id (addresses s)"
      by (cases "truthy (is_default b)") (simp_all del: map_map)
    finally have ids: "map a_id (map ?upd ?rows) = map a_id (addresses s)" .
    from ids below have 2: "\<forall>a\<in>set (map ?upd ?rows). a_id a < next_address_id s"
      by (rule same_ids_bound)
    have 3: "length (filter (\<lambda>a. a_user_id a = u \<and> a_is_default a) (map ?upd ?rows)) \<le> 1" for u
    proof (cases "u = uid user")
      case False
      have "filter (\<lambda>a. a_user_id a = u \<and> a_is_default a) (map ?upd ?rows)
          = filter (\<lambda>a. a_user_id a = u \<and> a_is_default a) (addresses s)"
        using False by (simp add: updated_others clear_other_defaults_others del: filter_map)
      with one[of u] show ?thesis by (simp add: default_count_def del: filter_map)
    next
      case True
      show ?thesis
      proof (cases "truthy (is_default b)")
        case flag: True
        with default_count_update[OF flag, of "uid user" env "body_id b" "addresses s"]
             owned_le_one[OF d, of env "uid user" "body_id b"] True
        show ?thesis by (simp del: filter_map)
      next
        case False
        with updated_unflagged[OF False, of "uid user" env "uid user" "body_id b" "addresses s"]
             one[of "uid user"] True
        show ?thesis by (simp add: default_count_def del: filter_map)
      qed
    qed
    from d ids 2 3 show ?thesis
      unfolding address_invariant_iff st by (simp add: default_count_def del: filter_map map_map)
  qed
  have del: "address_invariant (snd (addresses_DELETE env request' s))"
    using addresses_DELETE_state[of env request' s]
  proof (elim disjE exE)
    assume "snd (addresses_DELETE env request' s) = s"
    with assms show ?thesis by simp
  next
    fix user :: user and i
    let ?keep = "\<lambda>a. \<not> owned_address env (uid user) (JStr i) a"
    assume st: "snd (addresses_DELETE env request' s) = s\<lparr>addresses := filter ?keep (addresses s)\<rparr>"
    have 1: "distinct (map a_id (filter ?keep (addresses s)))"
      using d by (rule distinct_map_filter)
    have 3: "length (filter (\<lambda>a. a_user_id a = u \<and> a_is_default a) (filter ?keep (addresses s))) \<le> 1"
      for u
      using filter_filter_le[of "\<lambda>a. a_user_id a = u \<and> a_is_default a" ?keep "addresses s"]
            one[of u]
      by (simp add: default_count_def)
    from 1 below 3 show ?thesis
      unfolding address_invariant_iff st by (simp add: default_count_def)
  qed
  have get: "snd (addresses_GET env request' s) = s"
    by (cases "getUserFromToken env request'") (simp_all add: addresses_GET_def)
  from post put del get show ?thesis by blast
qed


text \<open>The three handlers on the table with one default address per user.\<close>

theorem address_invariant_is_kept_witness:
  "address_invariant example_addresses_one_default \<and>
   address_invariant
     (snd (addresses_POST example_env example_address_request example_addresses_one_default)) \<and>
   address_invariant
     (snd (addresses_PUT example_env example_address_request example_addresses_one_default)) \<and>
   address_invariant
     (snd (addresses_DELETE example_env example_delete_request example_addresses_one_default)) \<and>
   snd (addresses_GET example_env example_delete_request example_addresses_one_default)
     = example_addresses_one_default"
proof -
  have inv: "address_invariant example_addresses_one_default"
    by (simp add: address_invariant_def example_addresses_one_default_def example_address_def
        blank_address_def default_count_def)
  from address_invariant_is_kept[OF inv, where env = example_env
      and request = example_address_request and request' = example_delete_request] inv
  show ?thesis by simp
qed

end
